(* ===== verification/Prelude.thy ===== *)
theory Prelude
  imports Main "HOL-Library.Word" "HOL-Library.AList"
begin

text \<open>
  Shared vocabulary of the development.  The script \<open>src/alphafold3.py\<close> is Python that
  talks to the outside world: it prints to its standard output, reads JSON files and
  starts a child process.  The world is modelled as explicit state (\<open>world\<close>), and a
  statement of the script as a function from the world to an outcome and the new world
  (\<open>'a pyio\<close>).  An exception is the outcome \<open>Inl e\<close>; the effects made before it was
  raised stay in the returned world, as they do in Python.  The generic lemmas on the
  monad and on lists that every component uses are collected here.
\<close>

named_theorems pyio_simps \<open>equations of the world-passing primitives\<close>
named_theorems frame_rules \<open>which parts of the world a statement leaves alone\<close>

subsection \<open>Bytes and Python errors\<close>

type_synonym byte = "8 word"
type_synonym bytes = "byte list"

text \<open>A Python \<open>str\<close> that is printed is a sequence of Unicode code points.\<close>

type_synonym ustr = "nat list"

definition ustr :: "string \<Rightarrow> ustr" where
  "ustr s = map of_char s"

text \<open>
  \<open>subprocess.CalledProcessError(returncode, cmd, output=None, stderr=None)\<close>: the four
  attributes of the exception object.
\<close>

record called_process_error =
  cpe_returncode :: int
  cpe_cmd :: string
  cpe_output :: "bytes option"
  cpe_stderr :: "bytes option"

datatype py_error =
    ValueError string
  | FileNotFoundError string
  | JSONDecodeError string
  | UnicodeDecodeError nat
  | CalledProcessError called_process_error
  | MsaError string
  | IndexError

subsection \<open>The world and the exception-state monad\<close>

text \<open>
  What a child process does is not part of the program: \<open>proc_result\<close> is what
  \<open>Popen.communicate\<close> hands back once the child has exited.
\<close>

record proc_result =
  returncode :: int
  out :: bytes
  err :: bytes

text \<open>
  The observable world: the lines printed on standard output, the commands of the child
  processes started so far (in order), and the files, a table from the components of
  their absolute path to their contents (read with \<open>map_of\<close>, written with
  \<open>AList.update\<close>).
\<close>

record world =
  console :: "ustr list"
  spawned :: "string list"
  files :: "(string list \<times> bytes) list"

type_synonym 'a pyio = "world \<Rightarrow> (py_error + 'a) \<times> world"

definition io_return :: "'a \<Rightarrow> 'a pyio" where
  "io_return a w = (Inr a, w)"

definition io_raise :: "py_error \<Rightarrow> 'a pyio" where
  "io_raise e w = (Inl e, w)"

definition io_bind :: "'a pyio \<Rightarrow> ('a \<Rightarrow> 'b pyio) \<Rightarrow> 'b pyio" where
  "io_bind m f w = (case m w of (Inl e, w') \<Rightarrow> (Inl e, w') | (Inr a, w') \<Rightarrow> f a w')"

text \<open>Python's \<open>print(s)\<close>: one more line on standard output.\<close>

definition io_print :: "ustr \<Rightarrow> unit pyio" where
  "io_print s w = (Inr (), w\<lparr>console := console w @ [s]\<rparr>)"

text \<open>A Python \<open>for\<close> loop over a list whose body may raise: the first exception ends it.\<close>

fun io_for :: "'a list \<Rightarrow> ('a \<Rightarrow> unit pyio) \<Rightarrow> unit pyio" where
  "io_for [] f = io_return ()"
| "io_for (x # xs) f = io_bind (f x) (\<lambda>_. io_for xs f)"

text \<open>Python's \<open>xs[i]\<close> for a non-negative index.\<close>

definition io_index :: "'a list \<Rightarrow> nat \<Rightarrow> 'a pyio" where
  "io_index xs i = (if i < length xs then io_return (xs ! i) else io_raise IndexError)"

text \<open>A statement leaves the part \<open>f\<close> of the world alone, whatever it returns or raises.\<close>

definition preserves :: "(world \<Rightarrow> 'b) \<Rightarrow> 'a pyio \<Rightarrow> bool" where
  "preserves f m \<longleftrightarrow> (\<forall>w. f (snd (m w)) = f w)"

subsection \<open>Lists and strings\<close>

text \<open>
  Python's \<open>str.split(sep)\<close> for a one-character separator: \<open>n\<close> separators give
  \<open>n + 1\<close> pieces, empty ones included.
\<close>

fun split_on :: "char \<Rightarrow> string \<Rightarrow> string list" where
  "split_on c [] = [[]]"
| "split_on c (x # xs) =
     (if x = c then [] # split_on c xs
      else (case split_on c xs of p # ps \<Rightarrow> (x # p) # ps | [] \<Rightarrow> [[x]]))"

text \<open>Python's \<open>sep.join(parts)\<close>.\<close>

fun join_with :: "string \<Rightarrow> string list \<Rightarrow> string" where
  "join_with sep [] = []"
| "join_with sep [p] = p"
| "join_with sep (p # q # ps) = p @ sep @ join_with sep (q # ps)"

subsection \<open>Lemmas\<close>

lemma io_return_apply [simp, pyio_simps]: "io_return a w = (Inr a, w)"
  by (simp add: io_return_def)

lemma io_raise_apply [simp, pyio_simps]: "io_raise e w = (Inl e, w)"
  by (simp add: io_raise_def)

lemma io_print_apply [simp, pyio_simps]:
  "io_print s w = (Inr (), w\<lparr>console := console w @ [s]\<rparr>)"
  by (simp add: io_print_def)

lemma io_bind_apply [pyio_simps]:
  "io_bind m f w = (case m w of (Inl e, w') \<Rightarrow> (Inl e, w') | (Inr a, w') \<Rightarrow> f a w')"
  by (simp add: io_bind_def)

lemma io_bind_Inr [simp]: "m w = (Inr a, w') \<Longrightarrow> io_bind m f w = f a w'"
  by (simp add: io_bind_def)

lemma io_bind_Inl [simp]: "m w = (Inl e, w') \<Longrightarrow> io_bind m f w = (Inl e, w')"
  by (simp add: io_bind_def)

lemma io_bind_return_left [simp]: "io_bind (io_return a) f = f a"
  by (simp add: io_bind_def fun_eq_iff)

lemma io_bind_return_right [simp]: "io_bind m io_return = m"
  by (simp add: io_bind_def fun_eq_iff split: prod.splits sum.splits)

lemma io_bind_assoc:
  "io_bind (io_bind m f) g = io_bind m (\<lambda>a. io_bind (f a) g)"
  by (simp add: io_bind_def fun_eq_iff split: prod.splits sum.splits)

lemma io_bind_raise [simp]: "io_bind (io_raise e) f = io_raise e"
  by (simp add: io_bind_def fun_eq_iff)

text \<open>Frame rules: printing touches only the console.\<close>

lemma io_print_frame [simp]:
  "spawned (snd (io_print s w)) = spawned w"
  "files (snd (io_print s w)) = files w"
  by simp_all

lemma preservesD: "preserves f m \<Longrightarrow> f (snd (m w)) = f w"
  by (simp add: preserves_def)

lemma preserves_return [frame_rules]: "preserves f (io_return a)"
  by (simp add: preserves_def)

lemma preserves_raise [frame_rules]: "preserves f (io_raise e)"
  by (simp add: preserves_def)

lemma preserves_bind [frame_rules]:
  assumes "preserves f m" and "\<And>a. preserves f (g a)"
  shows "preserves f (io_bind m g)"
  unfolding preserves_def
proof
  fix w
  obtain r w' where mw: "m w = (r, w')" by fastforce
  have "f w' = f w" using preservesD [OF assms(1), of w] mw by simp
  then show "f (snd (io_bind m g w)) = f w"
    using preservesD [OF assms(2)] mw by (cases r) (simp_all add: io_bind_def)
qed

lemma preserves_if [frame_rules]:
  "preserves f m \<Longrightarrow> preserves f m' \<Longrightarrow> preserves f (if b then m else m')"
  by simp

lemma preserves_index [frame_rules]: "preserves f (io_index xs i)"
  by (simp add: io_index_def preserves_def)

lemma preserves_print [frame_rules]:
  "preserves spawned (io_print s)" "preserves files (io_print s)"
  by (simp_all add: preserves_def)

lemma io_for_append: "io_for (xs @ ys) f = io_bind (io_for xs f) (\<lambda>_. io_for ys f)"
  by (induction xs) (simp_all add: io_bind_assoc)

lemma preserves_for [frame_rules]: "(\<And>x. preserves g (f x)) \<Longrightarrow> preserves g (io_for xs f)"
  by (induction xs) (simp_all add: frame_rules)

lemma io_for_split:
  "k < length xs \<Longrightarrow> io_for xs f = io_bind (io_for (take k xs) f) (\<lambda>_. io_bind (f (xs ! k)) (\<lambda>_. io_for (drop (Suc k) xs) f))"
  using id_take_nth_drop [of k xs] io_for_append [of "take k xs" "xs ! k # drop (Suc k) xs" f] by simp

lemma not_isl_Inr: "\<not> isl x \<longleftrightarrow> (\<exists>y. x = Inr y)"
  by (cases x) auto

lemma split_on_not_Nil [simp]: "split_on c s \<noteq> []"
  by (induction s) (auto split: list.splits)

lemma join_split_on: "join_with [c] (split_on c s) = s"
proof (induction s)
  case Nil
  then show ?case by simp
next
  case (Cons x xs)
  then show ?case
    by (cases "split_on c xs"; cases "tl (split_on c xs)") auto
qed

lemma split_on_no_sep: "c \<notin> set s \<Longrightarrow> split_on c s = [s]"
  by (induction s) auto

lemma split_on_pieces: "p \<in> set (split_on c s) \<Longrightarrow> c \<notin> set p"
proof (induction s arbitrary: p)
  case Nil
  then show ?case by simp
next
  case (Cons x xs)
  then show ?case
    by (auto split: if_splits list.splits)
qed

lemma join_with_append_single:
  "ps \<noteq> [] \<Longrightarrow> join_with sep (ps @ [q]) = join_with sep ps @ sep @ q"
proof (induction sep ps rule: join_with.induct)
  case (1 sep)
  then show ?case by simp
next
  case (2 sep p)
  then show ?case by simp
next
  case (3 sep p q ps)
  then show ?case by simp
qed

end
