(* ===== verification/PyStr.thy ===== *)
theory PyStr
  imports Prelude
begin

text \<open>
  Python's \<open>str.replace(old, new)\<close> with no count, which the batch loop of
  \<open>src/alphafold3.py\<close> applies to the input path (\<open>json_file.replace(".json",
  "_mmseqs.json")\<close>).  It replaces every non-overlapping occurrence, scanning from the
  left; an empty \<open>old\<close> inserts \<open>new\<close> before every character and at the end.
  The lemmas say when the replacement only touches a final \<open>old\<close>: when \<open>old\<close> does not
  occur earlier and has no border (no proper prefix that is also a suffix).
\<close>

definition occurs_at :: "string \<Rightarrow> string \<Rightarrow> bool" where
  "occurs_at old s \<longleftrightarrow> take (length old) s = old"

function py_replace :: "string \<Rightarrow> string \<Rightarrow> string \<Rightarrow> string" where
  "py_replace old new s =
     (if old = [] then new @ concat (map (\<lambda>c. c # new) s)
      else if s = [] then []
      else if occurs_at old s then new @ py_replace old new (drop (length old) s)
      else hd s # py_replace old new (tl s))"
  by pat_completeness auto
termination
  by (relation "measure (\<lambda>(old, new, s). length s)") auto

declare py_replace.simps [simp del]

text \<open>The occurrences of \<open>old\<close> in \<open>s\<close>, as a bool-valued scan.\<close>

fun contains :: "string \<Rightarrow> string \<Rightarrow> bool" where
  "contains old [] = (old = [])"
| "contains old (c # s) = (occurs_at old (c # s) \<or> contains old s)"

definition no_border :: "string \<Rightarrow> bool" where
  "no_border old \<longleftrightarrow>
     (\<forall>k \<in> {1..<length old}. take k old \<noteq> drop (length old - k) old)"

lemma py_replace_Nil [simp]: "old \<noteq> [] \<Longrightarrow> py_replace old new [] = []"
  by (simp add: py_replace.simps)

lemma py_replace_match:
  "old \<noteq> [] \<Longrightarrow> s \<noteq> [] \<Longrightarrow> occurs_at old s \<Longrightarrow>
   py_replace old new s = new @ py_replace old new (drop (length old) s)"
  by (simp add: py_replace.simps [of old new s])

lemma py_replace_skip:
  "old \<noteq> [] \<Longrightarrow> \<not> occurs_at old (c # s) \<Longrightarrow>
   py_replace old new (c # s) = c # py_replace old new s"
  by (simp add: py_replace.simps [of old new "c # s"])

text \<open>Without an occurrence, \<open>replace\<close> is the identity.\<close>

lemma py_replace_no_occurrence:
  assumes "old \<noteq> []" and "\<not> contains old s"
  shows "py_replace old new s = s"
  using assms(2)
proof (induction s)
  case Nil
  then show ?case using assms(1) by simp
next
  case (Cons c s)
  then show ?case using assms(1) by (simp add: py_replace_skip)
qed

text \<open>
  A match that starts inside \<open>s\<close> and ends inside a trailing \<open>old\<close> would make a
  border of \<open>old\<close>.
\<close>

lemma occurs_at_straddle:
  assumes nb: "no_border old" and ne: "s \<noteq> []" and short: "length s < length old"
  shows "\<not> occurs_at old (s @ old)"
proof
  assume "occurs_at old (s @ old)"
  then have eq: "s @ take (length old - length s) old = old"
    using short by (simp add: occurs_at_def)
  let ?k = "length old - length s"
  have border: "take ?k old = drop (length s) old"
    using eq by (metis append_eq_conv_conj)
  have pos: "0 < length s" using ne by simp
  have k: "?k \<in> {1..<length old}" using pos short by (simp only: atLeastLessThan_iff) linarith
  have "take ?k old \<noteq> drop (length old - ?k) old"
    using nb k unfolding no_border_def by blast
  moreover have "length old - ?k = length s" using short by simp
  ultimately show False using border by simp
qed

lemma py_replace_append_old:
  assumes "old \<noteq> []" and "no_border old"
  shows "py_replace old new (s @ old) = py_replace old new s @ new"
proof (induction s rule: length_induct)
  case (1 s)
  show ?case
  proof (cases s)
    case Nil
    have "occurs_at old old" by (simp add: occurs_at_def)
    then show ?thesis using Nil assms(1) by (simp add: py_replace_match)
  next
    case (Cons c s')
    show ?thesis
    proof (cases "occurs_at old s")
      case True
      then have long: "length old \<le> length s"
        by (auto simp: occurs_at_def dest: arg_cong[where f = length])
      then have "occurs_at old (s @ old)" using True by (simp add: occurs_at_def)
      moreover have "drop (length old) (s @ old) = drop (length old) s @ old"
        using long by simp
      moreover have "length (drop (length old) s) < length s"
        using assms(1) Cons by simp
      ultimately show ?thesis
        using True Cons assms(1) "1" by (simp add: py_replace_match)
    next
      case False
      have "\<not> occurs_at old (s @ old)"
      proof (cases "length s < length old")
        case True
        have "s \<noteq> []" using Cons by simp
        then show ?thesis using occurs_at_straddle[OF assms(2)] True by blast
      next
        case False': False
        then show ?thesis using False by (simp add: occurs_at_def)
      qed
      then show ?thesis
        using False Cons assms(1) "1" by (simp add: py_replace_skip)
    qed
  qed
qed

lemma occurs_at_append_long: "length old \<le> length s \<Longrightarrow> occurs_at old (s @ r) = occurs_at old s"
  by (simp add: occurs_at_def)

lemma py_replace_append_old_rest:
  assumes "old \<noteq> []" and "no_border old"
  shows "py_replace old new (s @ old @ r) = py_replace old new s @ new @ py_replace old new r"
proof (induction s rule: length_induct)
  case (1 s)
  show ?case
  proof (cases s)
    case Nil
    have "occurs_at old (old @ r)" by (simp add: occurs_at_def)
    then show ?thesis using Nil assms(1) by (simp add: py_replace_match)
  next
    case (Cons c s')
    have oc: "occurs_at old (s @ old @ r) = occurs_at old (s @ old)"
      using occurs_at_append_long [of old "s @ old" r] by simp
    show ?thesis
    proof (cases "occurs_at old s")
      case True
      then have long: "length old \<le> length s"
        by (auto simp: occurs_at_def dest: arg_cong[where f = length])
      then have "occurs_at old (s @ old @ r)" using True oc by (simp add: occurs_at_def)
      moreover have "drop (length old) (s @ old @ r) = drop (length old) s @ old @ r"
        using long by simp
      moreover have "length (drop (length old) s) < length s"
        using assms(1) Cons by simp
      ultimately show ?thesis
        using True Cons assms(1) "1" by (simp add: py_replace_match)
    next
      case False
      have "\<not> occurs_at old (s @ old)"
      proof (cases "length s < length old")
        case True
        have "s \<noteq> []" using Cons by simp
        then show ?thesis using occurs_at_straddle[OF assms(2)] True by blast
      next
        case False': False
        then show ?thesis using False by (simp add: occurs_at_def)
      qed
      then have "\<not> occurs_at old (c # s' @ old @ r)" using oc Cons by simp
      then show ?thesis
        using Cons False assms(1) "1" by (simp add: py_replace_skip)
    qed
  qed
qed

lemma py_replace_suffix_only:
  assumes "old \<noteq> []" and "no_border old" and "\<not> contains old s"
  shows "py_replace old new (s @ old) = s @ new"
  using assms by (simp add: py_replace_append_old py_replace_no_occurrence)

end
