(* ===== verification/Pathlib.thy ===== *)
theory Pathlib
  imports Prelude
begin

text \<open>
  The part of Python's \<open>pathlib.PosixPath\<close> that \<open>run_alphafold3\<close> uses:
  \<open>Path(s)\<close>, \<open>str(p)\<close>, \<open>p.name\<close>, \<open>p.parent\<close> and \<open>p.resolve()\<close>.  A path is
  its root and its list of components (pathlib's \<open>_root\<close> and \<open>_tail\<close>).  Parsing
  drops empty and \<open>.\<close> components and keeps \<open>..\<close>; exactly two leading slashes
  form a root of their own, as POSIX allows.  \<open>resolve()\<close> (not strict) is
  \<open>os.path.realpath\<close>: a relative path is taken from the working directory and
  \<open>..\<close> is resolved lexically.  Symbolic links are not modelled: on a file system
  without them this is what \<open>realpath\<close> computes.
\<close>

datatype root = NoRoot | Root | DRoot

record ppath =
  p_root :: root
  p_parts :: "string list"

definition slash :: char where
  "slash = CHR ''/''"

definition root_of :: "string \<Rightarrow> root" where
  "root_of s =
     (if take 1 s \<noteq> [slash] then NoRoot
      else if take 2 s = [slash, slash] \<and> take 3 s \<noteq> [slash, slash, slash] then DRoot
      else Root)"

definition good_part :: "string \<Rightarrow> bool" where
  "good_part p \<longleftrightarrow> p \<noteq> [] \<and> p \<noteq> ''.''"

text \<open>\<open>Path(s)\<close>: \<open>PurePosixPath._parse_path\<close> with \<open>posixpath.splitroot\<close>.\<close>

definition path_of :: "string \<Rightarrow> ppath" where
  "path_of s = \<lparr>p_root = root_of s, p_parts = filter good_part (split_on slash s)\<rparr>"

fun root_str :: "root \<Rightarrow> string" where
  "root_str NoRoot = []"
| "root_str Root = [slash]"
| "root_str DRoot = [slash, slash]"

text \<open>\<open>str(p)\<close>: the root, then the components joined by \<open>/\<close>; \<open>.\<close> for the empty path.\<close>

definition path_str :: "ppath \<Rightarrow> string" where
  "path_str p =
     (let s = root_str (p_root p) @ join_with [slash] (p_parts p) in if s = [] then ''.'' else s)"

text \<open>\<open>p.name\<close>: the last component, or the empty string.\<close>

definition name :: "ppath \<Rightarrow> string" where
  "name p = (if p_parts p = [] then [] else last (p_parts p))"

text \<open>\<open>p.parent\<close>: the path without its last component; a path without components
  is its own parent.\<close>

definition parent :: "ppath \<Rightarrow> ppath" where
  "parent p = (if p_parts p = [] then p else p\<lparr>p_parts := butlast (p_parts p)\<rparr>)"

text \<open>
  Lexical resolution of an absolute component list, as \<open>posixpath.normpath\<close> does it
  after \<open>abspath\<close>: \<open>..\<close> removes the component before it and is dropped at the root.
  The accumulator holds the components found so far, last first.
\<close>

fun norm_acc :: "string list \<Rightarrow> string list \<Rightarrow> string list" where
  "norm_acc acc [] = rev acc"
| "norm_acc acc (x # xs) =
     (if x = [] \<or> x = ''.'' then norm_acc acc xs
      else if x = ''..'' then norm_acc (tl acc) xs
      else norm_acc (x # acc) xs)"

definition is_absolute :: "ppath \<Rightarrow> bool" where
  "is_absolute p \<longleftrightarrow> p_root p \<noteq> NoRoot"

text \<open>\<open>p.resolve()\<close> in the working directory \<open>cwd\<close> (the string \<open>os.getcwd()\<close> returns).\<close>

definition resolve :: "string \<Rightarrow> ppath \<Rightarrow> ppath" where
  "resolve cwd p =
     \<lparr>p_root = Root,
      p_parts = norm_acc [] (if is_absolute p then p_parts p else p_parts (path_of cwd) @ p_parts p)\<rparr>"

subsection \<open>Well-formed paths and normal component lists\<close>

text \<open>The components of a parsed path: none empty, none \<open>.\<close>, none holding a slash.\<close>

definition wf_path :: "ppath \<Rightarrow> bool" where
  "wf_path p \<longleftrightarrow> list_all (\<lambda>x. good_part x \<and> slash \<notin> set x) (p_parts p)"

text \<open>A resolved component list: additionally no \<open>..\<close>.\<close>

definition normal :: "string list \<Rightarrow> bool" where
  "normal xs \<longleftrightarrow> list_all (\<lambda>x. good_part x \<and> x \<noteq> ''..'') xs"

lemma normal_simps [simp]:
  "normal []"
  "normal (x # xs) \<longleftrightarrow> good_part x \<and> x \<noteq> ''..'' \<and> normal xs"
  "normal (xs @ ys) \<longleftrightarrow> normal xs \<and> normal ys"
  by (auto simp: normal_def)

lemma normal_rev [simp]: "normal (rev xs) \<longleftrightarrow> normal xs"
  by (simp add: normal_def)

lemma normal_tl: "normal xs \<Longrightarrow> normal (tl xs)"
  by (cases xs) auto

lemma norm_acc_normal: "normal acc \<Longrightarrow> normal (norm_acc acc xs)"
  by (induction acc xs rule: norm_acc.induct) (auto simp: good_part_def normal_tl)

lemma norm_acc_append_normal:
  "normal xs \<Longrightarrow> norm_acc acc (xs @ ys) = norm_acc (rev xs @ acc) ys"
  by (induction xs arbitrary: acc) (auto simp: good_part_def)

lemma norm_acc_of_normal: "normal xs \<Longrightarrow> norm_acc [] xs = xs"
  using norm_acc_append_normal [of xs "[]" "[]"] by simp

lemma norm_acc_snoc:
  "good_part x \<Longrightarrow> x \<noteq> ''..'' \<Longrightarrow> norm_acc acc (xs @ [x]) = norm_acc acc xs @ [x]"
  by (induction acc xs rule: norm_acc.induct) (auto simp: good_part_def)

lemma list_all_tl: "list_all Q xs \<Longrightarrow> list_all Q (tl xs)"
  by (cases xs) simp_all

lemma norm_acc_list_all:
  "list_all Q acc \<Longrightarrow> list_all Q xs \<Longrightarrow> list_all Q (norm_acc acc xs)"
  by (induction acc xs rule: norm_acc.induct) (simp_all add: list_all_tl)

lemma wf_path_of: "wf_path (path_of s)"
  by (auto simp: wf_path_def path_of_def list_all_iff dest: split_on_pieces)

lemma good_part_name: "wf_path p \<Longrightarrow> p_parts p \<noteq> [] \<Longrightarrow> good_part (name p)"
  by (simp add: wf_path_def name_def list_all_iff)

lemmas path_defs = path_of_def path_str_def name_def parent_def resolve_def is_absolute_def

subsection \<open>Parsing and printing\<close>

lemma split_on_join_with:
  "ps \<noteq> [] \<Longrightarrow> list_all (\<lambda>p. c \<notin> set p) ps \<Longrightarrow> split_on c (join_with [c] ps) = ps"
proof (induction "[c]" ps rule: join_with.induct)
  case 1
  then show ?case by simp
next
  case (2 p)
  then show ?case by (simp add: split_on_no_sep)
next
  case (3 p q ps)
  have "split_on c (p @ c # xs) = (case split_on c [] of _ \<Rightarrow> p # split_on c xs)"
    if "c \<notin> set p" for xs
    using that by (induction p) auto
  with 3 show ?case by simp
qed

lemma split_on_slash_prefix:
  "split_on c (c # s) = [] # split_on c s"
  by simp

lemma filter_good_root_str:
  "filter good_part (split_on slash (root_str r @ s)) = filter good_part (split_on slash s)"
  by (cases r) (simp_all add: good_part_def)

lemma filter_good_join:
  assumes "list_all (\<lambda>x. good_part x \<and> slash \<notin> set x) ps"
  shows "filter good_part (split_on slash (join_with [slash] ps)) = ps"
proof (cases ps)
  case Nil
  then show ?thesis by (simp add: good_part_def)
next
  case (Cons x xs)
  with assms have "split_on slash (join_with [slash] ps) = ps"
    by (intro split_on_join_with) (auto simp: list_all_iff)
  with assms show ?thesis by (simp add: list_all_iff filter_id_conv)
qed

lemma root_of_printed:
  assumes "wf_path p"
  shows "root_of (root_str (p_root p) @ join_with [slash] (p_parts p)) = p_root p"
proof (cases "p_parts p")
  case Nil
  then show ?thesis by (cases "p_root p") (simp_all add: root_of_def slash_def)
next
  case (Cons x xs)
  with assms obtain c x' where x: "x = c # x'" and c: "c \<noteq> slash"
    by (cases x) (auto simp: wf_path_def good_part_def)
  obtain rest where j: "join_with [slash] (p_parts p) = c # rest"
    using Cons x by (cases xs) auto
  show ?thesis using c
    by (cases "p_root p") (simp_all add: j root_of_def)
qed

lemma join_with_Cons_prefix: "\<exists>rest. join_with sep (x # xs) = x @ rest"
  by (cases xs) auto

lemma path_str_nonempty:
  assumes "wf_path p" and "\<not> (p_root p = NoRoot \<and> p_parts p = [])"
  shows "path_str p = root_str (p_root p) @ join_with [slash] (p_parts p)"
proof (cases "p_parts p")
  case Nil
  with assms(2) show ?thesis by (cases "p_root p") (simp_all add: path_str_def)
next
  case (Cons x xs)
  with assms(1) have "x \<noteq> []" by (simp add: wf_path_def good_part_def)
  moreover obtain rest where "join_with [slash] (p_parts p) = x @ rest"
    using Cons join_with_Cons_prefix by metis
  ultimately show ?thesis by (simp add: path_str_def Let_def)
qed

text \<open>
  Printing a well-formed path and parsing the result gives the path back (so every
  parsed path is in the normal form \<open>str\<close> prints).
\<close>

lemma path_of_path_str:
  assumes wf: "wf_path p"
  shows "path_of (path_str p) = p"
proof (cases "p_root p = NoRoot \<and> p_parts p = []")
  case True
  then show ?thesis
    by (cases p) (simp add: path_of_def path_str_def root_of_def good_part_def slash_def)
next
  case False
  have parts: "filter good_part (split_on slash (path_str p)) = p_parts p"
    using wf by (simp add: path_str_nonempty[OF wf False] filter_good_root_str
        filter_good_join[unfolded list_all_iff] wf_path_def list_all_iff)
  have "root_of (path_str p) = p_root p"
    using root_of_printed[OF wf] by (simp add: path_str_nonempty[OF wf False])
  with parts show ?thesis by (cases p) (simp add: path_of_def)
qed

subsection \<open>Parent, name and resolution\<close>

lemma parent_name:
  "p_parts p \<noteq> [] \<Longrightarrow> p_parts (parent p) @ [name p] = p_parts p"
  by (simp add: parent_def name_def)

lemma parent_root [simp]: "p_root (parent p) = p_root p"
  by (simp add: parent_def)

lemma is_absolute_parent [simp]: "is_absolute (parent p) = is_absolute p"
  by (simp add: is_absolute_def)

lemma resolve_root [simp]: "p_root (resolve cwd p) = Root"
  by (simp add: resolve_def)

lemma resolve_normal: "normal (p_parts (resolve cwd p))"
  by (simp add: resolve_def norm_acc_normal)

lemma wf_resolve: "wf_path p \<Longrightarrow> wf_path (resolve cwd p)"
  using wf_path_of [of cwd]
  by (auto simp: wf_path_def resolve_def intro!: norm_acc_list_all)

text \<open>Resolving a resolved path changes nothing.\<close>

lemma resolve_idem: "resolve cwd (resolve cwd p) = resolve cwd p"
  by (simp add: resolve_def is_absolute_def norm_acc_of_normal norm_acc_normal)

lemma resolve_parent_name:
  assumes "wf_path p" and "p_parts p \<noteq> []" and "name p \<noteq> ''..''"
  shows "p_parts (resolve cwd (parent p)) @ [name p] = p_parts (resolve cwd p)"
proof -
  have g: "good_part (name p)" using assms(1,2) by (rule good_part_name)
  have "p_parts p = p_parts (parent p) @ [name p]" using assms(2) by (simp add: parent_name)
  then show ?thesis
    using g assms(3) by (simp add: resolve_def norm_acc_snoc flip: append_assoc)
qed

end
