(* ===== verification/Shell.thy ===== *)
theory Shell
  imports Prelude
begin

text \<open>
  \<open>subprocess.Popen(cmd, shell=True)\<close> runs \<open>/bin/sh -c cmd\<close>.  The shell, not the
  script, turns the command string into the argument vector of \<open>docker\<close>.  This theory
  models the part of the POSIX shell's lexer that the command of \<open>run_alphafold3\<close> needs:
  blanks separate words, a newline ends a command, a backslash before a newline joins two
  lines, and a backslash before any other character makes that character part of the word.
  Quotes, expansions, redirections, globbing, comments and the other operators are outside
  the modelled fragment: the lexer answers \<open>None\<close> on their characters, so that no
  theorem silently assumes how the shell treats them.
\<close>

definition BS :: char where "BS = CHR 0x5C"
definition NL :: char where "NL = CHR 0x0A"
definition TAB :: char where "TAB = CHR 0x09"
definition SP :: char where "SP = CHR 0x20"

lemmas shell_chars = BS_def NL_def TAB_def SP_def

text \<open>
  Characters with a meaning of their own to \<open>sh\<close>, outside a quoted or escaped context:
  \<open>| & ; < > ( ) $ ` " ' * ? [ # ~ { } !\<close>.
\<close>

definition unsupported :: "char \<Rightarrow> bool" where
  "unsupported c \<longleftrightarrow>
     c \<in> set [CHR 0x7C, CHR 0x26, CHR 0x3B, CHR 0x3C, CHR 0x3E, CHR 0x28, CHR 0x29,
              CHR 0x24, CHR 0x60, CHR 0x22, CHR 0x27, CHR 0x2A, CHR 0x3F, CHR 0x5B,
              CHR 0x23, CHR 0x7E, CHR 0x7B, CHR 0x7D, CHR 0x21]"

text \<open>A character that stands for itself inside a word.\<close>

definition shell_plain :: "char \<Rightarrow> bool" where
  "shell_plain c \<longleftrightarrow> \<not> unsupported c \<and> c \<noteq> BS \<and> c \<noteq> SP \<and> c \<noteq> TAB \<and> c \<noteq> NL"

definition end_word :: "string \<Rightarrow> string list \<Rightarrow> string list" where
  "end_word w ws = (if w = [] then ws else ws @ [w])"

definition end_cmd :: "string list \<Rightarrow> string list list \<Rightarrow> string list list" where
  "end_cmd ws cs = (if ws = [] then cs else cs @ [ws])"

text \<open>
  \<open>lex s w ws cs\<close>: the rest \<open>s\<close> of the input, the word being read \<open>w\<close>, the words
  of the current command \<open>ws\<close>, the commands read so far \<open>cs\<close>.
\<close>

fun lex :: "string \<Rightarrow> string \<Rightarrow> string list \<Rightarrow> string list list \<Rightarrow> string list list option" where
  "lex [] w ws cs = Some (end_cmd (end_word w ws) cs)"
| "lex (c # s) w ws cs =
     (if c = BS then
        (case s of
          [] \<Rightarrow> Some (end_cmd (end_word (w @ [BS]) ws) cs)
        | d # s' \<Rightarrow> if d = NL then lex s' w ws cs else lex s' (w @ [d]) ws cs)
      else if c = SP \<or> c = TAB then lex s [] (end_word w ws) cs
      else if c = NL then lex s [] [] (end_cmd (end_word w ws) cs)
      else if unsupported c then None
      else lex s (w @ [c]) ws cs)"

definition shell_lex :: "string \<Rightarrow> string list list option" where
  "shell_lex s = lex s [] [] []"

definition shell_safe :: "string \<Rightarrow> bool" where
  "shell_safe s \<longleftrightarrow> list_all shell_plain s"

lemma lex_plain_append:
  "shell_safe u \<Longrightarrow> lex (u @ s) w ws cs = lex s (w @ u) ws cs"
  by (induction u arbitrary: w) (auto simp: shell_safe_def shell_plain_def)

lemma shell_safe_append [simp]: "shell_safe (u @ v) \<longleftrightarrow> shell_safe u \<and> shell_safe v"
  by (simp add: shell_safe_def)

end
