(* ===== verification/Command.thy ===== *)
theory Command
  imports Pathlib Shell
begin

text \<open>
  The command string of \<open>run_alphafold3\<close> (\<open>src/alphafold3.py\<close>, lines 14--28) and
  what it means: the \<open>docker run\<close> invocation it asks the shell to execute.  The
  invocation is stated abstractly as a record (\<open>docker_run\<close>): flags, volume mounts,
  GPU request, image and the entry point's arguments.  The refinement theorem says that
  the shell splits the command string into exactly the argument vector of that record,
  provided the interpolated paths are made of characters the shell takes literally.
\<close>

subsection \<open>The command string\<close>

text \<open>
  The raw f-string: every line but the last ends in a blank, a backslash and a newline,
  the string starts with a newline and ends with a newline and four blanks.
\<close>

definition cmd_line :: "string \<Rightarrow> string" where
  "cmd_line t = ''    '' @ t @ [SP, BS, NL]"

text \<open>
  The interpolated values, in the order of the f-string: the resolved parent directory of
  the input JSON, the resolved output directory, the model directory and the database
  directory as given, and the file name of the input JSON.
\<close>

definition input_dir :: "string \<Rightarrow> string \<Rightarrow> string" where
  "input_dir cwd input_json = path_str (resolve cwd (parent (path_of input_json)))"

definition output_mount :: "string \<Rightarrow> string \<Rightarrow> string" where
  "output_mount cwd output_dir = path_str (resolve cwd (path_of output_dir))"

definition input_name :: "string \<Rightarrow> string" where
  "input_name input_json = name (path_of input_json)"

definition af3_command :: "string \<Rightarrow> string \<Rightarrow> string \<Rightarrow> string \<Rightarrow> string \<Rightarrow> string" where
  "af3_command cwd input_json output_dir model_params database_dir =
     [NL] @
     cmd_line ''docker run -it'' @
     cmd_line (''--volume '' @ input_dir cwd input_json @ '':/root/af_input'') @
     cmd_line (''--volume '' @ output_mount cwd output_dir @ '':/root/af_output'') @
     cmd_line (''--volume '' @ model_params @ '':/root/models'') @
     cmd_line (''--volume '' @ database_dir @ '':/root/public_databases'') @
     cmd_line ''--gpus all'' @
     cmd_line ''alphafold3'' @
     cmd_line ''python run_alphafold.py'' @
     cmd_line (''--json_path=/root/af_input/'' @ input_name input_json) @
     cmd_line ''--model_dir=/root/models'' @
     ''    --output_dir=/root/af_output'' @ [NL] @ ''    ''"

subsection \<open>The invocation it stands for\<close>

record docker_run =
  dr_flags :: "string list"
  dr_mounts :: "(string \<times> string) list"
  dr_gpus :: string
  dr_image :: string
  dr_args :: "string list"

definition docker_argv :: "docker_run \<Rightarrow> string list" where
  "docker_argv d =
     [''docker'', ''run''] @ dr_flags d @
     concat (map (\<lambda>(h, c). [''--volume'', h @ '':'' @ c]) (dr_mounts d)) @
     [''--gpus'', dr_gpus d, dr_image d] @ dr_args d"

definition af3_invocation :: "string \<Rightarrow> string \<Rightarrow> string \<Rightarrow> string \<Rightarrow> string \<Rightarrow> docker_run" where
  "af3_invocation cwd input_json output_dir model_params database_dir =
     \<lparr>dr_flags = [''-it''],
      dr_mounts = [(input_dir cwd input_json, ''/root/af_input''),
                   (output_mount cwd output_dir, ''/root/af_output''),
                   (model_params, ''/root/models''),
                   (database_dir, ''/root/public_databases'')],
      dr_gpus = ''all'',
      dr_image = ''alphafold3'',
      dr_args = [''python'', ''run_alphafold.py'',
                 ''--json_path=/root/af_input/'' @ input_name input_json,
                 ''--model_dir=/root/models'', ''--output_dir=/root/af_output'']\<rparr>"

subsection \<open>Docker volume mounts\<close>

text \<open>
  \<open>docker run --volume h:c\<close> bind-mounts the host directory \<open>h\<close> at \<open>c\<close> when
  \<open>h\<close> is an absolute path; any other \<open>h\<close> names a Docker-managed volume (or is
  refused), not a host directory.  A path inside the container is found on the host
  through the mount whose target is a prefix of it, component by component (the four
  targets of the invocation are disjoint, so the first such mount is the only one).
\<close>

definition is_bind :: "string \<Rightarrow> bool" where
  "is_bind h \<longleftrightarrow> take 1 h = [slash]"

definition mount_target :: "(string \<times> string) list \<Rightarrow> string \<Rightarrow> (string \<times> string) option" where
  "mount_target ms p =
     find (\<lambda>(h, c). take (length (p_parts (path_of c))) (p_parts (path_of p)) = p_parts (path_of c)) ms"

definition container_to_host :: "(string \<times> string) list \<Rightarrow> string \<Rightarrow> ppath option" where
  "container_to_host ms p =
     (case mount_target ms p of
       None \<Rightarrow> None
     | Some (h, c) \<Rightarrow>
         if is_bind h
         then Some \<lparr>p_root = Root,
                    p_parts = p_parts (path_of h) @ drop (length (p_parts (path_of c))) (p_parts (path_of p))\<rparr>
         else None)"

subsection \<open>The command string splits into the invocation\<close>

text \<open>
  C7. Refinement: when the five interpolated values contain only characters that the shell
  takes literally, \<open>sh -c\<close> reads the command string as exactly one command, whose words
  are the argument vector of \<open>af3_invocation\<close>.
\<close>

theorem af3_command_lex:
  assumes "shell_safe (input_dir cwd input_json)" and "shell_safe (output_mount cwd output_dir)"
    and "shell_safe model_params" and "shell_safe database_dir" and "shell_safe (input_name input_json)"
  shows "shell_lex (af3_command cwd input_json output_dir model_params database_dir) =
         Some [docker_argv (af3_invocation cwd input_json output_dir model_params database_dir)]"
  using assms
  by (simp add: shell_lex_def af3_command_def af3_invocation_def docker_argv_def cmd_line_def
      lex_plain_append shell_chars unsupported_def end_word_def end_cmd_def)

lemma path_str_Root: "p_root p = Root \<Longrightarrow> take 1 (path_str p) = [slash]"
  by (simp add: path_str_def Let_def)

lemma is_bind_resolved: "is_bind (path_str (resolve cwd p))"
  using path_str_Root [of "resolve cwd p"] by (simp add: is_bind_def)

lemma wf_parent: "wf_path p \<Longrightarrow> wf_path (parent p)"
  by (auto simp: wf_path_def parent_def list_all_iff dest: in_set_butlastD)

lemma path_of_input_dir:
  "path_of (input_dir cwd input_json) = resolve cwd (parent (path_of input_json))"
  by (simp add: input_dir_def path_of_path_str wf_resolve wf_parent wf_path_of)

lemma name_no_slash: "slash \<notin> set (name (path_of s))"
  using wf_path_of [of s]
  by (auto simp: name_def wf_path_def list_all_iff)

lemma parts_af_input:
  assumes "good_part n" and "slash \<notin> set n"
  shows "p_parts (path_of (''/root/af_input/'' @ n)) = [''root'', ''af_input'', n]"
proof -
  have "split_on slash n = [n]" using assms(2) by (rule split_on_no_sep)
  then show ?thesis using assms(1) by (simp add: path_of_def slash_def good_part_def)
qed

lemma is_bind_input_dir: "is_bind (input_dir cwd input_json)"
  by (simp add: input_dir_def is_bind_resolved)

lemma path_of_af_input: "p_parts (path_of ''/root/af_input'') = [''root'', ''af_input'']"
  by (simp add: path_of_def slash_def good_part_def)

lemma resolve_as_record: "resolve cwd p = \<lparr>p_root = Root, p_parts = p_parts (resolve cwd p)\<rparr>"
  by (simp add: resolve_def)

lemma container_to_host_input:
  assumes "p_parts (path_of cp) = [''root'', ''af_input'', n]"
  shows "container_to_host (dr_mounts (af3_invocation cwd input_json output_dir model_params database_dir)) cp =
         Some \<lparr>p_root = Root, p_parts = p_parts (resolve cwd (parent (path_of input_json))) @ [n]\<rparr>"
  using assms
  by (simp add: container_to_host_def mount_target_def af3_invocation_def path_of_af_input
      path_of_input_dir is_bind_input_dir)

theorem json_path_in_container:
  assumes "p_parts (path_of input_json) \<noteq> []" and "input_name input_json \<noteq> ''..''"
  shows "container_to_host (dr_mounts (af3_invocation cwd input_json output_dir model_params database_dir))
           (''/root/af_input/'' @ input_name input_json)
         = Some (resolve cwd (path_of input_json))"
proof -
  have g: "good_part (input_name input_json)"
    using assms(1) wf_path_of by (simp add: input_name_def good_part_name)
  have parts: "p_parts (path_of (''/root/af_input/'' @ input_name input_json)) =
               [''root'', ''af_input'', input_name input_json]"
    using g name_no_slash [of input_json] unfolding input_name_def by (rule parts_af_input)
  have host: "p_parts (resolve cwd (parent (path_of input_json))) @ [input_name input_json] =
              p_parts (resolve cwd (path_of input_json))"
    using resolve_parent_name [OF wf_path_of assms(1)] assms(2) by (simp add: input_name_def)
  show ?thesis
    using container_to_host_input [OF parts] host resolve_as_record by metis
qed

text \<open>
  C14. Of the four volumes of the invocation, the input directory and the output directory
  are always bind mounts of host directories (they are resolved to absolute paths); the
  model and database directories are bind mounts only when they are given as absolute
  paths.
\<close>

theorem mount_kinds:
  "map (is_bind \<circ> fst) (dr_mounts (af3_invocation cwd input_json output_dir model_params database_dir)) =
   [True, True, is_bind model_params, is_bind database_dir]"
  by (simp add: af3_invocation_def is_bind_input_dir output_mount_def is_bind_resolved)

text \<open>
  C15. The command is an interpolated shell string without quoting: when the resolved
  input directory contains a blank, \<open>sh\<close> splits the volume argument in two, so
  Docker receives the part before the blank as a volume without container path and the
  argument vector is not the invocation's.
\<close>

theorem blank_in_path_splits_volume:
  assumes "input_dir wd input_json = p @ [SP] @ q" and "p \<noteq> []"
    and "shell_safe p" and "shell_safe q" and "shell_safe (output_mount wd output_dir)"
    and "shell_safe model_params" and "shell_safe database_dir" and "shell_safe (input_name input_json)"
  shows "shell_lex (af3_command wd input_json output_dir model_params database_dir) =
     Some [[''docker'', ''run'', ''-it'', ''--volume'', p, q @ '':/root/af_input'',
            ''--volume'', output_mount wd output_dir @ '':/root/af_output'',
            ''--volume'', model_params @ '':/root/models'',
            ''--volume'', database_dir @ '':/root/public_databases'', ''--gpus'', ''all'', ''alphafold3'',
            ''python'', ''run_alphafold.py'', ''--json_path=/root/af_input/'' @ input_name input_json,
            ''--model_dir=/root/models'', ''--output_dir=/root/af_output'']] \<and>
   shell_lex (af3_command wd input_json output_dir model_params database_dir) \<noteq>
     Some [docker_argv (af3_invocation wd input_json output_dir model_params database_dir)]"
proof -
  have l: "shell_lex (af3_command wd input_json output_dir model_params database_dir) =
     Some [[''docker'', ''run'', ''-it'', ''--volume'', p, q @ '':/root/af_input'',
            ''--volume'', output_mount wd output_dir @ '':/root/af_output'',
            ''--volume'', model_params @ '':/root/models'',
            ''--volume'', database_dir @ '':/root/public_databases'', ''--gpus'', ''all'', ''alphafold3'',
            ''python'', ''run_alphafold.py'', ''--json_path=/root/af_input/'' @ input_name input_json,
            ''--model_dir=/root/models'', ''--output_dir=/root/af_output'']]"
    using assms
    by (simp add: shell_lex_def af3_command_def cmd_line_def lex_plain_append shell_chars
        unsupported_def end_word_def end_cmd_def)
  let ?ws = "[''docker'', ''run'', ''-it'', ''--volume'', p, q @ '':/root/af_input'',
            ''--volume'', output_mount wd output_dir @ '':/root/af_output'',
            ''--volume'', model_params @ '':/root/models'',
            ''--volume'', database_dir @ '':/root/public_databases'', ''--gpus'', ''all'', ''alphafold3'',
            ''python'', ''run_alphafold.py'', ''--json_path=/root/af_input/'' @ input_name input_json,
            ''--model_dir=/root/models'', ''--output_dir=/root/af_output'']"
  have len: "length (docker_argv (af3_invocation wd input_json output_dir model_params database_dir)) \<noteq> length ?ws"
    by (simp add: docker_argv_def af3_invocation_def)
  have "Some [?ws] \<noteq> Some [docker_argv (af3_invocation wd input_json output_dir model_params database_dir)]"
  proof
    assume "Some [?ws] = Some [docker_argv (af3_invocation wd input_json output_dir model_params database_dir)]"
    then have "length ?ws = length (docker_argv (af3_invocation wd input_json output_dir model_params database_dir))"
      by (simp only: option.inject list.inject)
    then show False using len by metis
  qed
  then show ?thesis using l by simp
qed

end
