(* ===== verification/Utf8.thy ===== *)
theory Utf8
  imports Prelude
begin

text \<open>
  \<open>bytes.decode()\<close> with Python's default codec, strict UTF-8, which
  \<open>run_alphafold3\<close> applies to the captured output of the child before printing it.  A
  byte sequence decodes when it is a concatenation of the well-formed sequences of the
  Unicode standard (Table 3-7); otherwise decoding raises \<open>UnicodeDecodeError\<close>, whose
  start position is the offset of the first ill-formed sequence.  Overlong forms,
  surrogates and code points above U+10FFFF are refused.  The encoder is the inverse
  direction, used to state round trips.
\<close>

definition is_cont :: "nat \<Rightarrow> bool" where
  "is_cont y \<longleftrightarrow> 0x80 \<le> y \<and> y \<le> 0xBF"

text \<open>The range allowed for the second byte after a lead byte of three or four bytes.\<close>

definition second_ok :: "nat \<Rightarrow> nat \<Rightarrow> bool" where
  "second_ok x y \<longleftrightarrow>
     (if x = 0xE0 then 0xA0 \<le> y \<and> y \<le> 0xBF
      else if x = 0xED then 0x80 \<le> y \<and> y \<le> 0x9F
      else if x = 0xF0 then 0x90 \<le> y \<and> y \<le> 0xBF
      else if x = 0xF4 then 0x80 \<le> y \<and> y \<le> 0x8F
      else is_cont y)"

definition cons_cp :: "nat \<Rightarrow> nat + nat list \<Rightarrow> nat + nat list" where
  "cons_cp c r = (case r of Inl i \<Rightarrow> Inl i | Inr cs \<Rightarrow> Inr (c # cs))"

text \<open>\<open>utf8_dec i bs\<close>: decode \<open>bs\<close>, which starts at offset \<open>i\<close> of the whole input.\<close>

fun utf8_dec :: "nat \<Rightarrow> bytes \<Rightarrow> nat + nat list" where
  "utf8_dec i [] = Inr []"
| "utf8_dec i (b # bs) =
     (let x = unat b in
      if x < 0x80 then cons_cp x (utf8_dec (i + 1) bs)
      else if 0xC2 \<le> x \<and> x \<le> 0xDF then
        (case bs of
          b1 # r \<Rightarrow>
            if is_cont (unat b1)
            then cons_cp ((x - 0xC0) * 64 + (unat b1 - 0x80)) (utf8_dec (i + 2) r)
            else Inl i
        | _ \<Rightarrow> Inl i)
      else if 0xE0 \<le> x \<and> x \<le> 0xEF then
        (case bs of
          b1 # b2 # r \<Rightarrow>
            if second_ok x (unat b1) \<and> is_cont (unat b2)
            then cons_cp ((x - 0xE0) * 4096 + (unat b1 - 0x80) * 64 + (unat b2 - 0x80))
                   (utf8_dec (i + 3) r)
            else Inl i
        | _ \<Rightarrow> Inl i)
      else if 0xF0 \<le> x \<and> x \<le> 0xF4 then
        (case bs of
          b1 # b2 # b3 # r \<Rightarrow>
            if second_ok x (unat b1) \<and> is_cont (unat b2) \<and> is_cont (unat b3)
            then cons_cp ((x - 0xF0) * 262144 + (unat b1 - 0x80) * 4096
                            + (unat b2 - 0x80) * 64 + (unat b3 - 0x80))
                   (utf8_dec (i + 4) r)
            else Inl i
        | _ \<Rightarrow> Inl i)
      else Inl i)"

definition utf8_decode :: "bytes \<Rightarrow> nat + ustr" where
  "utf8_decode bs = utf8_dec 0 bs"

text \<open>Scalar values: what a Python \<open>str\<close> read from UTF-8 can hold.\<close>

definition valid_cp :: "nat \<Rightarrow> bool" where
  "valid_cp c \<longleftrightarrow> c < 0x110000 \<and> \<not> (0xD800 \<le> c \<and> c \<le> 0xDFFF)"

definition utf8_encode_cp :: "nat \<Rightarrow> bytes" where
  "utf8_encode_cp c =
     (if c < 0x80 then [of_nat c]
      else if c < 0x800 then [of_nat (0xC0 + c div 64), of_nat (0x80 + c mod 64)]
      else if c < 0x10000 then
        [of_nat (0xE0 + c div 4096), of_nat (0x80 + c div 64 mod 64), of_nat (0x80 + c mod 64)]
      else
        [of_nat (0xF0 + c div 262144), of_nat (0x80 + c div 4096 mod 64),
         of_nat (0x80 + c div 64 mod 64), of_nat (0x80 + c mod 64)])"

definition utf8_encode :: "ustr \<Rightarrow> bytes" where
  "utf8_encode cs = concat (map utf8_encode_cp cs)"

lemma cons_cp_Inr [simp]: "cons_cp c (Inr cs) = Inr (c # cs)"
  by (simp add: cons_cp_def)

lemma cons_cp_Inl [simp]: "cons_cp c (Inl i) = Inl i"
  by (simp add: cons_cp_def)

subsection \<open>The decoder on one well-formed sequence\<close>

lemma unat_byte [simp]: "n < 256 \<Longrightarrow> unat (of_nat n :: byte) = n"
  by (simp add: unat_of_nat)

lemma dec_bytes1:
  "x < 0x80 \<Longrightarrow> utf8_dec i (of_nat x # r) = cons_cp x (utf8_dec (i + 1) r)"
  by simp

lemma dec_bytes2:
  "0xC2 \<le> x \<Longrightarrow> x \<le> 0xDF \<Longrightarrow> is_cont y \<Longrightarrow>
   utf8_dec i (of_nat x # of_nat y # r) = cons_cp ((x - 0xC0) * 64 + (y - 0x80)) (utf8_dec (i + 2) r)"
  by (simp add: is_cont_def Let_def)

lemma dec_bytes3:
  "0xE0 \<le> x \<Longrightarrow> x \<le> 0xEF \<Longrightarrow> second_ok x y \<Longrightarrow> is_cont y \<Longrightarrow> is_cont z \<Longrightarrow>
   utf8_dec i (of_nat x # of_nat y # of_nat z # r) =
     cons_cp ((x - 0xE0) * 4096 + (y - 0x80) * 64 + (z - 0x80)) (utf8_dec (i + 3) r)"
  by (simp add: is_cont_def Let_def)

lemma dec_bytes4:
  "0xF0 \<le> x \<Longrightarrow> x \<le> 0xF4 \<Longrightarrow> second_ok x y \<Longrightarrow> is_cont y \<Longrightarrow> is_cont z \<Longrightarrow> is_cont v \<Longrightarrow>
   utf8_dec i (of_nat x # of_nat y # of_nat z # of_nat v # r) =
     cons_cp ((x - 0xF0) * 262144 + (y - 0x80) * 4096 + (z - 0x80) * 64 + (v - 0x80))
       (utf8_dec (i + 4) r)"
  by (simp add: is_cont_def Let_def)

lemma div_4096: "(c::nat) div 4096 = c div 64 div 64"
  by (simp add: div_mult2_eq)

lemma div_262144: "(c::nat) div 262144 = c div 64 div 64 div 64"
  by (simp add: div_mult2_eq)

lemma digits3: "(c::nat) div 4096 * 4096 + c div 64 mod 64 * 64 + c mod 64 = c"
proof -
  have "c = c div 64 * 64 + c mod 64" "c div 64 = c div 64 div 64 * 64 + c div 64 mod 64" by simp_all
  then show ?thesis unfolding div_4096 by linarith
qed

lemma digits4:
  "(c::nat) div 262144 * 262144 + c div 4096 mod 64 * 4096 + c div 64 mod 64 * 64 + c mod 64 = c"
proof -
  have "c = c div 64 * 64 + c mod 64" "c div 64 = c div 64 div 64 * 64 + c div 64 mod 64"
    "c div 64 div 64 = c div 64 div 64 div 64 * 64 + c div 64 div 64 mod 64" by simp_all
  then show ?thesis unfolding div_4096 div_262144 by linarith
qed

lemma second_ok_E:
  "a < 16 \<Longrightarrow> y < 64 \<Longrightarrow> (a = 0 \<Longrightarrow> 32 \<le> y) \<Longrightarrow> (a = 13 \<Longrightarrow> y < 32) \<Longrightarrow>
   second_ok (0xE0 + a) (0x80 + y)"
  by (auto simp: second_ok_def is_cont_def)

lemma second_ok_F:
  "a \<le> 4 \<Longrightarrow> y < 64 \<Longrightarrow> (a = 0 \<Longrightarrow> 16 \<le> y) \<Longrightarrow> (a = 4 \<Longrightarrow> y < 16) \<Longrightarrow>
   second_ok (0xF0 + a) (0x80 + y)"
  by (auto simp: second_ok_def is_cont_def)

lemma utf8_dec_enc_cp:
  assumes "valid_cp c"
  shows "utf8_dec i (utf8_encode_cp c @ r) = cons_cp c (utf8_dec (i + length (utf8_encode_cp c)) r)"
proof -
  consider "c < 0x80" | "0x80 \<le> c" "c < 0x800" | "0x800 \<le> c" "c < 0x10000" | "0x10000 \<le> c"
    by linarith
  then show ?thesis
  proof cases
    case 1
    then show ?thesis by (simp add: utf8_encode_cp_def)
  next
    case 2
    have "utf8_dec i (utf8_encode_cp c @ r) =
          utf8_dec i (of_nat (0xC0 + c div 64) # of_nat (0x80 + c mod 64) # r)"
      using 2 by (simp add: utf8_encode_cp_def)
    also have "\<dots> = cons_cp ((0xC0 + c div 64 - 0xC0) * 64 + (0x80 + c mod 64 - 0x80)) (utf8_dec (i + 2) r)"
      by (rule dec_bytes2) (use 2 in \<open>auto simp: is_cont_def\<close>)
    also have "(0xC0 + c div 64 - 0xC0) * 64 + (0x80 + c mod 64 - 0x80) = c"
      by simp
    finally have "utf8_dec i (utf8_encode_cp c @ r) = cons_cp c (utf8_dec (i + 2) r)" .
    moreover have "length (utf8_encode_cp c) = 2" using 2 by (simp add: utf8_encode_cp_def)
    ultimately show ?thesis by simp
  next
    case 3
    have "utf8_dec i (utf8_encode_cp c @ r) =
          utf8_dec i (of_nat (0xE0 + c div 4096) # of_nat (0x80 + c div 64 mod 64) # of_nat (0x80 + c mod 64) # r)"
      using 3 by (simp add: utf8_encode_cp_def)
    also have "\<dots> = cons_cp ((0xE0 + c div 4096 - 0xE0) * 4096 + (0x80 + c div 64 mod 64 - 0x80) * 64
                        + (0x80 + c mod 64 - 0x80)) (utf8_dec (i + 3) r)"
    proof (rule dec_bytes3)
      have d: "c div 64 = c div 4096 * 64 + c div 64 mod 64"
        using div_mult_mod_eq [of "c div 64" 64] div_mult2_eq [of c 64 64] by simp
      show "second_ok (0xE0 + c div 4096) (0x80 + c div 64 mod 64)"
      proof (rule second_ok_E)
        show "c div 4096 < 16" using 3 by simp
        show "c div 64 mod 64 < 64" by simp
        show "32 \<le> c div 64 mod 64" if "c div 4096 = 0" using d that 3 by simp
        show "c div 64 mod 64 < 32" if "c div 4096 = 13"
        proof -
          have "c < 57344" using that div_mult_mod_eq [of c 4096] mod_less_divisor [of 4096 c] by linarith
          then have "c < 0xD800" using assms by (simp add: valid_cp_def)
          then have "c div 64 < 864" by simp
          then show ?thesis using d that by simp
        qed
      qed
    qed (use 3 in \<open>auto simp: is_cont_def\<close>)
    also have "(0xE0 + c div 4096 - 0xE0) * 4096 + (0x80 + c div 64 mod 64 - 0x80) * 64
                 + (0x80 + c mod 64 - 0x80) = c"
      using digits3 by simp
    finally have "utf8_dec i (utf8_encode_cp c @ r) = cons_cp c (utf8_dec (i + 3) r)" .
    moreover have "length (utf8_encode_cp c) = 3" using 3 by (simp add: utf8_encode_cp_def)
    ultimately show ?thesis by simp
  next
    case 4
    have "utf8_dec i (utf8_encode_cp c @ r) =
          utf8_dec i (of_nat (0xF0 + c div 262144) # of_nat (0x80 + c div 4096 mod 64) #
                      of_nat (0x80 + c div 64 mod 64) # of_nat (0x80 + c mod 64) # r)"
      using 4 by (simp add: utf8_encode_cp_def)
    also have "\<dots> = cons_cp ((0xF0 + c div 262144 - 0xF0) * 262144 + (0x80 + c div 4096 mod 64 - 0x80) * 4096
                        + (0x80 + c div 64 mod 64 - 0x80) * 64 + (0x80 + c mod 64 - 0x80)) (utf8_dec (i + 4) r)"
    proof (rule dec_bytes4)
      have d: "c div 4096 = c div 262144 * 64 + c div 4096 mod 64"
        using div_mult_mod_eq [of "c div 4096" 64] div_mult2_eq [of c 4096 64] by simp
      have "c < 0x110000" using assms by (simp add: valid_cp_def)
      then have u: "c div 4096 < 272" by simp
      have l: "16 \<le> c div 4096" using 4 by simp
      show "second_ok (0xF0 + c div 262144) (0x80 + c div 4096 mod 64)"
      proof (rule second_ok_F)
        show "c div 262144 \<le> 4" using u d by linarith
        show "c div 4096 mod 64 < 64" by simp
        show "16 \<le> c div 4096 mod 64" if "c div 262144 = 0" using d l that by simp
        show "c div 4096 mod 64 < 16" if "c div 262144 = 4" using d u that by simp
      qed
    qed (use 4 assms in \<open>auto simp: is_cont_def valid_cp_def\<close>)
    also have "(0xF0 + c div 262144 - 0xF0) * 262144 + (0x80 + c div 4096 mod 64 - 0x80) * 4096
                 + (0x80 + c div 64 mod 64 - 0x80) * 64 + (0x80 + c mod 64 - 0x80) = c"
      using digits4 by simp
    finally have "utf8_dec i (utf8_encode_cp c @ r) = cons_cp c (utf8_dec (i + 4) r)" .
    moreover have "length (utf8_encode_cp c) = 4" using 4 by (simp add: utf8_encode_cp_def)
    ultimately show ?thesis by simp
  qed
qed

subsection \<open>The encoder on the value a sequence decodes to\<close>

lemma digit_div: "d < 64 \<Longrightarrow> (q * 64 + d) div 64 = (q::nat)"
  by simp

lemma digit_mod: "d < 64 \<Longrightarrow> (q * 64 + d) mod 64 = (d::nat)"
  by simp

lemma enc_bytes1: "x < 0x80 \<Longrightarrow> utf8_encode_cp x = [of_nat x] \<and> valid_cp x"
  by (simp add: utf8_encode_cp_def valid_cp_def)

lemma enc_bytes2:
  assumes "0xC2 \<le> x" "x \<le> 0xDF" "is_cont y"
  shows "utf8_encode_cp ((x - 0xC0) * 64 + (y - 0x80)) = [of_nat x, of_nat y] \<and>
         valid_cp ((x - 0xC0) * 64 + (y - 0x80))"
proof -
  define a b where "a = x - 0xC0" and "b = y - 0x80"
  have ab: "2 \<le> a" "a < 32" "b < 64" "x = 0xC0 + a" "y = 0x80 + b"
    using assms by (auto simp: a_def b_def is_cont_def)
  then have "(a * 64 + b) div 64 = a" "(a * 64 + b) mod 64 = b" by simp_all
  moreover have "0x80 \<le> a * 64 + b" "a * 64 + b < 0x800" using ab by simp_all
  ultimately show ?thesis unfolding a_def [symmetric] b_def [symmetric] using ab
    by (simp add: utf8_encode_cp_def valid_cp_def)
qed

lemma enc_bytes3:
  assumes "0xE0 \<le> x" "x \<le> 0xEF" "second_ok x y" "is_cont y" "is_cont z"
  shows "utf8_encode_cp ((x - 0xE0) * 4096 + (y - 0x80) * 64 + (z - 0x80)) = [of_nat x, of_nat y, of_nat z] \<and>
         valid_cp ((x - 0xE0) * 4096 + (y - 0x80) * 64 + (z - 0x80))"
proof -
  define a b d where "a = x - 0xE0" and "b = y - 0x80" and "d = z - 0x80"
  have ab: "a < 16" "b < 64" "d < 64" "x = 0xE0 + a" "y = 0x80 + b" "z = 0x80 + d"
    using assms by (auto simp: a_def b_def d_def is_cont_def)
  have lo: "a = 0 \<Longrightarrow> 32 \<le> b" using assms ab by (auto simp: second_ok_def)
  have sur: "a = 13 \<Longrightarrow> b < 32"
  proof -
    assume "a = 13"
    then have "x = 0xED" using ab by simp
    then show ?thesis using assms unfolding b_def second_ok_def by simp arith
  qed
  have r: "a * 4096 + b * 64 + d = (a * 64 + b) * 64 + d" by simp
  have "(a * 4096 + b * 64 + d) div 4096 = a" using ab by simp
  moreover have "(a * 4096 + b * 64 + d) div 64 mod 64 = b" "(a * 4096 + b * 64 + d) mod 64 = d"
    unfolding r using ab by (simp_all only: digit_div digit_mod)
  moreover have "0x800 \<le> a * 4096 + b * 64 + d" using lo by (cases "a = 0") simp_all
  moreover have "a * 4096 + b * 64 + d < 0x10000" using ab by simp
  moreover have "\<not> (0xD800 \<le> a * 4096 + b * 64 + d \<and> a * 4096 + b * 64 + d \<le> 0xDFFF)"
    using ab sur by (cases "a = 13"; cases "a < 13") simp_all
  ultimately show ?thesis unfolding a_def [symmetric] b_def [symmetric] d_def [symmetric] using ab
    by (simp add: utf8_encode_cp_def valid_cp_def)
qed

lemma enc_bytes4:
  assumes "0xF0 \<le> x" "x \<le> 0xF4" "second_ok x y" "is_cont y" "is_cont z" "is_cont v"
  shows "utf8_encode_cp ((x - 0xF0) * 262144 + (y - 0x80) * 4096 + (z - 0x80) * 64 + (v - 0x80)) =
           [of_nat x, of_nat y, of_nat z, of_nat v] \<and>
         valid_cp ((x - 0xF0) * 262144 + (y - 0x80) * 4096 + (z - 0x80) * 64 + (v - 0x80))"
proof -
  define a b d e where "a = x - 0xF0" and "b = y - 0x80" and "d = z - 0x80" and "e = v - 0x80"
  have ab: "a \<le> 4" "b < 64" "d < 64" "e < 64" "x = 0xF0 + a" "y = 0x80 + b" "z = 0x80 + d" "v = 0x80 + e"
    using assms by (auto simp: a_def b_def d_def e_def is_cont_def)
  have lo: "a = 0 \<Longrightarrow> 16 \<le> b" using assms ab by (auto simp: second_ok_def)
  have hi: "a = 4 \<Longrightarrow> b < 16"
  proof -
    assume "a = 4"
    then have "x = 0xF4" using ab by simp
    then show ?thesis using assms unfolding b_def second_ok_def by simp arith
  qed
  have r: "a * 262144 + b * 4096 + d * 64 + e = ((a * 64 + b) * 64 + d) * 64 + e" by simp
  have "(a * 262144 + b * 4096 + d * 64 + e) div 262144 = a" using ab by simp
  moreover have "(a * 262144 + b * 4096 + d * 64 + e) div 4096 mod 64 = b"
    unfolding r div_4096 using ab by (simp only: digit_div digit_mod)
  moreover have "(a * 262144 + b * 4096 + d * 64 + e) div 64 mod 64 = d"
    "(a * 262144 + b * 4096 + d * 64 + e) mod 64 = e"
    unfolding r using ab by (simp_all only: digit_div digit_mod)
  moreover have "0x10000 \<le> a * 262144 + b * 4096 + d * 64 + e" using lo by (cases "a = 0") simp_all
  moreover have "a * 262144 + b * 4096 + d * 64 + e < 0x110000"
    using ab hi by (cases "a = 4"; cases "a < 4") simp_all
  ultimately show ?thesis unfolding a_def [symmetric] b_def [symmetric] d_def [symmetric] e_def [symmetric]
    using ab by (simp add: utf8_encode_cp_def valid_cp_def)
qed


lemma second_ok_cont: "second_ok x y \<Longrightarrow> is_cont y"
  by (simp add: second_ok_def is_cont_def split: if_splits)

lemma cons_cp_Inr_iff: "cons_cp c r = Inr cs \<longleftrightarrow> (\<exists>cs'. r = Inr cs' \<and> cs = c # cs')"
  by (cases r) auto

lemma utf8_encode_Cons: "utf8_encode (c # cs) = utf8_encode_cp c @ utf8_encode cs"
  by (simp add: utf8_encode_def)

lemma utf8_dec_encode: "list_all valid_cp cs \<Longrightarrow> utf8_dec i (utf8_encode cs) = Inr cs"
  by (induction cs arbitrary: i) (simp_all add: utf8_encode_def utf8_dec_enc_cp)

subsection \<open>One step of the decoder\<close>

lemma add_3_4_Suc: "i + 3 = Suc (Suc (Suc i))" "i + 4 = Suc (Suc (Suc (Suc i)))"
  by simp_all

lemma dec_step1:
  assumes "unat b < 0x80"
  shows "b # bs = utf8_encode_cp (unat b) @ bs \<and> valid_cp (unat b) \<and>
         utf8_dec i (b # bs) = cons_cp (unat b) (utf8_dec (i + length (utf8_encode_cp (unat b))) bs)"
  using assms enc_bytes1 [of "unat b"] by simp

lemma dec_step2:
  assumes "0xC2 \<le> unat b" "unat b \<le> 0xDF" "is_cont (unat b1)"
  shows "b # b1 # r = utf8_encode_cp ((unat b - 0xC0) * 64 + (unat b1 - 0x80)) @ r \<and>
         valid_cp ((unat b - 0xC0) * 64 + (unat b1 - 0x80)) \<and>
         utf8_dec i (b # b1 # r) =
           cons_cp ((unat b - 0xC0) * 64 + (unat b1 - 0x80))
             (utf8_dec (i + length (utf8_encode_cp ((unat b - 0xC0) * 64 + (unat b1 - 0x80)))) r)"
  using assms enc_bytes2 [of "unat b" "unat b1"] by simp

lemma dec_step3:
  assumes "0xE0 \<le> unat b" "unat b \<le> 0xEF" "second_ok (unat b) (unat b1)" "is_cont (unat b2)"
  shows "b # b1 # b2 # r =
           utf8_encode_cp ((unat b - 0xE0) * 4096 + (unat b1 - 0x80) * 64 + (unat b2 - 0x80)) @ r \<and>
         valid_cp ((unat b - 0xE0) * 4096 + (unat b1 - 0x80) * 64 + (unat b2 - 0x80)) \<and>
         utf8_dec i (b # b1 # b2 # r) =
           cons_cp ((unat b - 0xE0) * 4096 + (unat b1 - 0x80) * 64 + (unat b2 - 0x80))
             (utf8_dec (i + length (utf8_encode_cp
                ((unat b - 0xE0) * 4096 + (unat b1 - 0x80) * 64 + (unat b2 - 0x80)))) r)"
  using assms enc_bytes3 [of "unat b" "unat b1" "unat b2"] second_ok_cont [OF assms(3)]
  by (simp add: add_3_4_Suc)

lemma dec_step4:
  assumes "0xF0 \<le> unat b" "unat b \<le> 0xF4" "second_ok (unat b) (unat b1)" "is_cont (unat b2)"
    "is_cont (unat b3)"
  shows "b # b1 # b2 # b3 # r =
           utf8_encode_cp ((unat b - 0xF0) * 262144 + (unat b1 - 0x80) * 4096 + (unat b2 - 0x80) * 64
                            + (unat b3 - 0x80)) @ r \<and>
         valid_cp ((unat b - 0xF0) * 262144 + (unat b1 - 0x80) * 4096 + (unat b2 - 0x80) * 64
                    + (unat b3 - 0x80)) \<and>
         utf8_dec i (b # b1 # b2 # b3 # r) =
           cons_cp ((unat b - 0xF0) * 262144 + (unat b1 - 0x80) * 4096 + (unat b2 - 0x80) * 64
                     + (unat b3 - 0x80))
             (utf8_dec (i + length (utf8_encode_cp ((unat b - 0xF0) * 262144 + (unat b1 - 0x80) * 4096
                + (unat b2 - 0x80) * 64 + (unat b3 - 0x80)))) r)"
  using assms enc_bytes4 [of "unat b" "unat b1" "unat b2" "unat b3"] second_ok_cont [OF assms(3)]
  by (simp add: add_3_4_Suc)

lemma utf8_dec_step:
  "utf8_dec i (b # bs) = Inl i \<or>
   (\<exists>c r. valid_cp c \<and> b # bs = utf8_encode_cp c @ r \<and>
      utf8_dec i (b # bs) = cons_cp c (utf8_dec (i + length (utf8_encode_cp c)) r))"
proof -
  consider "unat b < 0x80" | "0xC2 \<le> unat b \<and> unat b \<le> 0xDF" | "0xE0 \<le> unat b \<and> unat b \<le> 0xEF"
    | "0xF0 \<le> unat b \<and> unat b \<le> 0xF4"
    | "\<not> unat b < 0x80" "\<not> (0xC2 \<le> unat b \<and> unat b \<le> 0xDF)" "\<not> (0xE0 \<le> unat b \<and> unat b \<le> 0xEF)"
      "\<not> (0xF0 \<le> unat b \<and> unat b \<le> 0xF4)"
    by blast
  then show ?thesis
  proof cases
    case 1
    then show ?thesis using dec_step1 by blast
  next
    case 2
    show ?thesis
    proof (cases "\<exists>b1 r. bs = b1 # r \<and> is_cont (unat b1)")
      case True
      then obtain b1 r where "bs = b1 # r" "is_cont (unat b1)" by blast
      then show ?thesis using 2 dec_step2 [of b b1 r i] by blast
    next
      case False
      then show ?thesis using 2 by (auto simp: Let_def split: list.splits)
    qed
  next
    case 3
    show ?thesis
    proof (cases "\<exists>b1 b2 r. bs = b1 # b2 # r \<and> second_ok (unat b) (unat b1) \<and> is_cont (unat b2)")
      case True
      then obtain b1 b2 r where "bs = b1 # b2 # r" "second_ok (unat b) (unat b1)" "is_cont (unat b2)" by blast
      then show ?thesis using 3 dec_step3 [of b b1 b2 r i] by blast
    next
      case False
      then show ?thesis using 3 by (auto simp: Let_def split: list.splits)
    qed
  next
    case 4
    show ?thesis
    proof (cases "\<exists>b1 b2 b3 r. bs = b1 # b2 # b3 # r \<and> second_ok (unat b) (unat b1) \<and>
                  is_cont (unat b2) \<and> is_cont (unat b3)")
      case True
      then obtain b1 b2 b3 r where "bs = b1 # b2 # b3 # r" "second_ok (unat b) (unat b1)"
        "is_cont (unat b2)" "is_cont (unat b3)" by blast
      then show ?thesis using 4 dec_step4 [of b b1 b2 b3 r i] by blast
    next
      case False
      then show ?thesis using 4 by (auto simp: Let_def split: list.splits)
    qed
  next
    case 5
    then have "utf8_dec i (b # bs) = Inl i" by (auto simp: Let_def split: if_splits)
    then show ?thesis ..
  qed
qed

subsection \<open>Whole inputs\<close>

lemma utf8_encode_cp_length: "1 \<le> length (utf8_encode_cp c) \<and> length (utf8_encode_cp c) \<le> 4"
  by (simp add: utf8_encode_cp_def)

lemma utf8_dec_Inr:
  "utf8_dec i bs = Inr cs \<Longrightarrow> list_all valid_cp cs \<and> utf8_encode cs = bs"
proof (induction "length bs" arbitrary: i bs cs rule: less_induct)
  case less
  show ?case
  proof (cases bs)
    case Nil
    then show ?thesis using less.prems by (simp add: utf8_encode_def)
  next
    case (Cons b bs')
    from utf8_dec_step [of i b bs'] show ?thesis
    proof
      assume "utf8_dec i (b # bs') = Inl i"
      then show ?thesis using less.prems Cons by simp
    next
      assume "\<exists>c r. valid_cp c \<and> b # bs' = utf8_encode_cp c @ r \<and>
                utf8_dec i (b # bs') = cons_cp c (utf8_dec (i + length (utf8_encode_cp c)) r)"
      then obtain c r where v: "valid_cp c" and e: "b # bs' = utf8_encode_cp c @ r"
        and d: "utf8_dec i (b # bs') = cons_cp c (utf8_dec (i + length (utf8_encode_cp c)) r)" by blast
      obtain cs' where r: "utf8_dec (i + length (utf8_encode_cp c)) r = Inr cs'" and c: "cs = c # cs'"
        using d less.prems Cons by (auto simp del: utf8_dec.simps simp: cons_cp_Inr_iff)
      have "length r < length bs" using e Cons utf8_encode_cp_length [of c]
        by (metis length_append less_add_same_cancel2 order_less_le_trans zero_less_one)
      then have "list_all valid_cp cs' \<and> utf8_encode cs' = r" using less.hyps r by blast
      then show ?thesis using v e c Cons by (simp add: utf8_encode_Cons)
    qed
  qed
qed

lemma utf8_dec_Inl:
  "utf8_dec i bs = Inl k \<Longrightarrow>
   \<exists>cs r. list_all valid_cp cs \<and> bs = utf8_encode cs @ r \<and> k = i + length (utf8_encode cs) \<and>
          r \<noteq> [] \<and> utf8_dec k r = Inl k"
proof (induction "length bs" arbitrary: i bs rule: less_induct)
  case less
  show ?case
  proof (cases bs)
    case Nil
    then show ?thesis using less.prems by simp
  next
    case (Cons b bs')
    from utf8_dec_step [of i b bs'] show ?thesis
    proof
      assume a: "utf8_dec i (b # bs') = Inl i"
      then have "k = i" using less.prems Cons by simp
      then show ?thesis using a Cons by (intro exI [of _ "[]"] exI [of _ bs]) (simp add: utf8_encode_def)
    next
      assume "\<exists>c r. valid_cp c \<and> b # bs' = utf8_encode_cp c @ r \<and>
                utf8_dec i (b # bs') = cons_cp c (utf8_dec (i + length (utf8_encode_cp c)) r)"
      then obtain c r where v: "valid_cp c" and e: "b # bs' = utf8_encode_cp c @ r"
        and d: "utf8_dec i (b # bs') = cons_cp c (utf8_dec (i + length (utf8_encode_cp c)) r)" by blast
      have r: "utf8_dec (i + length (utf8_encode_cp c)) r = Inl k"
        using d less.prems Cons by (cases "utf8_dec (i + length (utf8_encode_cp c)) r") (simp_all del: utf8_dec.simps)
      have "length r < length bs" using e Cons utf8_encode_cp_length [of c]
        by (metis length_append less_add_same_cancel2 order_less_le_trans zero_less_one)
      then obtain cs r' where "list_all valid_cp cs" "r = utf8_encode cs @ r'"
        "k = i + length (utf8_encode_cp c) + length (utf8_encode cs)" "r' \<noteq> []" "utf8_dec k r' = Inl k"
        using less.hyps r by blast
      then show ?thesis using v e Cons
        by (intro exI [of _ "c # cs"] exI [of _ r']) (simp add: utf8_encode_Cons)
    qed
  qed
qed

lemma utf8_encode_length:
  "length cs \<le> length (utf8_encode cs) \<and> length (utf8_encode cs) \<le> 4 * length cs"
proof (induction cs)
  case Nil
  then show ?case by (simp add: utf8_encode_def)
next
  case (Cons c cs)
  then show ?case using utf8_encode_cp_length [of c] by (simp add: utf8_encode_Cons)
qed

subsection \<open>Decoding as the inverse of encoding\<close>

text \<open>
  Strict decoding is the exact inverse of the encoder: a byte string decodes to a
  list of code points if and only if those code points are Unicode scalar values and the
  byte string is their UTF-8 encoding.  So the decoder accepts no overlong form, no
  surrogate and nothing above U+10FFFF, and it loses nothing.
\<close>

theorem utf8_decode_iff:
  "utf8_decode bs = Inr cs \<longleftrightarrow> list_all valid_cp cs \<and> utf8_encode cs = bs"
  unfolding utf8_decode_def using utf8_dec_Inr utf8_dec_encode by blast

text \<open>
  When decoding fails at offset \<open>k\<close> (the \<open>start\<close> of the
  \<open>UnicodeDecodeError\<close>), \<open>k\<close> lies inside the input, the bytes before it are
  well-formed UTF-8, and decoding the rest fails at once, at \<open>k\<close>: the error names the
  first ill-formed sequence.
\<close>

theorem utf8_decode_error_offset:
  assumes "utf8_decode bs = Inl k"
  shows "k < length bs \<and> \<not> isl (utf8_decode (take k bs)) \<and> utf8_dec k (drop k bs) = Inl k"
proof -
  obtain cs r where v: "list_all valid_cp cs" and b: "bs = utf8_encode cs @ r"
    and k: "k = length (utf8_encode cs)" and r: "r \<noteq> []" "utf8_dec k r = Inl k"
    using utf8_dec_Inl [of 0 bs k] assms by (auto simp: utf8_decode_def)
  have "take k bs = utf8_encode cs" "drop k bs = r" using b k by simp_all
  then show ?thesis using v r b k by (simp add: utf8_decode_def utf8_dec_encode)
qed

text \<open>
  Bounds of a successful decode: the text has at most as many code points as the input
  has bytes, and at least a quarter as many.
\<close>

theorem utf8_decode_length:
  assumes "utf8_decode bs = Inr cs"
  shows "length cs \<le> length bs \<and> length bs \<le> 4 * length cs"
proof -
  have "bs = utf8_encode cs" using utf8_dec_Inr assms by (simp add: utf8_decode_def)
  then show ?thesis using utf8_encode_length [of cs] by simp
qed

end
