(* ===== verification/Driver.thy ===== *)
theory Driver
  imports Command Utf8
begin

text \<open>
  \<open>run_alphafold3\<close> (\<open>src/alphafold3.py\<close>, lines 8--43): build the command, start one
  child through the shell, wait for it and take its whole standard output and standard
  error (\<open>communicate()\<close>), then either print standard error and standard output and
  raise \<open>CalledProcessError\<close>, or print standard output, standard error and two
  completion lines.  The child is outside the program: the environment \<open>sysenv\<close> says
  what the \<open>n\<close>-th child started with a given command hands back.  Starting it records
  the command in the world.
\<close>

record sysenv =
  cwd :: string
  child :: "nat \<Rightarrow> string \<Rightarrow> proc_result"

text \<open>\<open>Popen(cmd, shell=True, stdout=PIPE, stderr=PIPE)\<close> and \<open>p.communicate()\<close>.\<close>

definition io_spawn :: "sysenv \<Rightarrow> string \<Rightarrow> proc_result pyio" where
  "io_spawn env cmd w =
     (Inr (child env (length (spawned w)) cmd), w\<lparr>spawned := spawned w @ [cmd]\<rparr>)"

text \<open>\<open>b.decode()\<close>.\<close>

definition io_decode :: "bytes \<Rightarrow> ustr pyio" where
  "io_decode bs =
     (case utf8_decode bs of Inl i \<Rightarrow> io_raise (UnicodeDecodeError i) | Inr s \<Rightarrow> io_return s)"

text \<open>\<open>print(b.decode())\<close>: the argument is evaluated before anything is printed.\<close>

definition print_decoded :: "bytes \<Rightarrow> unit pyio" where
  "print_decoded bs = io_bind (io_decode bs) io_print"

text \<open>The exception of line 37: the captured standard error is passed as \<open>output\<close>.\<close>

definition af3_failure :: "proc_result \<Rightarrow> string \<Rightarrow> py_error" where
  "af3_failure p cmd =
     CalledProcessError
       \<lparr>cpe_returncode = returncode p, cpe_cmd = cmd, cpe_output = Some (err p), cpe_stderr = None\<rparr>"

text \<open>Lines 30--37: the \<open>with\<close> block.\<close>

definition check_child :: "proc_result \<Rightarrow> string \<Rightarrow> unit pyio" where
  "check_child p cmd =
     (if returncode p \<noteq> 0 then
        io_bind (print_decoded (err p)) (\<lambda>_.
        io_bind (print_decoded (out p)) (\<lambda>_.
        io_raise (af3_failure p cmd)))
      else io_return ())"

text \<open>Lines 39--43: after the \<open>with\<close> block.\<close>

definition report_success :: "proc_result \<Rightarrow> string \<Rightarrow> unit pyio" where
  "report_success p output_dir =
     io_bind (print_decoded (out p)) (\<lambda>_.
     io_bind (print_decoded (err p)) (\<lambda>_.
     io_bind (io_print (ustr ''Alphafold3 run complete'')) (\<lambda>_.
     io_print (ustr (''Output files are in '' @ path_str (path_of output_dir))))))"

definition run_alphafold3 :: "sysenv \<Rightarrow> string \<Rightarrow> string \<Rightarrow> string \<Rightarrow> string \<Rightarrow> unit pyio" where
  "run_alphafold3 env input_json output_dir model_params database_dir =
     (let cmd = af3_command (cwd env) input_json output_dir model_params database_dir in
      io_bind (io_spawn env cmd) (\<lambda>p.
      io_bind (check_child p cmd) (\<lambda>_.
      report_success p output_dir)))"

text \<open>The outcome of the child that a call starts, read from the world before the call.\<close>

definition next_child :: "sysenv \<Rightarrow> world \<Rightarrow> string \<Rightarrow> proc_result" where
  "next_child env w cmd = child env (length (spawned w)) cmd"

text \<open>A child that exits with 0 and writes valid UTF-8 on both streams.\<close>

definition child_ok :: "proc_result \<Rightarrow> bool" where
  "child_ok r \<longleftrightarrow> returncode r = 0 \<and> \<not> isl (utf8_decode (out r)) \<and> \<not> isl (utf8_decode (err r))"

subsection \<open>Equations of the primitives\<close>

lemma io_spawn_apply [pyio_simps]:
  "io_spawn env cmd w = (Inr (next_child env w cmd), w\<lparr>spawned := spawned w @ [cmd]\<rparr>)"
  by (simp add: io_spawn_def next_child_def)

lemma print_decoded_ok [pyio_simps]:
  "utf8_decode bs = Inr s \<Longrightarrow> print_decoded bs w = (Inr (), w\<lparr>console := console w @ [s]\<rparr>)"
  by (simp add: print_decoded_def io_decode_def)

lemma print_decoded_bad [pyio_simps]:
  "utf8_decode bs = Inl i \<Longrightarrow> print_decoded bs w = (Inl (UnicodeDecodeError i), w)"
  by (simp add: print_decoded_def io_decode_def)

lemma io_decode_frame [frame_rules]: "preserves f (io_decode bs)"
  by (simp add: io_decode_def frame_rules split: sum.splits)

lemma print_decoded_frame [frame_rules]:
  "preserves spawned (print_decoded bs)" "preserves files (print_decoded bs)"
  unfolding print_decoded_def by (intro frame_rules)+

lemma check_child_frame [frame_rules]:
  "preserves spawned (check_child p cmd)" "preserves files (check_child p cmd)"
  unfolding check_child_def by (intro frame_rules)+

lemma report_success_frame [frame_rules]:
  "preserves spawned (report_success p od)" "preserves files (report_success p od)"
  unfolding report_success_def by (intro frame_rules)+

lemma run_alphafold3_frame [frame_rules]:
  "preserves files (run_alphafold3 env input_json output_dir model_params database_dir)"
  unfolding run_alphafold3_def Let_def by (intro frame_rules) (simp add: io_spawn_def preserves_def)

lemma run_alphafold3_ok:
  assumes "child_ok (next_child env w (af3_command (cwd env) input_json output_dir model_params database_dir))"
  shows "fst (run_alphafold3 env input_json output_dir model_params database_dir w) = Inr () \<and>
         spawned (snd (run_alphafold3 env input_json output_dir model_params database_dir w)) =
           spawned w @ [af3_command (cwd env) input_json output_dir model_params database_dir]"
  using assms
  by (auto simp: child_ok_def run_alphafold3_def Let_def io_spawn_apply check_child_def
      report_success_def print_decoded_ok not_isl_Inr)

lemma run_alphafold3_fails:
  assumes "returncode (next_child env w (af3_command (cwd env) input_json output_dir model_params database_dir)) \<noteq> 0"
    and "\<not> isl (utf8_decode (out (next_child env w (af3_command (cwd env) input_json output_dir model_params database_dir))))"
    and "\<not> isl (utf8_decode (err (next_child env w (af3_command (cwd env) input_json output_dir model_params database_dir))))"
  shows "fst (run_alphafold3 env input_json output_dir model_params database_dir w) =
           Inl (af3_failure (next_child env w (af3_command (cwd env) input_json output_dir model_params database_dir))
                  (af3_command (cwd env) input_json output_dir model_params database_dir)) \<and>
         spawned (snd (run_alphafold3 env input_json output_dir model_params database_dir w)) =
           spawned w @ [af3_command (cwd env) input_json output_dir model_params database_dir]"
  using assms
  by (auto simp: run_alphafold3_def Let_def io_spawn_apply check_child_def print_decoded_ok
      not_isl_Inr af3_failure_def)

subsection \<open>Behaviour of one call\<close>

lemma spawn_then:
  assumes "\<And>p. preserves spawned (k p)"
  shows "spawned (snd (io_bind (io_spawn env cmd) k w)) = spawned w @ [cmd]"
  using preservesD [OF assms] by (simp add: io_spawn_apply)

text \<open>
  C5. A child that exits with 0 and writes valid UTF-8: the call returns normally, has
  started exactly the one command, and has printed the child's standard output, its
  standard error, \<open>Alphafold3 run complete\<close> and the output directory, once each, in
  that order.
\<close>

theorem run_alphafold3_success:
  assumes "returncode (next_child env w (af3_command (cwd env) input_json output_dir model_params database_dir)) = 0"
    and "utf8_decode (out (next_child env w (af3_command (cwd env) input_json output_dir model_params database_dir))) = Inr so"
    and "utf8_decode (err (next_child env w (af3_command (cwd env) input_json output_dir model_params database_dir))) = Inr se"
  shows "run_alphafold3 env input_json output_dir model_params database_dir w =
           (Inr (), w\<lparr>spawned := spawned w @ [af3_command (cwd env) input_json output_dir model_params database_dir],
                      console := console w @ [so, se, ustr ''Alphafold3 run complete'',
                                              ustr (''Output files are in '' @ path_str (path_of output_dir))]\<rparr>)"
  using assms
  by (simp add: run_alphafold3_def Let_def io_spawn_apply check_child_def report_success_def print_decoded_ok)

text \<open>
  C6. A child that exits non-zero (with valid UTF-8 output): the call prints standard
  error before standard output and raises \<open>CalledProcessError\<close> carrying that exact exit
  code and the command; the captured standard error travels as the exception's
  \<open>output\<close>, its \<open>stderr\<close> attribute is \<open>None\<close>.
\<close>

theorem run_alphafold3_failure:
  assumes "returncode (next_child env w (af3_command (cwd env) input_json output_dir model_params database_dir)) \<noteq> 0"
    and "utf8_decode (out (next_child env w (af3_command (cwd env) input_json output_dir model_params database_dir))) = Inr so"
    and "utf8_decode (err (next_child env w (af3_command (cwd env) input_json output_dir model_params database_dir))) = Inr se"
  shows "run_alphafold3 env input_json output_dir model_params database_dir w =
           (Inl (CalledProcessError
                   \<lparr>cpe_returncode = returncode (next_child env w (af3_command (cwd env) input_json output_dir model_params database_dir)),
                    cpe_cmd = af3_command (cwd env) input_json output_dir model_params database_dir,
                    cpe_output = Some (err (next_child env w (af3_command (cwd env) input_json output_dir model_params database_dir))),
                    cpe_stderr = None\<rparr>),
            w\<lparr>spawned := spawned w @ [af3_command (cwd env) input_json output_dir model_params database_dir],
              console := console w @ [se, so]\<rparr>)"
  using assms
  by (simp add: run_alphafold3_def Let_def io_spawn_apply check_child_def af3_failure_def print_decoded_ok)

text \<open>
  C11. Whatever the child does, a call starts exactly one child process, with the command
  built by \<open>af3_command\<close>, and no other.
\<close>

theorem run_alphafold3_spawns_once:
  "spawned (snd (run_alphafold3 env input_json output_dir model_params database_dir w)) =
   spawned w @ [af3_command (cwd env) input_json output_dir model_params database_dir]"
  unfolding run_alphafold3_def Let_def by (rule spawn_then) (intro frame_rules)+

text \<open>
  C12. A child that succeeds but writes bytes that are not UTF-8 on standard output makes
  the call raise \<open>UnicodeDecodeError\<close> before anything is printed.
\<close>

theorem run_alphafold3_undecodable_output:
  assumes "returncode (next_child env w (af3_command (cwd env) input_json output_dir model_params database_dir)) = 0"
    and "utf8_decode (out (next_child env w (af3_command (cwd env) input_json output_dir model_params database_dir))) = Inl k"
  shows "fst (run_alphafold3 env input_json output_dir model_params database_dir w) = Inl (UnicodeDecodeError k)
         \<and> console (snd (run_alphafold3 env input_json output_dir model_params database_dir w)) = console w"
  using assms
  by (simp add: run_alphafold3_def Let_def io_spawn_apply check_child_def report_success_def print_decoded_bad)

subsection \<open>Decoding of the captured streams\<close>

text \<open>
  C17. \<open>b.decode()\<close> succeeds with the text \<open>cs\<close> exactly when \<open>cs\<close> consists of
  Unicode scalar values and the bytes are its UTF-8 encoding; it has no effect on the world.
\<close>

theorem io_decode_iff:
  "io_decode bs w = (Inr cs, w') \<longleftrightarrow> w' = w \<and> list_all valid_cp cs \<and> utf8_encode cs = bs"
  using utf8_decode_iff [of bs cs]
  by (auto simp: io_decode_def split: sum.splits)

text \<open>
  When \<open>b.decode()\<close> raises, the exception is \<open>UnicodeDecodeError\<close> with a start
  offset \<open>k\<close> inside the input; the bytes before \<open>k\<close> decode and decoding fails at \<open>k\<close>
  itself: the error names the first ill-formed sequence.  The world is unchanged.
\<close>

lemma io_decode_error:
  assumes "io_decode bs w = (Inl e, w')"
  shows "\<exists>k. e = UnicodeDecodeError k \<and> w' = w \<and> k < length bs \<and>
             \<not> isl (utf8_decode (take k bs)) \<and> utf8_dec k (drop k bs) = Inl k"
proof (cases "utf8_decode bs")
  case (Inl k)
  then show ?thesis using assms utf8_decode_error_offset [OF Inl] by (auto simp: io_decode_def)
next
  case (Inr cs)
  then show ?thesis using assms by (simp add: io_decode_def)
qed

text \<open>
  What a child writes as UTF-8 text is printed unchanged: \<open>print(b.decode())\<close> on the
  encoding of a string of scalar values appends that string as one line.
\<close>

lemma print_decoded_text:
  assumes "list_all valid_cp s"
  shows "print_decoded (utf8_encode s) w = (Inr (), w\<lparr>console := console w @ [s]\<rparr>)"
  using assms utf8_decode_iff [of "utf8_encode s" s] by (simp add: print_decoded_ok)

text \<open>
  Bounds of a decoded line: at most one code point per byte and at most four bytes
  per code point.
\<close>

lemma io_decode_length:
  assumes "io_decode bs w = (Inr cs, w')"
  shows "length cs \<le> length bs \<and> length bs \<le> 4 * length cs"
  using assms utf8_decode_length [of bs cs] by (auto simp: io_decode_def split: sum.splits)

end
