(* ===== verification/Cli.thy ===== *)
theory Cli
  imports Prelude
begin

text \<open>
  The command line of \<open>src/alphafold3.py\<close>: the arguments \<open>af3_argparse_main\<close>
  registers (lines 46--73), the namespace \<open>parse_args()\<close> returns, and the checks and
  defaults the main block applies to it before any file is opened (lines 85--96).  The
  options registered by the two collaborators (\<open>mmseqs2_argparse_util\<close>,
  \<open>custom_template_argpase_util\<close>, not part of \<open>src/\<close>) are modelled from the spec:
  pass-through values, of which the script itself reads only \<open>custom_template\<close>.
\<close>

subsection \<open>The argument table\<close>

datatype nargs = NargsOne | NargsPlus
datatype action = Store | StoreTrue | Help

record arg_spec =
  as_flag :: string
  as_dest :: string
  as_nargs :: nargs
  as_action :: action
  as_required :: bool

text \<open>The six \<open>add_argument\<close> calls of \<open>af3_argparse_main\<close>, in order.  A positional
  is named without a leading \<open>-\<close>; argparse makes a positional with \<open>nargs=None\<close> or
  \<open>'+'\<close> required.\<close>

definition arg_input_json :: arg_spec where
  "arg_input_json = \<lparr>as_flag = ''input_json'', as_dest = ''input_json'', as_nargs = NargsPlus,
                      as_action = Store, as_required = True\<rparr>"

definition arg_output_dir :: arg_spec where
  "arg_output_dir = \<lparr>as_flag = ''output_dir'', as_dest = ''output_dir'', as_nargs = NargsOne,
                      as_action = Store, as_required = True\<rparr>"

definition arg_output_json :: arg_spec where
  "arg_output_json = \<lparr>as_flag = ''--output_json'', as_dest = ''output_json'', as_nargs = NargsPlus,
                       as_action = Store, as_required = False\<rparr>"

definition arg_database :: arg_spec where
  "arg_database = \<lparr>as_flag = ''--database'', as_dest = ''database_dir'', as_nargs = NargsOne,
                    as_action = Store, as_required = True\<rparr>"

definition arg_mmseqs2 :: arg_spec where
  "arg_mmseqs2 = \<lparr>as_flag = ''--mmseqs2'', as_dest = ''mmseqs2'', as_nargs = NargsOne,
                   as_action = StoreTrue, as_required = False\<rparr>"

definition arg_model_params :: arg_spec where
  "arg_model_params = \<lparr>as_flag = ''--model_params'', as_dest = ''model_params'', as_nargs = NargsOne,
                        as_action = Store, as_required = True\<rparr>"

definition af3_arguments :: "arg_spec list" where
  "af3_arguments =
     [arg_input_json, arg_output_dir, arg_output_json, arg_database, arg_mmseqs2, arg_model_params]"

text \<open>
  \<open>af3_argparse_main(parser)\<close>: the script's arguments, then those the MSA collaborator
  and the custom-template collaborator register, on the same parser.
\<close>

definition af3_argparse_main ::
  "arg_spec list \<Rightarrow> arg_spec list \<Rightarrow> arg_spec list \<Rightarrow> arg_spec list" where
  "af3_argparse_main parser mmseqs2_args custom_template_args =
     parser @ af3_arguments @ mmseqs2_args @ custom_template_args"

subsection \<open>The namespace\<close>

text \<open>The collaborators' options, passed through to \<open>add_msa_to_json\<close>.\<close>

record msa_opts =
  templates :: bool
  num_templates :: int
  custom_template :: "string option"
  custom_template_chain :: "string option"
  target_id :: "string option"

text \<open>
  \<open>args\<close> after \<open>parse_args()\<close>; an option that was not given is \<open>None\<close>, a
  \<open>store_true\<close> flag is a \<open>bool\<close>.
\<close>

record args =
  a_input_json :: "string list"
  a_output_dir :: string
  a_output_json :: "string list option"
  a_database_dir :: string
  a_mmseqs2 :: bool
  a_model_params :: string
  a_msa :: msa_opts

text \<open>Python truth values of an optional list and an optional string.\<close>

definition truthy_list :: "'a list option \<Rightarrow> bool" where
  "truthy_list x = (case x of None \<Rightarrow> False | Some xs \<Rightarrow> xs \<noteq> [])"

definition truthy_str :: "string option \<Rightarrow> bool" where
  "truthy_str x = (case x of None \<Rightarrow> False | Some s \<Rightarrow> s \<noteq> [])"

subsection \<open>Checks and defaults of the main block\<close>

definition msg_count :: string where
  "msg_count = ''If output_json is specified, the number of output json files must match the number of input json files''"

definition msg_template :: string where
  "msg_template = ''Multiple input json files found. This is not supported with custom template. Please run custom template separately for each input json file''"

text \<open>Lines 85--93: the two checks, in the order of the code.\<close>

definition validate :: "args \<Rightarrow> py_error + unit" where
  "validate a =
     (if truthy_list (a_output_json a) \<and>
         length (a_input_json a) \<noteq> length (case a_output_json a of Some xs \<Rightarrow> xs | None \<Rightarrow> [])
      then Inl (ValueError msg_count)
      else if 1 < length (a_input_json a) \<and> truthy_str (custom_template (a_msa a))
      then Inl (ValueError msg_template)
      else Inr ())"

text \<open>
  Lines 95--96: without output paths, one \<open>None\<close> per input.  The result is
  \<open>args.output_json\<close> as the loop reads it.
\<close>

definition out_slots :: "args \<Rightarrow> string option list" where
  "out_slots a =
     (if truthy_list (a_output_json a)
      then map Some (case a_output_json a of Some xs \<Rightarrow> xs | None \<Rightarrow> [])
      else replicate (length (a_input_json a)) None)"

subsection \<open>Lemmas\<close>

lemmas af3_argument_defs = arg_input_json_def arg_output_dir_def arg_output_json_def arg_database_def
  arg_mmseqs2_def arg_model_params_def

text \<open>
  C13. The validator accepts exactly the batches whose output list, when given and
  non-empty, has one entry per input, and which do not combine several inputs with a
  custom template.
\<close>

theorem validate_Inr_iff:
  "validate a = Inr () \<longleftrightarrow>
     (\<forall>xs. a_output_json a = Some xs \<longrightarrow> xs = [] \<or> length xs = length (a_input_json a)) \<and>
     (1 < length (a_input_json a) \<longrightarrow> \<not> truthy_str (custom_template (a_msa a)))"
  by (auto simp: validate_def truthy_list_def split: option.splits)

lemma length_out_slots:
  "validate a = Inr () \<Longrightarrow> length (out_slots a) = length (a_input_json a)"
  by (auto simp: validate_def out_slots_def truthy_list_def split: option.splits if_splits)

end
