(* ===== verification/Argparse.thy ===== *)
theory Argparse
  imports Cli
begin

text \<open>
  The fragment of Python's \<open>argparse\<close> that the command line of the script exercises:
  \<open>ArgumentParser.parse_args\<close> on a parser whose arguments are positionals with
  \<open>nargs=None\<close> or \<open>'+'\<close>, \<open>store\<close> options with one or \<open>'+'\<close> values and
  \<open>store_true\<close> flags, all with long (\<open>--\<close>) option strings.  Modelled after
  \<open>_parse_known_args\<close>: each argument string is classified first (\<open>_parse_optional\<close>);
  runs of positional strings are allocated to the pending positionals greedily
  (\<open>_match_arguments_partial\<close>); an option consumes its values (\<open>_match_argument\<close>);
  then the required arguments are checked and left-over strings are refused.  An error
  is a value of \<open>arg_error\<close>: \<open>parse_args\<close> then prints the usage and exits with
  status 2.  What the fragment leaves out answers \<open>None\<close>: abbreviated long options,
  single-dash arguments, \<open>--\<close>, and the help action.
\<close>

datatype aval = AStr string | AList "string list" | ABool bool | ANone

type_synonym namespace = "(string \<times> aval) list"

datatype arg_error =
    ErrRequired "string list"
  | ErrExpectedOne string
  | ErrExpectedMany string
  | ErrIgnoredExplicit string string
  | ErrUnrecognized "string list"

text \<open>A positional is declared without a leading \<open>-\<close>.\<close>

definition is_positional :: "arg_spec \<Rightarrow> bool" where
  "is_positional s \<longleftrightarrow> take 1 (as_flag s) \<noteq> ''-''"

text \<open>An argument string after classification: positional, or an option string with its
  action (\<open>None\<close> when no action has it) and the explicit argument after \<open>=\<close>.\<close>

datatype tok = TA string | TO "arg_spec option" string "string option"

definition find_flag :: "arg_spec list \<Rightarrow> string \<Rightarrow> arg_spec option" where
  "find_flag specs t = find (\<lambda>s. \<not> is_positional s \<and> as_flag s = t) specs"

definition has_prefix_flag :: "arg_spec list \<Rightarrow> string \<Rightarrow> bool" where
  "has_prefix_flag specs p \<longleftrightarrow> list_ex (\<lambda>s. \<not> is_positional s \<and> take (length p) (as_flag s) = p) specs"

text \<open>\<open>_parse_optional\<close>, in its order of tests.\<close>

definition classify :: "arg_spec list \<Rightarrow> string \<Rightarrow> tok option" where
  "classify specs t =
     (if take 1 t \<noteq> ''-'' then Some (TA t)
      else case find_flag specs t of
        Some s \<Rightarrow> Some (TO (Some s) t None)
      | None \<Rightarrow>
          if t = ''-'' then Some (TA t)
          else if take 2 t \<noteq> ''--'' \<or> t = ''--'' then None
          else
            (let pre = takeWhile (\<lambda>c. c \<noteq> CHR ''='') t in
             case (if pre \<noteq> t then find_flag specs pre else None) of
               Some s \<Rightarrow> Some (TO (Some s) t (Some (drop (Suc (length pre)) t)))
             | None \<Rightarrow>
                 if has_prefix_flag specs pre then None
                 else if CHR '' '' \<in> set t then Some (TA t)
                 else Some (TO None t None)))"

definition is_TA :: "tok \<Rightarrow> bool" where
  "is_TA t \<longleftrightarrow> (case t of TA _ \<Rightarrow> True | _ \<Rightarrow> False)"

definition tok_str :: "tok \<Rightarrow> string" where
  "tok_str t = (case t of TA a \<Rightarrow> a | TO _ a _ \<Rightarrow> a)"

text \<open>
  \<open>_match_arguments_partial\<close> on a run of \<open>n\<close> positional strings: the longest prefix of
  the pending positionals that the run can feed, each \<open>'+'\<close> greedy in the order of the
  regular expression (the first takes all that the others leave).
\<close>

fun alloc :: "nargs list \<Rightarrow> nat \<Rightarrow> nat list" where
  "alloc [] n = []"
| "alloc (NargsOne # ns) n = 1 # alloc ns (n - 1)"
| "alloc (NargsPlus # ns) n = (n - length ns) # replicate (length ns) 1"

definition match_partial :: "arg_spec list \<Rightarrow> nat \<Rightarrow> nat list" where
  "match_partial ps n = alloc (take (min (length ps) n) (map as_nargs ps)) n"

record pstate =
  p_ns :: namespace
  p_pos :: "arg_spec list"
  p_seen :: "arg_spec list"
  p_extras :: "string list"

text \<open>\<open>take_action\<close>: store the value under the action's \<open>dest\<close> and note it as seen.\<close>

definition take_action :: "arg_spec \<Rightarrow> aval \<Rightarrow> pstate \<Rightarrow> pstate" where
  "take_action s v st =
     st\<lparr>p_ns := AList.update (as_dest s) v (p_ns st), p_seen := p_seen st @ [s]\<rparr>"

definition pos_value :: "arg_spec \<Rightarrow> string list \<Rightarrow> aval" where
  "pos_value s vs = (case as_nargs s of NargsOne \<Rightarrow> AStr (hd vs) | NargsPlus \<Rightarrow> AList vs)"

fun assign_pos :: "arg_spec list \<Rightarrow> nat list \<Rightarrow> string list \<Rightarrow> pstate \<Rightarrow> pstate" where
  "assign_pos (s # ss) (k # ks) vs st = assign_pos ss ks (drop k vs) (take_action s (pos_value s (take k vs)) st)"
| "assign_pos _ _ vs st = st"

text \<open>\<open>consume_positionals\<close> on a run of positional strings: what the pending positionals
  take is assigned, the rest of the run is left over (\<open>extras\<close>).\<close>

definition consume_run :: "string list \<Rightarrow> pstate \<Rightarrow> pstate" where
  "consume_run vs st =
     (let ks = match_partial (p_pos st) (length vs);
          st' = assign_pos (p_pos st) ks vs st
      in st'\<lparr>p_pos := drop (length ks) (p_pos st), p_extras := p_extras st @ drop (sum_list ks) vs\<rparr>)"

text \<open>\<open>consume_optional\<close> for an option string with a known action.\<close>

definition consume_opt ::
  "arg_spec \<Rightarrow> string \<Rightarrow> string option \<Rightarrow> tok list \<Rightarrow> pstate \<Rightarrow> (arg_error + (nat \<times> pstate)) option" where
  "consume_opt s t e ts st =
     (case as_action s of
        Help \<Rightarrow> None
      | StoreTrue \<Rightarrow>
          (case e of Some v \<Rightarrow> Some (Inl (ErrIgnoredExplicit t v))
           | None \<Rightarrow> Some (Inr (0, take_action s (ABool True) st)))
      | Store \<Rightarrow>
          (case e of
             Some v \<Rightarrow> Some (Inr (0, take_action s (pos_value s [v]) st))
           | None \<Rightarrow>
               (let vs = map tok_str (takeWhile is_TA ts) in
                case as_nargs s of
                  NargsOne \<Rightarrow>
                    if vs = [] then Some (Inl (ErrExpectedOne t))
                    else Some (Inr (1, take_action s (AStr (hd vs)) st))
                | NargsPlus \<Rightarrow>
                    if vs = [] then Some (Inl (ErrExpectedMany t))
                    else Some (Inr (length vs, take_action s (AList vs) st)))))"

text \<open>The loop of \<open>_parse_known_args\<close> over the classified strings.\<close>

function consume :: "tok list \<Rightarrow> pstate \<Rightarrow> (arg_error + pstate) option" where
  "consume [] st = Some (Inr st)"
| "consume (TA a # ts) st =
     consume (dropWhile is_TA ts) (consume_run (map tok_str (TA a # takeWhile is_TA ts)) st)"
| "consume (TO None t e # ts) st = consume ts (st\<lparr>p_extras := p_extras st @ [t]\<rparr>)"
| "consume (TO (Some s) t e # ts) st =
     (case consume_opt s t e ts st of
        None \<Rightarrow> None
      | Some (Inl ae) \<Rightarrow> Some (Inl ae)
      | Some (Inr (k, st')) \<Rightarrow> consume (drop k ts) st')"
  by pat_completeness auto
termination
  by (relation "measure (\<lambda>(ts, st). length ts)") (auto simp: le_imp_less_Suc length_dropWhile_le)

text \<open>The namespace before parsing: every action's default (\<open>None\<close>, \<open>False\<close> for
  \<open>store_true\<close>); the help action has none.\<close>

definition default_of :: "arg_spec \<Rightarrow> aval" where
  "default_of s = (if as_action s = StoreTrue then ABool False else ANone)"

definition init_state :: "arg_spec list \<Rightarrow> pstate" where
  "init_state specs =
     \<lparr>p_ns = map (\<lambda>s. (as_dest s, default_of s)) (filter (\<lambda>s. as_action s \<noteq> Help) specs),
      p_pos = filter is_positional specs, p_seen = [], p_extras = []\<rparr>"

text \<open>\<open>_get_action_name\<close>: the \<open>dest\<close> of a positional, the option string of an option.\<close>

definition action_name :: "arg_spec \<Rightarrow> string" where
  "action_name s = (if is_positional s then as_dest s else as_flag s)"

definition missing :: "arg_spec list \<Rightarrow> pstate \<Rightarrow> string list" where
  "missing specs st = map action_name (filter (\<lambda>s. as_required s \<and> s \<notin> set (p_seen st)) specs)"

text \<open>\<open>parse_args\<close>: an error (exit status 2) or the namespace; \<open>None\<close> outside the fragment.\<close>

definition parse_args :: "arg_spec list \<Rightarrow> string list \<Rightarrow> (arg_error + namespace) option" where
  "parse_args specs argv =
     (case those (map (classify specs) argv) of
        None \<Rightarrow> None
      | Some toks \<Rightarrow>
          (case consume toks (init_state specs) of
             None \<Rightarrow> None
           | Some (Inl ae) \<Rightarrow> Some (Inl ae)
           | Some (Inr st) \<Rightarrow>
               if missing specs st \<noteq> [] then Some (Inl (ErrRequired (missing specs st)))
               else if p_extras st \<noteq> [] then Some (Inl (ErrUnrecognized (p_extras st)))
               else Some (Inr (p_ns st))))"

text \<open>\<open>argparse.ArgumentParser(...)\<close>: a parser holding only the help action.\<close>

definition argument_parser :: "arg_spec list" where
  "argument_parser =
     [\<lparr>as_flag = ''-h'', as_dest = ''help'', as_nargs = NargsOne, as_action = Help, as_required = False\<rparr>,
      \<lparr>as_flag = ''--help'', as_dest = ''help'', as_nargs = NargsOne, as_action = Help, as_required = False\<rparr>]"

subsection \<open>Reading the namespace\<close>

definition ns_str :: "namespace \<Rightarrow> string \<Rightarrow> string" where
  "ns_str ns k = (case map_of ns k of Some (AStr v) \<Rightarrow> v | _ \<Rightarrow> [])"

definition ns_list :: "namespace \<Rightarrow> string \<Rightarrow> string list" where
  "ns_list ns k = (case map_of ns k of Some (AList v) \<Rightarrow> v | _ \<Rightarrow> [])"

definition ns_opt_list :: "namespace \<Rightarrow> string \<Rightarrow> string list option" where
  "ns_opt_list ns k = (case map_of ns k of Some (AList v) \<Rightarrow> Some v | _ \<Rightarrow> None)"

definition ns_bool :: "namespace \<Rightarrow> string \<Rightarrow> bool" where
  "ns_bool ns k = (map_of ns k = Some (ABool True))"

text \<open>The attributes the main block reads from \<open>args\<close>; the collaborators' options are
  read by \<open>msa\<close>, which their own code defines.\<close>

definition args_of :: "(namespace \<Rightarrow> msa_opts) \<Rightarrow> namespace \<Rightarrow> args" where
  "args_of msa ns =
     \<lparr>a_input_json = ns_list ns ''input_json'', a_output_dir = ns_str ns ''output_dir'',
      a_output_json = ns_opt_list ns ''output_json'', a_database_dir = ns_str ns ''database_dir'',
      a_mmseqs2 = ns_bool ns ''mmseqs2'', a_model_params = ns_str ns ''model_params'',
      a_msa = msa ns\<rparr>"

subsection \<open>Well-formed parsers and well-typed namespaces\<close>

text \<open>What \<open>add_argument\<close> guarantees for the arguments of a parser: a positional is
  required and stores; no two actions (help aside) share a \<open>dest\<close>.\<close>

definition wf_specs :: "arg_spec list \<Rightarrow> bool" where
  "wf_specs specs \<longleftrightarrow>
     distinct (map as_dest (filter (\<lambda>s. as_action s \<noteq> Help) specs)) \<and>
     list_all (\<lambda>s. \<not> is_positional s \<or> (as_required s \<and> as_action s = Store)) specs"

text \<open>The value an action stores when it is seen.\<close>

definition given_ok :: "arg_spec \<Rightarrow> aval \<Rightarrow> bool" where
  "given_ok s v \<longleftrightarrow>
     (case as_action s of
        StoreTrue \<Rightarrow> v = ABool True
      | Store \<Rightarrow>
          (case (as_nargs s, v) of
             (NargsOne, AStr _) \<Rightarrow> True
           | (NargsPlus, AList vs) \<Rightarrow> vs \<noteq> []
           | _ \<Rightarrow> False)
      | Help \<Rightarrow> False)"

text \<open>A value of the declared shape: given, or the default of an optional action.\<close>

definition val_ok :: "arg_spec \<Rightarrow> aval \<Rightarrow> bool" where
  "val_ok s v \<longleftrightarrow> given_ok s v \<or> (\<not> as_required s \<and> v = default_of s)"

definition parse_inv :: "arg_spec list \<Rightarrow> pstate \<Rightarrow> bool" where
  "parse_inv specs st \<longleftrightarrow>
     list_all (\<lambda>s. as_action s = Help \<or>
        (case map_of (p_ns st) (as_dest s) of
           None \<Rightarrow> False
         | Some v \<Rightarrow> (if s \<in> set (p_seen st) then given_ok s v else v = default_of s))) specs \<and>
     list_all (\<lambda>s. s \<in> set specs \<and> is_positional s) (p_pos st) \<and>
     list_all (\<lambda>s. s \<in> set specs) (p_seen st)"

text \<open>A command line for given arguments, in the order the README shows: the inputs, the
  output directory, then the options.\<close>

definition render_argv :: "args \<Rightarrow> string list" where
  "render_argv a =
     a_input_json a @ [a_output_dir a] @
     (case a_output_json a of None \<Rightarrow> [] | Some xs \<Rightarrow> ''--output_json'' # xs) @
     [''--database'', a_database_dir a] @ (if a_mmseqs2 a then [''--mmseqs2''] else []) @
     [''--model_params'', a_model_params a]"

text \<open>A value that \<open>argparse\<close> reads as a positional string, not as an option.\<close>

definition plain_arg :: "string \<Rightarrow> bool" where
  "plain_arg t \<longleftrightarrow> take 1 t \<noteq> ''-''"

text \<open>What the round trip needs of the collaborators' arguments: optional options only,
  and a well-formed parser with distinct option strings.\<close>

definition cli_ok :: "arg_spec list \<Rightarrow> arg_spec list \<Rightarrow> bool" where
  "cli_ok mm ct \<longleftrightarrow>
     list_all (\<lambda>s. \<not> is_positional s \<and> \<not> as_required s \<and> as_action s \<noteq> Help) (mm @ ct) \<and>
     wf_specs (af3_argparse_main argument_parser mm ct) \<and>
     distinct (map as_flag (af3_argparse_main argument_parser mm ct))"

text \<open>Proof helpers: an option string classified against the parser names one of its
  actions; a token list that does not start with a positional string.\<close>

definition tok_in :: "arg_spec list \<Rightarrow> tok \<Rightarrow> bool" where
  "tok_in specs t \<longleftrightarrow> (case t of TO (Some s) _ _ \<Rightarrow> s \<in> set specs | _ \<Rightarrow> True)"

definition next_not_TA :: "tok list \<Rightarrow> bool" where
  "next_not_TA ts \<longleftrightarrow> (case ts of [] \<Rightarrow> True | t # _ \<Rightarrow> \<not> is_TA t)"

text \<open>The classified strings of \<open>render_argv\<close>: the positional run, then the options;
  and what the options do to the parser state.\<close>

definition opt_toks :: "args \<Rightarrow> tok list" where
  "opt_toks a =
     (case a_output_json a of None \<Rightarrow> [] | Some xs \<Rightarrow> TO (Some arg_output_json) ''--output_json'' None # map TA xs) @
     [TO (Some arg_database) ''--database'' None, TA (a_database_dir a)] @
     (if a_mmseqs2 a then [TO (Some arg_mmseqs2) ''--mmseqs2'' None] else []) @
     [TO (Some arg_model_params) ''--model_params'' None, TA (a_model_params a)]"

definition render_toks :: "args \<Rightarrow> tok list" where
  "render_toks a = map TA (a_input_json a @ [a_output_dir a]) @ opt_toks a"

definition opt_steps :: "args \<Rightarrow> pstate \<Rightarrow> pstate" where
  "opt_steps a st =
     (let st2 = (case a_output_json a of None \<Rightarrow> st | Some xs \<Rightarrow> take_action arg_output_json (AList xs) st);
          st3 = take_action arg_database (AStr (a_database_dir a)) st2;
          st4 = (if a_mmseqs2 a then take_action arg_mmseqs2 (ABool True) st3 else st3)
      in take_action arg_model_params (AStr (a_model_params a)) st4)"

definition run_step :: "args \<Rightarrow> pstate \<Rightarrow> pstate" where
  "run_step a st =
     (take_action arg_output_dir (AStr (a_output_dir a)) (take_action arg_input_json (AList (a_input_json a)) st))
       \<lparr>p_pos := [], p_extras := p_extras st\<rparr>"

definition no_help :: "tok \<Rightarrow> bool" where
  "no_help t \<longleftrightarrow> (case t of TO (Some s) _ _ \<Rightarrow> as_action s \<noteq> Help | _ \<Rightarrow> True)"

subsection \<open>Lemmas\<close>

lemma alloc_props:
  "length ns \<le> n \<Longrightarrow>
   length (alloc ns n) = length ns \<and> list_all (\<lambda>k. 1 \<le> k) (alloc ns n) \<and> sum_list (alloc ns n) \<le> n"
proof (induction ns n rule: alloc.induct)
  case (2 ns n)
  then have "length ns \<le> n - 1" by simp
  then show ?case using "2.IH" "2.prems" by auto
next
  case (3 ns n)
  then show ?case by (simp add: list_all_iff sum_list_replicate)
qed simp

lemma match_partial_props:
  "length (match_partial ps n) \<le> length ps \<and> list_all (\<lambda>k. 1 \<le> k) (match_partial ps n) \<and>
   sum_list (match_partial ps n) \<le> n"
  using alloc_props [of "take (min (length ps) n) (map as_nargs ps)" n] by (simp add: match_partial_def)

lemma wf_same_dest:
  assumes "wf_specs specs" "s \<in> set specs" "s' \<in> set specs" "as_action s \<noteq> Help" "as_action s' \<noteq> Help"
    "as_dest s' = as_dest s"
  shows "s' = s"
proof -
  have "inj_on as_dest (set (filter (\<lambda>s. as_action s \<noteq> Help) specs))"
    using assms(1) by (simp add: wf_specs_def distinct_map)
  then show ?thesis using assms(2-6) by (auto dest: inj_onD)
qed

lemma take_action_inv:
  assumes "parse_inv specs st" "wf_specs specs" "s \<in> set specs" "given_ok s v"
  shows "parse_inv specs (take_action s v st)"
proof -
  have h: "as_action s \<noteq> Help" using assms(4) by (auto simp: given_ok_def)
  have ns: "map_of (p_ns (take_action s v st)) = (map_of (p_ns st))(as_dest s \<mapsto> v)"
    and seen: "set (p_seen (take_action s v st)) = insert s (set (p_seen st))"
    and pos: "p_pos (take_action s v st) = p_pos st"
    by (simp_all add: take_action_def update_conv')
  have "as_action s' = Help \<or>
        (case map_of (p_ns (take_action s v st)) (as_dest s') of None \<Rightarrow> False
         | Some w \<Rightarrow> if s' \<in> set (p_seen (take_action s v st)) then given_ok s' w else w = default_of s')"
    if s': "s' \<in> set specs" for s'
  proof (cases "as_action s' \<noteq> Help \<and> as_dest s' = as_dest s")
    case True
    then have "s' = s" using wf_same_dest [OF assms(2,3) s' h] by blast
    then show ?thesis using ns seen assms(4) by simp
  next
    case False
    show ?thesis
    proof (cases "as_action s' = Help")
      case False
      then have d: "as_dest s' \<noteq> as_dest s" and n: "s' \<noteq> s" using \<open>\<not> (as_action s' \<noteq> Help \<and> _)\<close> by auto
      have "case map_of (p_ns st) (as_dest s') of None \<Rightarrow> False
              | Some w \<Rightarrow> if s' \<in> set (p_seen st) then given_ok s' w else w = default_of s'"
        using assms(1) s' False unfolding parse_inv_def list_all_iff by blast
      moreover have "(s' \<in> set (p_seen (take_action s v st))) = (s' \<in> set (p_seen st))"
        using n by (simp add: take_action_def)
      ultimately show ?thesis using ns d
        by (cases "map_of (p_ns st) (as_dest s')") (simp_all split: if_splits)
    qed simp
  qed
  then show ?thesis using assms(1,3) pos seen by (auto simp: parse_inv_def list_all_iff)
qed

lemma wf_positional: "wf_specs specs \<Longrightarrow> s \<in> set specs \<Longrightarrow> is_positional s \<Longrightarrow> as_required s \<and> as_action s = Store"
  by (auto simp: wf_specs_def list_all_iff)

lemma assign_pos_inv:
  "parse_inv specs st \<Longrightarrow> wf_specs specs \<Longrightarrow> list_all (\<lambda>s. s \<in> set specs \<and> is_positional s) ss \<Longrightarrow>
   list_all (\<lambda>k. 1 \<le> k) ks \<Longrightarrow> sum_list ks \<le> length vs \<Longrightarrow> parse_inv specs (assign_pos ss ks vs st)"
proof (induction ss ks vs st rule: assign_pos.induct)
  case (1 s ss k ks vs st)
  have "as_action s = Store" using wf_positional "1.prems"(2,3) by auto
  moreover have "take k vs \<noteq> []" using "1.prems"(4,5) by auto
  ultimately have "given_ok s (pos_value s (take k vs))"
    by (cases "as_nargs s") (auto simp: given_ok_def pos_value_def)
  then have "parse_inv specs (take_action s (pos_value s (take k vs)) st)"
    using take_action_inv "1.prems"(1-3) by simp
  then show ?case using "1.IH" "1.prems"(2-5) by simp
qed simp_all

lemma parse_inv_pos:
  "parse_inv specs st \<Longrightarrow> list_all (\<lambda>s. s \<in> set specs \<and> is_positional s) ps \<Longrightarrow>
   parse_inv specs (st\<lparr>p_pos := ps, p_extras := xs\<rparr>)"
  by (simp add: parse_inv_def cong: option.case_cong)

lemma consume_run_inv:
  assumes "parse_inv specs st" "wf_specs specs"
  shows "parse_inv specs (consume_run vs st)"
proof -
  let ?ks = "match_partial (p_pos st) (length vs)"
  have p: "list_all (\<lambda>s. s \<in> set specs \<and> is_positional s) (p_pos st)" using assms(1) by (simp add: parse_inv_def)
  have "parse_inv specs (assign_pos (p_pos st) ?ks vs st)"
    using assign_pos_inv [OF assms(1,2) p] match_partial_props [of "p_pos st" "length vs"] by simp
  moreover have "list_all (\<lambda>s. s \<in> set specs \<and> is_positional s) (drop (length ?ks) (p_pos st))"
    using p by (auto simp: list_all_iff dest: in_set_dropD)
  ultimately show ?thesis by (simp add: consume_run_def Let_def parse_inv_pos)
qed

lemma consume_opt_inv:
  assumes "consume_opt s t e ts st = Some (Inr (k, st'))" "parse_inv specs st" "wf_specs specs" "s \<in> set specs"
  shows "parse_inv specs st'"
proof -
  have "\<exists>v. given_ok s v \<and> st' = take_action s v st"
    using assms(1)
    unfolding consume_opt_def Let_def
    by (force simp: given_ok_def pos_value_def split: action.splits option.splits nargs.splits if_splits)
  then show ?thesis using take_action_inv assms(2-4) by blast
qed

lemma consume_inv:
  "consume ts st = Some (Inr st') \<Longrightarrow> parse_inv specs st \<Longrightarrow> wf_specs specs \<Longrightarrow> list_all (tok_in specs) ts \<Longrightarrow>
   parse_inv specs st'"
proof (induction ts st rule: consume.induct)
  case (1 st)
  then show ?case by simp
next
  case (2 a ts st)
  have i: "parse_inv specs (consume_run (map tok_str (TA a # takeWhile is_TA ts)) st)"
    using consume_run_inv "2.prems"(2,3) by blast
  have "list_all (tok_in specs) (dropWhile is_TA ts)"
    using "2.prems"(4) by (auto simp: list_all_iff dest: set_dropWhileD)
  then show ?case using "2.IH" [OF _ i "2.prems"(3)] "2.prems"(1) by simp
next
  case (3 t e ts st)
  then show ?case by (simp add: parse_inv_def cong: option.case_cong)
next
  case (4 s t e ts st)
  then obtain k st1 where o: "consume_opt s t e ts st = Some (Inr (k, st1))" and r: "consume (drop k ts) st1 = Some (Inr st')"
    by (auto split: option.splits sum.splits)
  have "parse_inv specs st1" using consume_opt_inv [OF o "4.prems"(2,3)] "4.prems"(4) by (simp add: tok_in_def)
  moreover have "list_all (tok_in specs) (drop k ts)"
    using "4.prems"(4) by (auto simp: list_all_iff dest: in_set_dropD)
  ultimately show ?case using "4.IH" [OF o] r "4.prems"(3) by blast
qed

lemma find_flag_in: "find_flag specs t = Some s \<Longrightarrow> s \<in> set specs"
  by (auto simp: find_flag_def find_Some_iff)

lemma classify_tok_in: "classify specs t = Some tk \<Longrightarrow> tok_in specs tk"
  by (auto simp: classify_def tok_in_def Let_def find_flag_in split: option.splits if_splits)

lemma those_classify:
  "those (map (classify specs) argv) = Some toks \<Longrightarrow> list_all (tok_in specs) toks"
  by (induction argv arbitrary: toks) (auto simp: classify_tok_in split: option.splits)

lemma init_state_inv:
  assumes "wf_specs specs"
  shows "parse_inv specs (init_state specs)"
proof -
  let ?al = "map (\<lambda>s. (as_dest s, default_of s)) (filter (\<lambda>s. as_action s \<noteq> Help) specs)"
  have d: "distinct (map fst ?al)" using assms by (simp add: wf_specs_def comp_def)
  have "as_action s = Help \<or> map_of ?al (as_dest s) = Some (default_of s)" if "s \<in> set specs" for s
    using that by (cases "as_action s = Help") (auto intro: map_of_is_SomeI [OF d])
  then show ?thesis by (simp add: parse_inv_def init_state_def list_all_iff cong: option.case_cong) fastforce
qed

lemma parse_args_inv:
  assumes "wf_specs specs" "parse_args specs argv = Some (Inr ns)"
  shows "\<exists>st. parse_inv specs st \<and> p_ns st = ns \<and> missing specs st = []"
proof -
  obtain toks st where t: "those (map (classify specs) argv) = Some toks"
    and c: "consume toks (init_state specs) = Some (Inr st)" and m: "missing specs st = []" and n: "p_ns st = ns"
    using assms(2) by (auto simp: parse_args_def split: option.splits sum.splits if_splits)
  have "parse_inv specs st"
    using consume_inv [OF c init_state_inv [OF assms(1)] assms(1) those_classify [OF t]] .
  then show ?thesis using m n by blast
qed

lemma parse_args_types:
  assumes "wf_specs specs" "parse_args specs argv = Some (Inr ns)"
  shows "list_all (\<lambda>s. as_action s = Help \<or> (case map_of ns (as_dest s) of None \<Rightarrow> False | Some v \<Rightarrow> val_ok s v)) specs"
proof -
  obtain st where i: "parse_inv specs st" and n: "p_ns st = ns" and m: "missing specs st = []"
    using parse_args_inv [OF assms] by blast
  have "as_required s \<Longrightarrow> s \<in> set specs \<Longrightarrow> s \<in> set (p_seen st)" for s
    using m by (auto simp: missing_def filter_empty_conv)
  then show ?thesis using i n
    by (auto simp: parse_inv_def list_all_iff val_ok_def split: option.splits if_splits)
qed

lemma val_ok_plus_req:
  "val_ok s v \<Longrightarrow> as_action s = Store \<Longrightarrow> as_nargs s = NargsPlus \<Longrightarrow> as_required s \<Longrightarrow>
   \<exists>xs. v = AList xs \<and> xs \<noteq> []"
  by (cases v) (auto simp: val_ok_def given_ok_def default_of_def)

lemma val_ok_one_req:
  "val_ok s v \<Longrightarrow> as_action s = Store \<Longrightarrow> as_nargs s = NargsOne \<Longrightarrow> as_required s \<Longrightarrow> \<exists>x. v = AStr x"
  by (cases v) (auto simp: val_ok_def given_ok_def default_of_def)

lemma val_ok_plus_opt:
  "val_ok s v \<Longrightarrow> as_action s = Store \<Longrightarrow> as_nargs s = NargsPlus \<Longrightarrow>
   v = ANone \<or> (\<exists>xs. v = AList xs \<and> xs \<noteq> [])"
  by (cases v) (auto simp: val_ok_def given_ok_def default_of_def)

lemma val_ok_flag: "val_ok s v \<Longrightarrow> as_action s = StoreTrue \<Longrightarrow> \<exists>b. v = ABool b"
  by (cases v) (auto simp: val_ok_def given_ok_def default_of_def)

lemma af3_arg_value:
  assumes "wf_specs (af3_argparse_main argument_parser mm ct)"
    and "parse_args (af3_argparse_main argument_parser mm ct) argv = Some (Inr ns)"
    and "s \<in> set af3_arguments"
  shows "\<exists>v. map_of ns (as_dest s) = Some v \<and> val_ok s v"
proof -
  have "s \<in> set (af3_argparse_main argument_parser mm ct)" using assms(3) by (simp add: af3_argparse_main_def)
  moreover have "as_action s \<noteq> Help" using assms(3) by (auto simp: af3_arguments_def af3_argument_defs)
  ultimately show ?thesis using parse_args_types [OF assms(1,2)] by (auto simp: list_all_iff split: option.splits)
qed

lemma takeWhile_TA: "next_not_TA ts \<Longrightarrow> takeWhile is_TA (map TA xs @ ts) = map TA xs"
  by (induction xs) (auto simp: next_not_TA_def is_TA_def split: list.splits)

lemma dropWhile_TA: "next_not_TA ts \<Longrightarrow> dropWhile is_TA (map TA xs @ ts) = ts"
  by (induction xs) (auto simp: next_not_TA_def is_TA_def split: list.splits)

lemma consume_run_step:
  "xs \<noteq> [] \<Longrightarrow> next_not_TA ts \<Longrightarrow> consume (map TA xs @ ts) st = consume ts (consume_run xs st)"
  by (cases xs) (simp_all add: takeWhile_TA dropWhile_TA tok_str_def comp_def)

lemma consume_one_step:
  "as_action s = Store \<Longrightarrow> as_nargs s = NargsOne \<Longrightarrow>
   consume (TO (Some s) t None # TA v # ts) st = consume ts (take_action s (AStr v) st)"
  by (simp add: consume_opt_def is_TA_def tok_str_def)

lemma consume_plus_step:
  "as_action s = Store \<Longrightarrow> as_nargs s = NargsPlus \<Longrightarrow> xs \<noteq> [] \<Longrightarrow> next_not_TA ts \<Longrightarrow>
   consume (TO (Some s) t None # map TA xs @ ts) st = consume ts (take_action s (AList xs) st)"
  by (simp add: consume_opt_def takeWhile_TA comp_def tok_str_def)

lemma consume_flag_step:
  "as_action s = StoreTrue \<Longrightarrow> consume (TO (Some s) t None # ts) st = consume ts (take_action s (ABool True) st)"
  by (simp add: consume_opt_def)

lemma classify_plain: "plain_arg t \<Longrightarrow> classify specs t = Some (TA t)"
  by (simp add: classify_def plain_arg_def)

lemma find_flag_unique:
  assumes "distinct (map as_flag specs)" "s \<in> set specs" "\<not> is_positional s"
  shows "find_flag specs (as_flag s) = Some s"
proof -
  have "\<forall>x \<in> set specs. as_flag x = as_flag s \<longrightarrow> x = s"
    using assms(1,2) by (metis distinct_map inj_onD)
  then show ?thesis using assms(2,3)
    by (induction specs) (auto simp: find_flag_def)
qed

lemma classify_flag:
  assumes "distinct (map as_flag specs)" "s \<in> set specs" "\<not> is_positional s"
  shows "classify specs (as_flag s) = Some (TO (Some s) (as_flag s) None)"
  using assms find_flag_unique [OF assms] by (simp add: classify_def is_positional_def)

lemma those_map_Some: "those (map Some xs) = Some xs"
  by (induction xs) auto

lemma those_map_plain: "list_all plain_arg xs \<Longrightarrow> map (classify specs) xs = map Some (map TA xs)"
  by (induction xs) (simp_all add: classify_plain)

lemma consume_run_af3:
  assumes "p_pos st = [arg_input_json, arg_output_dir]" "xs \<noteq> []"
  shows "consume_run (xs @ [od]) st =
           (take_action arg_output_dir (AStr od) (take_action arg_input_json (AList xs) st))
             \<lparr>p_pos := [], p_extras := p_extras st\<rparr>"
proof -
  have "min (Suc 0) (length xs) = Suc 0" using assms(2) by (cases xs) auto
  then have "match_partial (p_pos st) (length (xs @ [od])) = [length xs, 1]"
    using assms by (simp add: match_partial_def arg_input_json_def arg_output_dir_def)
  then show ?thesis using assms
    by (simp add: consume_run_def pos_value_def arg_input_json_def arg_output_dir_def take_action_def)
qed

lemma af3_parser_filters:
  assumes "cli_ok mm ct"
  shows "filter is_positional (af3_argparse_main argument_parser mm ct) = [arg_input_json, arg_output_dir]"
    and "filter as_required (af3_argparse_main argument_parser mm ct) =
           [arg_input_json, arg_output_dir, arg_database, arg_model_params]"
proof -
  have "filter is_positional (mm @ ct) = []" "filter as_required (mm @ ct) = []"
    using assms by (auto simp: cli_ok_def list_all_iff filter_empty_conv)
  then show "filter is_positional (af3_argparse_main argument_parser mm ct) = [arg_input_json, arg_output_dir]"
    and "filter as_required (af3_argparse_main argument_parser mm ct) =
           [arg_input_json, arg_output_dir, arg_database, arg_model_params]"
    by (simp_all add: af3_argparse_main_def argument_parser_def af3_arguments_def af3_argument_defs
        is_positional_def)
qed

lemma af3_flags:
  "as_flag arg_output_json = ''--output_json''" "as_flag arg_database = ''--database''"
  "as_flag arg_mmseqs2 = ''--mmseqs2''" "as_flag arg_model_params = ''--model_params''"
  by (simp_all add: af3_argument_defs)

lemma af3_flags_positional:
  "\<not> is_positional arg_output_json" "\<not> is_positional arg_database"
  "\<not> is_positional arg_mmseqs2" "\<not> is_positional arg_model_params"
  by (simp_all add: af3_argument_defs is_positional_def)

lemma af3_flag_classify:
  assumes "cli_ok mm ct" "s \<in> set af3_arguments" "\<not> is_positional s"
  shows "classify (af3_argparse_main argument_parser mm ct) (as_flag s) = Some (TO (Some s) (as_flag s) None)"
  using assms by (intro classify_flag) (auto simp: cli_ok_def af3_argparse_main_def)

lemma render_classify:
  assumes "cli_ok mm ct"
    and "list_all plain_arg (a_input_json a @ [a_output_dir a, a_database_dir a, a_model_params a] @
           (case a_output_json a of None \<Rightarrow> [] | Some xs \<Rightarrow> xs))"
  shows "those (map (classify (af3_argparse_main argument_parser mm ct)) (render_argv a)) = Some (render_toks a)"
proof -
  let ?P = "af3_argparse_main argument_parser mm ct"
  have f: "classify ?P ''--output_json'' = Some (TO (Some arg_output_json) ''--output_json'' None)"
    "classify ?P ''--database'' = Some (TO (Some arg_database) ''--database'' None)"
    "classify ?P ''--mmseqs2'' = Some (TO (Some arg_mmseqs2) ''--mmseqs2'' None)"
    "classify ?P ''--model_params'' = Some (TO (Some arg_model_params) ''--model_params'' None)"
    using af3_flag_classify [OF assms(1), of arg_output_json] af3_flag_classify [OF assms(1), of arg_database]
      af3_flag_classify [OF assms(1), of arg_mmseqs2] af3_flag_classify [OF assms(1), of arg_model_params]
    unfolding af3_flags by (simp_all add: af3_arguments_def af3_flags_positional)
  have p: "list_all plain_arg (a_input_json a)" "plain_arg (a_output_dir a)" "plain_arg (a_database_dir a)"
    "plain_arg (a_model_params a)" "list_all plain_arg (case a_output_json a of None \<Rightarrow> [] | Some xs \<Rightarrow> xs)"
    using assms(2) by simp_all
  have "map (classify ?P) (render_argv a) = map Some (render_toks a)"
    using p f by (cases "a_output_json a")
      (simp_all add: render_argv_def render_toks_def opt_toks_def those_map_plain classify_plain)
  then show ?thesis by (simp only: those_map_Some)
qed

lemma take_action_sel [simp]:
  "p_pos (take_action s v st) = p_pos st" "p_extras (take_action s v st) = p_extras st"
  "p_seen (take_action s v st) = p_seen st @ [s]"
  "map_of (p_ns (take_action s v st)) = (map_of (p_ns st))(as_dest s \<mapsto> v)"
  by (simp_all add: take_action_def update_conv')

lemma init_map_of:
  "wf_specs specs \<Longrightarrow> s \<in> set specs \<Longrightarrow> as_action s \<noteq> Help \<Longrightarrow>
   map_of (p_ns (init_state specs)) (as_dest s) = Some (default_of s)"
  by (intro map_of_is_SomeI) (auto simp: init_state_def wf_specs_def comp_def)

lemma next_not_TA_TO [simp]: "next_not_TA (TO s t e # ts)"
  by (simp add: next_not_TA_def is_TA_def)

lemma consume_opt_toks:
  assumes "a_output_json a \<noteq> Some []"
  shows "consume (opt_toks a) st = Some (Inr (opt_steps a st))"
proof -
  let ?rest = "[TO (Some arg_database) ''--database'' None, TA (a_database_dir a)] @
          (if a_mmseqs2 a then [TO (Some arg_mmseqs2) ''--mmseqs2'' None] else []) @
          [TO (Some arg_model_params) ''--model_params'' None, TA (a_model_params a)]"
  let ?st2 = "case a_output_json a of None \<Rightarrow> st | Some xs \<Rightarrow> take_action arg_output_json (AList xs) st"
  have o: "consume (opt_toks a) st = consume ?rest ?st2"
  proof (cases "a_output_json a")
    case None
    then show ?thesis by (simp add: opt_toks_def)
  next
    case (Some xs)
    then have "xs \<noteq> []" using assms by simp
    then have "consume (TO (Some arg_output_json) ''--output_json'' None # map TA xs @ ?rest) st =
               consume ?rest (take_action arg_output_json (AList xs) st)"
      by (intro consume_plus_step) (simp_all add: af3_argument_defs)
    then show ?thesis using Some by (simp del: consume.simps add: opt_toks_def)
  qed
  also have "\<dots> = Some (Inr (opt_steps a st))"
    by (simp del: consume.simps add: consume.simps(1) opt_steps_def Let_def consume_one_step consume_flag_step
        af3_argument_defs)
  finally show ?thesis .
qed

lemma next_not_TA_opt_toks: "next_not_TA (opt_toks a)"
  by (cases "a_output_json a") (simp_all add: opt_toks_def next_not_TA_def is_TA_def)

lemma consume_render:
  assumes "cli_ok mm ct" "a_input_json a \<noteq> []" "a_output_json a \<noteq> Some []"
  shows "consume (render_toks a) (init_state (af3_argparse_main argument_parser mm ct)) =
         Some (Inr (opt_steps a (run_step a (init_state (af3_argparse_main argument_parser mm ct)))))"
proof -
  let ?st0 = "init_state (af3_argparse_main argument_parser mm ct)"
  have p0: "p_pos ?st0 = [arg_input_json, arg_output_dir]"
    using af3_parser_filters(1) [OF assms(1)] by (simp add: init_state_def)
  have "consume (render_toks a) ?st0 = consume (opt_toks a) (consume_run (a_input_json a @ [a_output_dir a]) ?st0)"
    unfolding render_toks_def by (rule consume_run_step) (simp_all add: next_not_TA_opt_toks)
  also have "consume_run (a_input_json a @ [a_output_dir a]) ?st0 = run_step a ?st0"
    using consume_run_af3 [OF p0 assms(2)] by (simp add: run_step_def)
  finally show ?thesis using consume_opt_toks [OF assms(3)] by simp
qed

lemma render_state_missing:
  assumes "cli_ok mm ct"
  shows "missing (af3_argparse_main argument_parser mm ct)
           (opt_steps a (run_step a (init_state (af3_argparse_main argument_parser mm ct)))) = [] \<and>
         p_extras (opt_steps a (run_step a (init_state (af3_argparse_main argument_parser mm ct)))) = []"
proof -
  let ?P = "af3_argparse_main argument_parser mm ct"
  let ?st = "opt_steps a (run_step a (init_state ?P))"
  have seen: "set [arg_input_json, arg_output_dir, arg_database, arg_model_params] \<subseteq> set (p_seen ?st)"
    by (auto simp: opt_steps_def run_step_def Let_def split: option.splits)
  have "filter (\<lambda>s. as_required s \<and> s \<notin> set (p_seen ?st)) ?P =
        filter (\<lambda>s. s \<notin> set (p_seen ?st)) (filter as_required ?P)"
    by (simp add: filter_filter conj_commute)
  then have "missing ?P ?st = []" using seen af3_parser_filters(2) [OF assms] by (simp add: missing_def)
  moreover have "p_extras ?st = []"
    by (simp add: opt_steps_def run_step_def init_state_def Let_def split: option.splits)
  ultimately show ?thesis ..
qed

lemma render_state_args:
  assumes "cli_ok mm ct"
  shows "args_of msa (p_ns (opt_steps a (run_step a (init_state (af3_argparse_main argument_parser mm ct))))) =
         a\<lparr>a_msa := msa (p_ns (opt_steps a (run_step a (init_state (af3_argparse_main argument_parser mm ct)))))\<rparr>"
proof -
  let ?P = "af3_argparse_main argument_parser mm ct"
  have wf: "wf_specs ?P" using assms by (simp add: cli_ok_def)
  have mem: "arg_output_json \<in> set ?P" "arg_mmseqs2 \<in> set ?P"
    by (simp_all add: af3_argparse_main_def af3_arguments_def)
  have "map_of (p_ns (init_state ?P)) ''output_json'' = Some ANone"
    "map_of (p_ns (init_state ?P)) ''mmseqs2'' = Some (ABool False)"
    using init_map_of [OF wf mem(1)] init_map_of [OF wf mem(2)]
    by (simp_all add: af3_argument_defs default_of_def)
  then show ?thesis
    by (cases a; cases "a_output_json a")
      (auto simp: args_of_def opt_steps_def run_step_def Let_def af3_argument_defs
        ns_list_def ns_str_def ns_opt_list_def ns_bool_def)
qed

lemma render_parse_state:
  assumes ok: "cli_ok mm ct"
    and pl: "list_all plain_arg (a_input_json a @ [a_output_dir a, a_database_dir a, a_model_params a] @
               (case a_output_json a of None \<Rightarrow> [] | Some xs \<Rightarrow> xs))"
    and ne: "a_input_json a \<noteq> []" and oj: "a_output_json a \<noteq> Some []"
  shows "parse_args (af3_argparse_main argument_parser mm ct) (render_argv a) =
           Some (Inr (p_ns (opt_steps a (run_step a (init_state (af3_argparse_main argument_parser mm ct)))))) \<and>
         args_of msa (p_ns (opt_steps a (run_step a (init_state (af3_argparse_main argument_parser mm ct))))) =
           a\<lparr>a_msa := msa (p_ns (opt_steps a (run_step a (init_state (af3_argparse_main argument_parser mm ct)))))\<rparr>"
  using render_classify [OF ok pl] consume_render [OF ok ne oj] render_state_missing [OF ok]
    render_state_args [OF ok] by (simp add: parse_args_def)

lemma assign_pos_seen:
  "set (p_seen (assign_pos ss ks vs st)) \<subseteq> set (p_seen st) \<union> set ss \<and> p_pos (assign_pos ss ks vs st) = p_pos st"
  by (induction ss ks vs st rule: assign_pos.induct) auto

lemma consume_run_seen:
  "set (p_seen (consume_run vs st)) \<subseteq> set (p_seen st) \<union> set (p_pos st) \<and> set (p_pos (consume_run vs st)) \<subseteq> set (p_pos st)"
  using assign_pos_seen [of "p_pos st" "match_partial (p_pos st) (length vs)" vs st]
  by (auto simp: consume_run_def Let_def dest: in_set_dropD)

lemma consume_opt_seen:
  "consume_opt s t e ts st = Some (Inr (k, st')) \<Longrightarrow> p_seen st' = p_seen st @ [s] \<and> p_pos st' = p_pos st"
  unfolding consume_opt_def Let_def
  by (auto split: action.splits option.splits nargs.splits if_splits)

lemma consume_seen:
  "consume ts st = Some (Inr st') \<Longrightarrow>
   set (p_seen st') \<subseteq> set (p_seen st) \<union> set (p_pos st) \<union> {s. \<exists>t e. TO (Some s) t e \<in> set ts}"
proof (induction ts st rule: consume.induct)
  case (2 a ts st)
  let ?cr = "consume_run (map tok_str (TA a # takeWhile is_TA ts)) st"
  have "set (p_seen st') \<subseteq> set (p_seen ?cr) \<union> set (p_pos ?cr) \<union>
          {s. \<exists>t e. TO (Some s) t e \<in> set (dropWhile is_TA ts)}"
    using "2.IH" "2.prems" by simp
  moreover have "{s. \<exists>t e. TO (Some s) t e \<in> set (dropWhile is_TA ts)} \<subseteq>
                 {s. \<exists>t e. TO (Some s) t e \<in> set (TA a # ts)}"
    by (auto dest: set_dropWhileD)
  ultimately show ?case using consume_run_seen [of "map tok_str (TA a # takeWhile is_TA ts)" st] by blast
next
  case (3 t e ts st)
  then show ?case by auto
next
  case (4 s t e ts st)
  then obtain k st1 where o: "consume_opt s t e ts st = Some (Inr (k, st1))"
    and r: "consume (drop k ts) st1 = Some (Inr st')"
    by (auto split: option.splits sum.splits)
  have "set (p_seen st1) = insert s (set (p_seen st))" "p_pos st1 = p_pos st"
    using consume_opt_seen [OF o] by simp_all
  then have i: "set (p_seen st') \<subseteq> insert s (set (p_seen st)) \<union> set (p_pos st) \<union>
                  {s. \<exists>t e. TO (Some s) t e \<in> set (drop k ts)}"
    using "4.IH" [OF o refl refl r] by simp
  have "{s. \<exists>t e. TO (Some s) t e \<in> set (drop k ts)} \<subseteq> {s'. \<exists>t' e'. TO (Some s') t' e' \<in> set (TO (Some s) t e # ts)}"
    by (auto dest: in_set_dropD)
  moreover have "s \<in> {s'. \<exists>t' e'. TO (Some s') t' e' \<in> set (TO (Some s) t e # ts)}" by auto
  ultimately show ?case using i by blast
qed simp

lemma consume_defined: "list_all no_help ts \<Longrightarrow> consume ts st \<noteq> None"
proof (induction ts st rule: consume.induct)
  case (2 a ts st)
  then show ?case by (auto simp: list_all_iff dest: set_dropWhileD)
next
  case (4 s t e ts st)
  then have "as_action s \<noteq> Help" by (simp add: no_help_def)
  then have "consume_opt s t e ts st \<noteq> None"
    unfolding consume_opt_def Let_def by (auto split: action.splits option.splits nargs.splits)
  then obtain r where o: "consume_opt s t e ts st = Some r" by blast
  show ?case
  proof (cases r)
    case (Inl ae)
    then show ?thesis using o by simp
  next
    case (Inr p)
    obtain k st1 where p: "p = (k, st1)" by (cases p)
    have "list_all no_help (drop k ts)"
      using "4.prems" by (auto simp: list_all_iff dest: in_set_dropD)
    then have "consume (drop k ts) st1 \<noteq> None" using "4.IH" [OF o Inr p [symmetric]] by blast
    then show ?thesis using o Inr p by simp
  qed
qed (auto simp: no_help_def)

lemma af3_options_not_help:
  "s \<in> set [arg_output_json, arg_database, arg_mmseqs2, arg_model_params] \<Longrightarrow> as_action s \<noteq> Help"
  by (auto simp: af3_argument_defs)

lemma af3_required_not_positional:
  "s \<in> set [arg_database, arg_model_params] \<Longrightarrow> s \<notin> set [arg_input_json, arg_output_dir]"
  by (auto simp: af3_argument_defs)

lemma af3_required_options:
  "s \<in> set [arg_database, arg_model_params] \<Longrightarrow> s \<in> set (af3_argparse_main argument_parser mm ct) \<and> as_required s"
  by (auto simp: af3_argparse_main_def af3_arguments_def af3_argument_defs)

lemma those_all_Some:
  "\<forall>x\<in>set xs. f x \<noteq> None \<Longrightarrow> \<exists>ys. those (map f xs) = Some ys \<and> (\<forall>y\<in>set ys. \<exists>x\<in>set xs. f x = Some y)"
  by (induction xs) (auto split: option.splits)

lemma classify_af3_argv:
  assumes "cli_ok mm ct"
    and "list_all (\<lambda>t. plain_arg t \<or> t \<in> set (map as_flag [arg_output_json, arg_database, arg_mmseqs2, arg_model_params])) argv"
  shows "\<exists>toks. those (map (classify (af3_argparse_main argument_parser mm ct)) argv) = Some toks \<and>
           (\<forall>tk\<in>set toks. (\<exists>v. tk = TA v) \<or>
              (\<exists>s'. s' \<in> set [arg_output_json, arg_database, arg_mmseqs2, arg_model_params] \<and>
                    as_flag s' \<in> set argv \<and> tk = TO (Some s') (as_flag s') None))"
proof -
  let ?P = "af3_argparse_main argument_parser mm ct"
  have c: "classify ?P t = Some (TA t) \<or>
           (\<exists>s'. s' \<in> set [arg_output_json, arg_database, arg_mmseqs2, arg_model_params] \<and> as_flag s' = t \<and>
                 classify ?P t = Some (TO (Some s') (as_flag s') None))" if tin: "t \<in> set argv" for t
  proof (cases "plain_arg t")
    case True
    then show ?thesis by (simp add: classify_plain)
  next
    case False
    then obtain s' where "s' \<in> set [arg_output_json, arg_database, arg_mmseqs2, arg_model_params]" "as_flag s' = t"
      using assms(2) tin by (auto simp: list_all_iff)
    then show ?thesis using af3_flag_classify [OF assms(1), of s'] af3_flags_positional
      by (auto simp: af3_arguments_def)
  qed
  have "classify ?P t \<noteq> None" if "t \<in> set argv" for t using c [OF that] by auto
  then have "\<forall>t\<in>set argv. classify ?P t \<noteq> None" by blast
  then obtain toks where t: "those (map (classify ?P) argv) = Some toks"
    and m: "\<forall>y\<in>set toks. \<exists>x\<in>set argv. classify ?P x = Some y" using those_all_Some by blast
  have "(\<exists>v. tk = TA v) \<or>
        (\<exists>s'. s' \<in> set [arg_output_json, arg_database, arg_mmseqs2, arg_model_params] \<and>
              as_flag s' \<in> set argv \<and> tk = TO (Some s') (as_flag s') None)" if tk: "tk \<in> set toks" for tk
  proof -
    obtain x where x: "x \<in> set argv" "classify ?P x = Some tk" using m tk by blast
    from c [OF x(1)] show ?thesis
    proof
      assume "classify ?P x = Some (TA x)"
      then show ?thesis using x(2) by simp
    next
      assume "\<exists>s'. s' \<in> set [arg_output_json, arg_database, arg_mmseqs2, arg_model_params] \<and> as_flag s' = x \<and>
                 classify ?P x = Some (TO (Some s') (as_flag s') None)"
      then obtain s' where "s' \<in> set [arg_output_json, arg_database, arg_mmseqs2, arg_model_params]"
        "as_flag s' = x" "classify ?P x = Some (TO (Some s') (as_flag s') None)" by blast
      then show ?thesis using x by (intro disjI2 exI [of _ s']) simp
    qed
  qed
  then show ?thesis using t by (intro exI [of _ toks] conjI ballI) simp_all
qed

subsection \<open>Properties\<close>

text \<open>
  C18. Every namespace the parser of the script returns holds a value of the declared type
  under each attribute the main block reads: \<open>input_json\<close> a non-empty list,
  \<open>output_dir\<close>, \<open>database_dir\<close> and \<open>model_params\<close> strings, \<open>output_json\<close>
  \<open>None\<close> or a non-empty list, \<open>mmseqs2\<close> a boolean; so \<open>args_of\<close> reads them
  without falling back on a default.
\<close>

theorem af3_namespace_types:
  assumes "wf_specs (af3_argparse_main argument_parser mm ct)"
    and "parse_args (af3_argparse_main argument_parser mm ct) argv = Some (Inr ns)"
  shows "map_of ns ''input_json'' = Some (AList (a_input_json (args_of msa ns))) \<and> a_input_json (args_of msa ns) \<noteq> [] \<and>
         map_of ns ''output_dir'' = Some (AStr (a_output_dir (args_of msa ns))) \<and>
         map_of ns ''output_json'' = Some (case a_output_json (args_of msa ns) of None \<Rightarrow> ANone | Some xs \<Rightarrow> AList xs) \<and>
         a_output_json (args_of msa ns) \<noteq> Some [] \<and>
         map_of ns ''database_dir'' = Some (AStr (a_database_dir (args_of msa ns))) \<and>
         map_of ns ''mmseqs2'' = Some (ABool (a_mmseqs2 (args_of msa ns))) \<and>
         map_of ns ''model_params'' = Some (AStr (a_model_params (args_of msa ns)))"
proof -
  note v = af3_arg_value [OF assms]
  have s: "\<lparr>as_flag = ''input_json'', as_dest = ''input_json'', as_nargs = NargsPlus, as_action = Store, as_required = True\<rparr> \<in> set af3_arguments"
    "\<lparr>as_flag = ''output_dir'', as_dest = ''output_dir'', as_nargs = NargsOne, as_action = Store, as_required = True\<rparr> \<in> set af3_arguments"
    "\<lparr>as_flag = ''--output_json'', as_dest = ''output_json'', as_nargs = NargsPlus, as_action = Store, as_required = False\<rparr> \<in> set af3_arguments"
    "\<lparr>as_flag = ''--database'', as_dest = ''database_dir'', as_nargs = NargsOne, as_action = Store, as_required = True\<rparr> \<in> set af3_arguments"
    "\<lparr>as_flag = ''--mmseqs2'', as_dest = ''mmseqs2'', as_nargs = NargsOne, as_action = StoreTrue, as_required = False\<rparr> \<in> set af3_arguments"
    "\<lparr>as_flag = ''--model_params'', as_dest = ''model_params'', as_nargs = NargsOne, as_action = Store, as_required = True\<rparr> \<in> set af3_arguments"
    by (simp_all add: af3_arguments_def af3_argument_defs)
  obtain i where i: "map_of ns ''input_json'' = Some (AList i)" "i \<noteq> []"
    using v [OF s(1)] val_ok_plus_req by fastforce
  obtain d where d: "map_of ns ''output_dir'' = Some (AStr d)"
    using v [OF s(2)] val_ok_one_req by fastforce
  have o: "map_of ns ''output_json'' = Some ANone \<or> (\<exists>xs. map_of ns ''output_json'' = Some (AList xs) \<and> xs \<noteq> [])"
    using v [OF s(3)] val_ok_plus_opt by fastforce
  obtain db where db: "map_of ns ''database_dir'' = Some (AStr db)"
    using v [OF s(4)] val_ok_one_req by fastforce
  obtain b where b: "map_of ns ''mmseqs2'' = Some (ABool b)"
    using v [OF s(5)] val_ok_flag by fastforce
  obtain m where m: "map_of ns ''model_params'' = Some (AStr m)"
    using v [OF s(6)] val_ok_one_req by fastforce
  show ?thesis using i d o db b m
    by (auto simp: args_of_def ns_list_def ns_str_def ns_opt_list_def ns_bool_def)
qed

text \<open>
  C19. Round trip of the command line: for arguments whose values \<open>argparse\<close> reads as
  plain strings, the command line \<open>render_argv\<close> writes parses, with any optional
  collaborator options, to a namespace that \<open>args_of\<close> reads back as the same
  arguments.
\<close>

theorem parse_render:
  assumes "cli_ok mm ct"
    and "list_all plain_arg (a_input_json a @ [a_output_dir a, a_database_dir a, a_model_params a] @
               (case a_output_json a of None \<Rightarrow> [] | Some xs \<Rightarrow> xs))"
    and "a_input_json a \<noteq> []" and "a_output_json a \<noteq> Some []"
  shows "\<exists>ns. parse_args (af3_argparse_main argument_parser mm ct) (render_argv a) = Some (Inr ns) \<and>
             args_of msa ns = a\<lparr>a_msa := msa ns\<rparr>"
  using render_parse_state [OF assms] by blast

text \<open>
  C21. \<open>--output_json\<close> takes one or more values, so written first it takes every
  plain argument that follows: for any inputs and output directory written after it, the
  parser reports \<open>input_json\<close> and \<open>output_dir\<close> as missing.
\<close>

theorem output_json_first_swallows_positionals:
  assumes ok: "cli_ok mm ct" and pl: "list_all plain_arg (ps @ [d, m])" and ne: "ps \<noteq> []"
  shows "parse_args (af3_argparse_main argument_parser mm ct)
           (''--output_json'' # ps @ [''--database'', d, ''--model_params'', m]) =
         Some (Inl (ErrRequired [''input_json'', ''output_dir'']))"
proof -
  let ?P = "af3_argparse_main argument_parser mm ct"
  have in_af3: "arg_output_json \<in> set af3_arguments" "arg_database \<in> set af3_arguments"
    "arg_model_params \<in> set af3_arguments" by (simp_all add: af3_arguments_def)
  note cl = af3_flag_classify [OF ok in_af3(1) af3_flags_positional(1)]
            af3_flag_classify [OF ok in_af3(2) af3_flags_positional(2)]
            af3_flag_classify [OF ok in_af3(3) af3_flags_positional(4)]
  have pd: "plain_arg d" "plain_arg m" "list_all plain_arg ps" using pl by simp_all
  have toks: "those (map (classify ?P) (''--output_json'' # ps @ [''--database'', d, ''--model_params'', m])) =
      Some (TO (Some arg_output_json) ''--output_json'' None # map TA ps @
            [TO (Some arg_database) ''--database'' None, TA d, TO (Some arg_model_params) ''--model_params'' None, TA m])"
  proof -
    have "map (classify ?P) (''--output_json'' # ps @ [''--database'', d, ''--model_params'', m]) =
          map Some (TO (Some arg_output_json) ''--output_json'' None # map TA ps @
            [TO (Some arg_database) ''--database'' None, TA d, TO (Some arg_model_params) ''--model_params'' None, TA m])"
      using cl pd those_map_plain [OF pd(3), of ?P] by (simp add: af3_flags classify_plain)
    then show ?thesis by (simp only: those_map_Some)
  qed
  let ?st = "take_action arg_model_params (AStr m) (take_action arg_database (AStr d)
               (take_action arg_output_json (AList ps) (init_state ?P)))"
  have c: "consume (TO (Some arg_output_json) ''--output_json'' None # map TA ps @
            [TO (Some arg_database) ''--database'' None, TA d, TO (Some arg_model_params) ''--model_params'' None, TA m])
            (init_state ?P) = Some (Inr ?st)"
    using ne by (simp add: consume_plus_step consume_one_step af3_argument_defs del: consume.simps)
      (simp add: consume_one_step af3_argument_defs)
  have "filter (\<lambda>s. as_required s \<and> s \<notin> set (p_seen ?st)) ?P = [arg_input_json, arg_output_dir]"
  proof -
    have "filter (\<lambda>s. as_required s \<and> s \<notin> set (p_seen ?st)) ?P =
          filter (\<lambda>s. s \<notin> set (p_seen ?st)) (filter as_required ?P)" by (simp add: filter_filter conj_commute)
    then show ?thesis using af3_parser_filters(2) [OF ok]
      by (simp add: take_action_def init_state_def af3_argument_defs)
  qed
  then have "missing ?P ?st = [''input_json'', ''output_dir'']"
    by (simp add: missing_def action_name_def af3_argument_defs is_positional_def)
  then show ?thesis using toks c by (simp add: parse_args_def)
qed

end
