(* ===== verification/Batch.thy ===== *)
theory Batch
  imports Cli Driver PyStr
begin

text \<open>
  The main block of \<open>src/alphafold3.py\<close> after argument parsing (lines 85--128): validate,
  fill in the output slots, then for each input file in order open it, parse it as JSON,
  optionally call the MSA collaborator, pick the path to run on and call
  \<open>run_alphafold3\<close>.  The first exception ends the run.  The JSON parser and
  \<open>add_msa_to_json\<close> are outside \<open>src/\<close>: they are parameters of the environment
  (\<open>batch_env\<close>).  What the script relies on from the collaborator, that it writes the
  augmented document to the path the script then runs on, is the contract
  \<open>msa_contract\<close>, and \<open>add_msa_to_json_spec\<close> is a model of the collaborator, written
  from the spec, that meets it.
\<close>

datatype json =
    JNull
  | JBool bool
  | JNum int
  | JStr string
  | JArr "json list"
  | JObj "(string \<times> json) list"

text \<open>The keyword arguments of the call of \<open>add_msa_to_json\<close> (lines 103--113).\<close>

record msa_request =
  mr_input_json :: string
  mr_opts :: msa_opts
  mr_af3_json :: json
  mr_output_json :: "string option"
  mr_to_file :: bool

record batch_env =
  sys :: sysenv
  json_load :: "bytes \<Rightarrow> string + json"
  add_msa :: "msa_request \<Rightarrow> json pyio"

text \<open>The key of a file in the world: the components of its resolved path.\<close>

definition file_key :: "batch_env \<Rightarrow> string \<Rightarrow> string list" where
  "file_key env f = p_parts (resolve (cwd (sys env)) (path_of f))"

text \<open>
  \<open>with open(json_file) as f: json.load(f)\<close> (lines 99--100): a missing file raises
  \<open>FileNotFoundError\<close>, unparsable content \<open>JSONDecodeError\<close>.
\<close>

definition io_load_json :: "batch_env \<Rightarrow> string \<Rightarrow> json pyio" where
  "io_load_json env f w =
     (case map_of (files w) (file_key env f) of
        None \<Rightarrow> (Inl (FileNotFoundError f), w)
      | Some bs \<Rightarrow>
          (case json_load env bs of Inl m \<Rightarrow> (Inl (JSONDecodeError m), w) | Inr j \<Rightarrow> (Inr j, w)))"

text \<open>Lines 115--119: the path written by the collaborator.\<close>

definition run_json_of :: "string \<Rightarrow> string option \<Rightarrow> string" where
  "run_json_of json_file oj =
     (case oj of None \<Rightarrow> py_replace ''.json'' ''_mmseqs.json'' json_file | Some p \<Rightarrow> p)"

text \<open>Lines 102--121: the path to run on, after the optional augmentation.\<close>

definition prepare :: "batch_env \<Rightarrow> args \<Rightarrow> string option list \<Rightarrow> nat \<Rightarrow> string \<Rightarrow> json \<Rightarrow> string pyio" where
  "prepare env a slots i json_file af3_json =
     (if a_mmseqs2 a then
        io_bind (io_index slots i) (\<lambda>oj.
        io_bind (add_msa env \<lparr>mr_input_json = json_file, mr_opts = a_msa a, mr_af3_json = af3_json,
                              mr_output_json = oj, mr_to_file = True\<rparr>) (\<lambda>_.
        io_bind (io_index slots i) (\<lambda>oj'.
        io_return (run_json_of json_file oj'))))
      else io_return json_file)"

text \<open>One iteration of the loop of lines 98--128.\<close>

definition batch_item :: "batch_env \<Rightarrow> args \<Rightarrow> string option list \<Rightarrow> nat \<times> string \<Rightarrow> unit pyio" where
  "batch_item env a slots ij =
     (case ij of (i, json_file) \<Rightarrow>
        io_bind (io_load_json env json_file) (\<lambda>af3_json.
        io_bind (prepare env a slots i json_file af3_json) (\<lambda>run_json.
        run_alphafold3 (sys env) run_json (a_output_dir a) (a_model_params a) (a_database_dir a))))"

text \<open>Lines 85--128; \<open>List.enumerate 0\<close> is Python's \<open>enumerate\<close>.\<close>

definition af3_main :: "batch_env \<Rightarrow> args \<Rightarrow> unit pyio" where
  "af3_main env a =
     (case validate a of
        Inl e \<Rightarrow> io_raise e
      | Inr _ \<Rightarrow> io_for (List.enumerate 0 (a_input_json a)) (batch_item env a (out_slots a)))"

text \<open>
  The command of the \<open>run_alphafold3\<close> call of lines 123--128 for a given run path,
  and the iteration of the loop when no augmentation is asked for.
\<close>

text \<open>An input that opens and parses in world \<open>w\<close>.\<close>

definition loads :: "batch_env \<Rightarrow> world \<Rightarrow> string \<Rightarrow> bool" where
  "loads env w f \<longleftrightarrow>
     (case map_of (files w) (file_key env f) of None \<Rightarrow> False | Some bs \<Rightarrow> \<not> isl (json_load env bs))"

definition batch_cmd :: "batch_env \<Rightarrow> args \<Rightarrow> string \<Rightarrow> string" where
  "batch_cmd env a f = af3_command (cwd (sys env)) f (a_output_dir a) (a_model_params a) (a_database_dir a)"

definition plain_item :: "batch_env \<Rightarrow> args \<Rightarrow> string \<Rightarrow> unit pyio" where
  "plain_item env a f =
     io_bind (io_load_json env f) (\<lambda>_. run_alphafold3 (sys env) f (a_output_dir a) (a_model_params a) (a_database_dir a))"

subsection \<open>The collaborator's contract\<close>

text \<open>
  What the script relies on: a successful call has written a file at the path the script
  computes with \<open>run_json_of\<close>, and has started no AlphaFold container.
\<close>

definition msa_contract :: "batch_env \<Rightarrow> bool" where
  "msa_contract env \<longleftrightarrow>
     (\<forall>req w j w'. add_msa env req w = (Inr j, w') \<longrightarrow>
        map_of (files w') (file_key env (run_json_of (mr_input_json req) (mr_output_json req))) \<noteq> None \<and>
        spawned w' = spawned w)"

text \<open>
  The collaborator as the spec describes it: it augments the document (the search itself
  is the parameter \<open>augment\<close>, which may fail), serialises it (\<open>dump\<close>) and writes it
  to the user-supplied output path or to the input path with \<open>.json\<close> replaced.
\<close>

definition add_msa_to_json_spec ::
  "(msa_request \<Rightarrow> string + json) \<Rightarrow> (json \<Rightarrow> bytes) \<Rightarrow> string \<Rightarrow> msa_request \<Rightarrow> json pyio" where
  "add_msa_to_json_spec augment dump wd req w =
     (case augment req of
        Inl m \<Rightarrow> (Inl (MsaError m), w)
      | Inr j \<Rightarrow>
          (Inr j, w\<lparr>files := AList.update
             (p_parts (resolve wd (path_of (run_json_of (mr_input_json req) (mr_output_json req)))))
             (dump j) (files w)\<rparr>))"

text \<open>The main block run with the collaborator of the spec.\<close>

definition spec_env :: "batch_env \<Rightarrow> (msa_request \<Rightarrow> string + json) \<Rightarrow> (json \<Rightarrow> bytes) \<Rightarrow> batch_env" where
  "spec_env env augment dump = env\<lparr>add_msa := add_msa_to_json_spec augment dump (cwd (sys env))\<rparr>"

subsection \<open>Lemmas\<close>

lemma no_border_json: "no_border ''.json''"
  by code_simp

lemma io_for_snd:
  "(\<And>i x. f (i, x) = g x) \<Longrightarrow> io_for ps f = io_for (map snd ps) g"
  by (induction ps) auto

lemma io_load_json_world: "snd (io_load_json env f w) = w"
  by (simp add: io_load_json_def split: option.splits sum.splits)

lemma io_load_json_ok: "loads env w f \<Longrightarrow> \<exists>j. io_load_json env f w = (Inr j, w)"
  by (auto simp: loads_def io_load_json_def not_isl_Inr split: option.splits)

lemma batch_item_plain:
  "\<not> a_mmseqs2 a \<Longrightarrow> batch_item env a slots (i, f) = plain_item env a f"
  by (simp add: batch_item_def prepare_def plain_item_def)

lemma af3_main_plain:
  "validate a = Inr () \<Longrightarrow> \<not> a_mmseqs2 a \<Longrightarrow>
   af3_main env a = io_for (a_input_json a) (plain_item env a)"
proof -
  assume v: "validate a = Inr ()" and p: "\<not> a_mmseqs2 a"
  have "io_for (List.enumerate 0 (a_input_json a)) (batch_item env a (out_slots a)) =
        io_for (map snd (List.enumerate 0 (a_input_json a))) (plain_item env a)"
    by (rule io_for_snd) (simp add: batch_item_plain p)
  then show ?thesis using v by (simp add: af3_main_def)
qed

lemma plain_loop_ok:
  assumes "\<forall>f \<in> set xs. loads env w f" and "\<forall>n c. child_ok (child (sys env) n c)"
  shows "fst (io_for xs (plain_item env a) w) = Inr () \<and>
         spawned (snd (io_for xs (plain_item env a) w)) =
           spawned w @ map (batch_cmd env a) xs"
  using assms(1)
proof (induction xs arbitrary: w)
  case Nil
  then show ?case by simp
next
  case (Cons f xs)
  have "loads env w f" using Cons.prems by simp
  then obtain j where ld: "io_load_json env f w = (Inr j, w)" using io_load_json_ok by blast
  let ?r = "run_alphafold3 (sys env) f (a_output_dir a) (a_model_params a) (a_database_dir a) w"
  have "child_ok (next_child (sys env) w (batch_cmd env a f))"
    using assms(2) by (simp add: next_child_def)
  then have ok: "fst ?r = Inr () \<and> spawned (snd ?r) = spawned w @ [batch_cmd env a f]"
    unfolding batch_cmd_def by (rule run_alphafold3_ok)
  have fs: "files (snd ?r) = files w" by (rule preservesD [OF run_alphafold3_frame])
  have "\<forall>g \<in> set xs. loads env (snd ?r) g" using Cons.prems fs by (simp add: loads_def)
  then have IH: "fst (io_for xs (plain_item env a) (snd ?r)) = Inr () \<and> spawned (snd (io_for xs (plain_item env a) (snd ?r))) = spawned (snd ?r) @ map (batch_cmd env a) xs"
    by (rule Cons.IH)
  obtain w1 where r: "?r = (Inr (), w1)" using ok by (cases ?r) auto
  have "plain_item env a f w = (Inr (), w1)" using ld r by (simp add: plain_item_def)
  then show ?case using IH ok r by (simp add: io_bind_def)
qed

lemma plain_item_ok:
  assumes "loads env w f" and "child_ok (child (sys env) (length (spawned w)) (batch_cmd env a f))"
  shows "\<exists>w1. plain_item env a f w = (Inr (), w1) \<and> spawned w1 = spawned w @ [batch_cmd env a f] \<and> files w1 = files w"
proof -
  obtain j where ld: "io_load_json env f w = (Inr j, w)" using io_load_json_ok [OF assms(1)] by blast
  let ?r = "run_alphafold3 (sys env) f (a_output_dir a) (a_model_params a) (a_database_dir a) w"
  have "child_ok (next_child (sys env) w (batch_cmd env a f))"
    using assms(2) by (simp add: next_child_def)
  then have ok: "fst ?r = Inr () \<and> spawned (snd ?r) = spawned w @ [batch_cmd env a f]"
    unfolding batch_cmd_def by (rule run_alphafold3_ok)
  have fs: "files (snd ?r) = files w" by (rule preservesD [OF run_alphafold3_frame])
  show ?thesis using ld ok fs by (cases ?r) (simp add: plain_item_def)
qed

lemma plain_item_fails:
  assumes "loads env w f"
    and "returncode (child (sys env) (length (spawned w)) (batch_cmd env a f)) \<noteq> 0"
    and "\<not> isl (utf8_decode (out (child (sys env) (length (spawned w)) (batch_cmd env a f))))"
    and "\<not> isl (utf8_decode (err (child (sys env) (length (spawned w)) (batch_cmd env a f))))"
  shows "fst (plain_item env a f w) =
           Inl (af3_failure (child (sys env) (length (spawned w)) (batch_cmd env a f)) (batch_cmd env a f)) \<and>
         spawned (snd (plain_item env a f w)) = spawned w @ [batch_cmd env a f]"
proof -
  obtain j where ld: "io_load_json env f w = (Inr j, w)" using io_load_json_ok [OF assms(1)] by blast
  have "fst (run_alphafold3 (sys env) f (a_output_dir a) (a_model_params a) (a_database_dir a) w) =
          Inl (af3_failure (next_child (sys env) w (batch_cmd env a f)) (batch_cmd env a f)) \<and>
        spawned (snd (run_alphafold3 (sys env) f (a_output_dir a) (a_model_params a) (a_database_dir a) w)) =
          spawned w @ [batch_cmd env a f]"
    using assms(2-4) unfolding batch_cmd_def next_child_def by (rule run_alphafold3_fails [unfolded next_child_def])
  then show ?thesis using ld by (simp add: plain_item_def next_child_def)
qed

lemma plain_loop_fails:
  assumes "\<forall>f \<in> set xs. loads env w f" and "k < length xs"
    and "\<forall>n < length (spawned w) + k. \<forall>c. child_ok (child (sys env) n c)"
    and "returncode (child (sys env) (length (spawned w) + k) (batch_cmd env a (xs ! k))) \<noteq> 0"
    and "\<not> isl (utf8_decode (out (child (sys env) (length (spawned w) + k) (batch_cmd env a (xs ! k)))))"
    and "\<not> isl (utf8_decode (err (child (sys env) (length (spawned w) + k) (batch_cmd env a (xs ! k)))))"
  shows "fst (io_for xs (plain_item env a) w) =
           Inl (af3_failure (child (sys env) (length (spawned w) + k) (batch_cmd env a (xs ! k)))
                  (batch_cmd env a (xs ! k))) \<and>
         spawned (snd (io_for xs (plain_item env a) w)) = spawned w @ map (batch_cmd env a) (take (Suc k) xs)"
  using assms
proof (induction xs arbitrary: w k)
  case Nil
  then show ?case by simp
next
  case (Cons f xs)
  show ?case
  proof (cases k)
    case 0
    then have "fst (plain_item env a f w) =
                 Inl (af3_failure (child (sys env) (length (spawned w)) (batch_cmd env a f)) (batch_cmd env a f)) \<and>
               spawned (snd (plain_item env a f w)) = spawned w @ [batch_cmd env a f]"
      using Cons.prems by (intro plain_item_fails) simp_all
    then show ?thesis using 0 by (cases "plain_item env a f w") (simp add: io_bind_def split: sum.splits)
  next
    case (Suc k')
    have "child_ok (child (sys env) (length (spawned w)) (batch_cmd env a f))"
      using Cons.prems(3) Suc by simp
    then obtain w1 where w1: "plain_item env a f w = (Inr (), w1)"
      and sp: "spawned w1 = spawned w @ [batch_cmd env a f]" and fs: "files w1 = files w"
      using plain_item_ok Cons.prems(1) by fastforce
    have len: "length (spawned w1) + k' = length (spawned w) + k" using sp Suc by simp
    have "fst (io_for xs (plain_item env a) w1) =
            Inl (af3_failure (child (sys env) (length (spawned w1) + k') (batch_cmd env a (xs ! k')))
                   (batch_cmd env a (xs ! k'))) \<and>
          spawned (snd (io_for xs (plain_item env a) w1)) = spawned w1 @ map (batch_cmd env a) (take (Suc k') xs)"
    proof (rule Cons.IH)
      show "\<forall>g \<in> set xs. loads env w1 g" using Cons.prems(1) fs by (simp add: loads_def)
      show "k' < length xs" using Cons.prems(2) Suc by simp
      show "\<forall>n < length (spawned w1) + k'. \<forall>c. child_ok (child (sys env) n c)"
        using Cons.prems(3) len by simp
    qed (use Cons.prems(4-6) len Suc in simp_all)
    then show ?thesis using w1 sp len Suc by (simp add: io_bind_def)
  qed
qed

text \<open>The collaborator modelled from the spec meets the contract the script relies on.\<close>

lemma add_msa_to_json_spec_contract:
  "msa_contract (env\<lparr>add_msa := add_msa_to_json_spec augment dump (cwd (sys env))\<rparr>)"
  by (auto simp: msa_contract_def add_msa_to_json_spec_def file_key_def update_conv' split: sum.splits)

lemma prepare_mmseqs_Inr:
  assumes "a_mmseqs2 a" and "validate a = Inr ()" and "i < length (a_input_json a)"
    and "prepare env a (out_slots a) i f j w = (Inr r, w')"
  shows "\<exists>j'. add_msa env \<lparr>mr_input_json = f, mr_opts = a_msa a, mr_af3_json = j,
                          mr_output_json = out_slots a ! i, mr_to_file = True\<rparr> w = (Inr j', w') \<and>
             r = run_json_of f (out_slots a ! i)"
  using assms length_out_slots [OF assms(2)]
  by (auto simp: prepare_def io_index_def io_bind_def split: prod.splits sum.splits)

lemma loads_update:
  assumes "loads env w g" and "\<not> isl (json_load env bs)"
  shows "loads env (w\<lparr>files := AList.update k bs (files w)\<rparr>) g"
  using assms by (auto simp: loads_def update_conv' split: option.splits)

lemma mmseqs_item_ok:
  assumes m: "a_mmseqs2 a" and i: "i < length slots"
    and ld: "loads E w f" and all: "\<forall>g \<in> S. loads E w g"
    and E: "E = spec_env env augment dump"
    and aug: "\<forall>r. mr_input_json r = f \<longrightarrow> \<not> isl (augment r)" and dmp: "\<forall>j. \<not> isl (json_load env (dump j))"
    and ch: "\<forall>n c. child_ok (child (sys env) n c)"
  shows "\<exists>w1. batch_item E a slots (i, f) w = (Inr (), w1) \<and>
             spawned w1 = spawned w @ [batch_cmd E a (run_json_of f (slots ! i))] \<and>
             (\<forall>g \<in> S. loads E w1 g)"
proof -
  obtain j where j: "io_load_json E f w = (Inr j, w)" using io_load_json_ok [OF ld] by blast
  let ?req = "\<lparr>mr_input_json = f, mr_opts = a_msa a, mr_af3_json = j, mr_output_json = slots ! i, mr_to_file = True\<rparr>"
  obtain j' where aj: "augment ?req = Inr j'" using aug [rule_format, of ?req] by (cases "augment ?req") auto
  let ?k = "p_parts (resolve (cwd (sys env)) (path_of (run_json_of f (slots ! i))))"
  define w0 where "w0 = w\<lparr>files := AList.update ?k (dump j') (files w)\<rparr>"
  have jl: "json_load E = json_load env" "sys E = sys env" using E by (simp_all add: spec_env_def)
  have pr: "prepare E a slots i f j w = (Inr (run_json_of f (slots ! i)), w0)"
    using m i aj E by (simp add: prepare_def io_index_def io_bind_def spec_env_def add_msa_to_json_spec_def w0_def)
  let ?r = "run_alphafold3 (sys E) (run_json_of f (slots ! i)) (a_output_dir a) (a_model_params a) (a_database_dir a) w0"
  have "child_ok (next_child (sys E) w0 (batch_cmd E a (run_json_of f (slots ! i))))"
    using ch jl by (simp add: next_child_def)
  then have ok: "fst ?r = Inr () \<and> spawned (snd ?r) = spawned w0 @ [batch_cmd E a (run_json_of f (slots ! i))]"
    unfolding batch_cmd_def by (rule run_alphafold3_ok)
  have fs: "files (snd ?r) = files w0" by (rule preservesD [OF run_alphafold3_frame])
  have "\<forall>g \<in> S. loads E w0 g" using all dmp jl unfolding w0_def by (auto intro: loads_update)
  then have "\<forall>g \<in> S. loads E (snd ?r) g" using fs by (simp add: loads_def)
  moreover obtain w1 where r: "?r = (Inr (), w1)" using ok by (cases ?r) auto
  ultimately show ?thesis using j pr ok
    by (intro exI [of _ w1]) (simp add: batch_item_def w0_def)
qed

lemma mmseqs_loop_ok:
  assumes "a_mmseqs2 a" and "n + length xs \<le> length slots"
    and "set xs \<subseteq> S" and "\<forall>g \<in> S. loads E w g"
    and "E = spec_env env augment dump"
    and "\<forall>r. mr_input_json r \<in> set xs \<longrightarrow> \<not> isl (augment r)" and "\<forall>j. \<not> isl (json_load env (dump j))"
    and "\<forall>n c. child_ok (child (sys env) n c)"
  shows "fst (io_for (List.enumerate n xs) (batch_item E a slots) w) = Inr () \<and>
         spawned (snd (io_for (List.enumerate n xs) (batch_item E a slots) w)) =
           spawned w @ map (\<lambda>(i, f). batch_cmd E a (run_json_of f (slots ! i))) (List.enumerate n xs) \<and>
         (\<forall>g \<in> S. loads E (snd (io_for (List.enumerate n xs) (batch_item E a slots) w)) g)"
  using assms(2-4,6)
proof (induction xs arbitrary: n w)
  case Nil
  then show ?case by simp
next
  case (Cons f xs)
  obtain w1 where it: "batch_item E a slots (n, f) w = (Inr (), w1)"
    and sp: "spawned w1 = spawned w @ [batch_cmd E a (run_json_of f (slots ! n))]"
    and al: "\<forall>g \<in> S. loads E w1 g"
    using mmseqs_item_ok [OF assms(1) _ _ _ assms(5) _ assms(7,8), of n slots w f S] Cons.prems by auto
  have "Suc n + length xs \<le> length slots" "set xs \<subseteq> S"
    "\<forall>r. mr_input_json r \<in> set xs \<longrightarrow> \<not> isl (augment r)" using Cons.prems by auto
  note IH = Cons.IH [OF this(1,2) al this(3)]
  show ?case using it sp IH by (simp add: io_bind_def)
qed

lemma mmseqs_item_search_fails:
  assumes "a_mmseqs2 a" and "i < length slots" and "loads E w f"
    and "E = spec_env env augment dump"
    and "\<forall>r. mr_input_json r = f \<longrightarrow> isl (augment r)"
  shows "\<exists>m. batch_item E a slots (i, f) w = (Inl (MsaError m), w)"
proof -
  obtain j where j: "io_load_json E f w = (Inr j, w)" using io_load_json_ok [OF assms(3)] by blast
  let ?req = "\<lparr>mr_input_json = f, mr_opts = a_msa a, mr_af3_json = j, mr_output_json = slots ! i, mr_to_file = True\<rparr>"
  obtain m where "augment ?req = Inl m" using assms(5) [rule_format, of ?req] by (cases "augment ?req") auto
  then show ?thesis using assms(1,2,4) j
    by (simp add: batch_item_def prepare_def io_index_def io_bind_def spec_env_def add_msa_to_json_spec_def)
qed

lemma spec_env_sel [simp]:
  "sys (spec_env env augment dump) = sys env" "json_load (spec_env env augment dump) = json_load env"
  by (simp_all add: spec_env_def)

lemma spec_env_loads [simp]: "loads (spec_env env augment dump) = loads env"
  by (simp add: loads_def fun_eq_iff file_key_def spec_env_def cong: option.case_cong)

lemma spec_env_batch_cmd [simp]: "batch_cmd (spec_env env augment dump) = batch_cmd env"
  by (simp add: batch_cmd_def fun_eq_iff)

lemma io_load_json_frame [frame_rules]: "preserves g (io_load_json env f)"
  by (simp add: preserves_def io_load_json_world)

lemma add_msa_to_json_spec_frame [frame_rules]: "preserves spawned (add_msa_to_json_spec augment dump wd req)"
  by (simp add: preserves_def add_msa_to_json_spec_def split: sum.splits)

lemma plain_item_files [frame_rules]: "preserves files (plain_item env a f)"
  unfolding plain_item_def by (intro frame_rules)

lemma plain_item_missing:
  "map_of (files w) (file_key env f) = None \<Longrightarrow> plain_item env a f w = (Inl (FileNotFoundError f), w)"
  by (simp add: plain_item_def io_load_json_def io_bind_def)

lemma take_enumerate: "take k (List.enumerate n xs) = List.enumerate n (take k xs)"
  by (simp add: enumerate_eq_zip take_zip min_def)

subsection \<open>Properties of the main block\<close>

text \<open>
  C1. A batch whose output list is given and does not match the inputs in length is
  rejected with the \<open>ValueError\<close> of line 88 before anything is opened, printed or
  started: the world is unchanged.
\<close>

theorem af3_main_rejects_count:
  assumes "a_output_json a = Some xs" and "xs \<noteq> []" and "length xs \<noteq> length (a_input_json a)"
  shows "af3_main env a w = (Inl (ValueError msg_count), w)"
  using assms by (simp add: af3_main_def validate_def truthy_list_def)

text \<open>
  C2. A batch of more than one input with a custom template is rejected with a
  \<open>ValueError\<close> (the template message, or the count message when that check fires first)
  and the world is unchanged.
\<close>

theorem af3_main_rejects_custom_template:
  assumes "1 < length (a_input_json a)" and "truthy_str (custom_template (a_msa a))"
  shows "fst (af3_main env a w) \<in> {Inl (ValueError msg_count), Inl (ValueError msg_template)} \<and>
         snd (af3_main env a w) = w"
  using assms by (auto simp: af3_main_def validate_def)

text \<open>
  C3. Without augmentation, when every input opens and parses and every child succeeds,
  the run succeeds and starts exactly one container per input, in the order of the inputs,
  each on the input path unchanged.
\<close>

theorem af3_main_runs_inputs_in_order:
  assumes "validate a = Inr ()" and "\<not> a_mmseqs2 a"
    and "\<forall>f \<in> set (a_input_json a). loads env w f"
    and "\<forall>n c. child_ok (child (sys env) n c)"
  shows "fst (af3_main env a w) = Inr () \<and>
         spawned (snd (af3_main env a w)) = spawned w @ map (batch_cmd env a) (a_input_json a)"
  using plain_loop_ok [OF assms(3,4)] by (simp add: af3_main_plain assms(1,2))

text \<open>
  C4. The first failing child ends the whole run: if the children of the first \<open>k\<close>
  inputs succeed and the child of input \<open>k\<close> exits non-zero, the run raises that child's
  \<open>CalledProcessError\<close> and has started exactly the first \<open>k + 1\<close> containers.
\<close>

theorem af3_main_stops_at_first_failure:
  assumes "validate a = Inr ()" and "\<not> a_mmseqs2 a"
    and "\<forall>f \<in> set (a_input_json a). loads env w f" and "k < length (a_input_json a)"
    and "\<forall>n < length (spawned w) + k. \<forall>c. child_ok (child (sys env) n c)"
    and "returncode (child (sys env) (length (spawned w) + k) (batch_cmd env a (a_input_json a ! k))) \<noteq> 0"
    and "\<not> isl (utf8_decode (out (child (sys env) (length (spawned w) + k) (batch_cmd env a (a_input_json a ! k)))))"
    and "\<not> isl (utf8_decode (err (child (sys env) (length (spawned w) + k) (batch_cmd env a (a_input_json a ! k)))))"
  shows "fst (af3_main env a w) =
           Inl (af3_failure (child (sys env) (length (spawned w) + k) (batch_cmd env a (a_input_json a ! k)))
                  (batch_cmd env a (a_input_json a ! k))) \<and>
         spawned (snd (af3_main env a w)) = spawned w @ map (batch_cmd env a) (take (Suc k) (a_input_json a))"
  using plain_loop_fails [OF assms(3-8)] by (simp add: af3_main_plain assms(1,2))

text \<open>
  C9. Without a user-supplied output path, the run path is the input path with
  \<open>.json\<close> replaced by \<open>_mmseqs.json\<close>, when \<open>.json\<close> occurs only as its suffix.
\<close>

theorem run_json_default_suffix:
  assumes "\<not> contains ''.json'' s"
  shows "run_json_of (s @ ''.json'') None = s @ ''_mmseqs.json''"
  using py_replace_suffix_only [OF _ no_border_json assms] by (simp add: run_json_of_def)

text \<open>
  C10. With augmentation and validated arguments, reading \<open>args.output_json[i]\<close> never
  raises \<open>IndexError\<close>: once the collaborator succeeds, the run path is the one computed
  from the \<open>i\<close>-th output slot, in the world the collaborator left.
\<close>

theorem prepare_mmseqs:
  assumes "a_mmseqs2 a" and "validate a = Inr ()" and "i < length (a_input_json a)"
    and "add_msa env \<lparr>mr_input_json = f, mr_opts = a_msa a, mr_af3_json = j,
                      mr_output_json = out_slots a ! i, mr_to_file = True\<rparr> w = (Inr j', w')"
  shows "prepare env a (out_slots a) i f j w = (Inr (run_json_of f (out_slots a ! i)), w')"
  using assms length_out_slots [OF assms(2)] by (simp add: prepare_def io_index_def io_bind_def)

text \<open>
  C22. With augmentation by the collaborator of the spec, when the search succeeds, the
  JSON parser reads back every document the collaborator writes, every input loads and
  every child succeeds, the run succeeds and starts one container per input, in input
  order, each on the run path computed from that input's output slot.  Every input still
  loads when its turn comes although the collaborator writes files as the loop goes.
\<close>

theorem af3_main_mmseqs_runs_in_order:
  assumes "validate a = Inr ()" and "a_mmseqs2 a"
    and "\<forall>f \<in> set (a_input_json a). loads env w f"
    and "\<forall>r. \<not> isl (augment r)" and "\<forall>j. \<not> isl (json_load env (dump j))"
    and "\<forall>n c. child_ok (child (sys env) n c)"
  shows "fst (af3_main (spec_env env augment dump) a w) = Inr () \<and>
         spawned (snd (af3_main (spec_env env augment dump) a w)) =
           spawned w @ map (\<lambda>(i, f). batch_cmd env a (run_json_of f (out_slots a ! i))) (List.enumerate 0 (a_input_json a))"
  using mmseqs_loop_ok [OF assms(2) _ subset_refl _ refl _ assms(5,6), where n = 0 and slots = "out_slots a" and w = w] assms(1,3,4)
  by (simp add: af3_main_def length_out_slots)

text \<open>
  C23. A missing input ends the run where it stands: if the first \<open>k\<close> inputs load and
  their children succeed and input \<open>k\<close> does not exist, the run raises
  \<open>FileNotFoundError\<close> for it after exactly the first \<open>k\<close> containers; the later inputs
  are not tried.
\<close>

theorem af3_main_stops_at_missing_input:
  assumes "validate a = Inr ()" and "\<not> a_mmseqs2 a" and "k < length (a_input_json a)"
    and "\<forall>f \<in> set (take k (a_input_json a)). loads env w f"
    and "map_of (files w) (file_key env (a_input_json a ! k)) = None"
    and "\<forall>n c. child_ok (child (sys env) n c)"
  shows "fst (af3_main env a w) = Inl (FileNotFoundError (a_input_json a ! k)) \<and>
         spawned (snd (af3_main env a w)) = spawned w @ map (batch_cmd env a) (take k (a_input_json a))"
proof -
  let ?xs = "a_input_json a" and ?P = "plain_item env a"
  have ok: "fst (io_for (take k ?xs) ?P w) = Inr () \<and>
            spawned (snd (io_for (take k ?xs) ?P w)) = spawned w @ map (batch_cmd env a) (take k ?xs)"
    using plain_loop_ok [OF assms(4,6)] .
  have "files (snd (io_for (take k ?xs) ?P w)) = files w"
    by (rule preservesD [OF preserves_for [OF plain_item_files]])
  then have "?P (?xs ! k) (snd (io_for (take k ?xs) ?P w)) = (Inl (FileNotFoundError (?xs ! k)), snd (io_for (take k ?xs) ?P w))"
    using assms(5) by (intro plain_item_missing) simp
  then show ?thesis using ok io_for_split [OF assms(3), of ?P]
    by (cases "io_for (take k ?xs) ?P w") (simp add: af3_main_plain assms(1,2) io_bind_def)
qed

text \<open>
  C24. With augmentation, a failed search ends the run: when the searches of the first
  \<open>k\<close> inputs succeed and the search of input \<open>k\<close> fails, the run raises the
  collaborator's error after exactly the containers of the first \<open>k\<close> inputs, each on
  its run path; no container is started for input \<open>k\<close>.
\<close>

theorem af3_main_mmseqs_search_fails:
  assumes "validate a = Inr ()" and "a_mmseqs2 a" and "k < length (a_input_json a)"
    and "\<forall>f \<in> set (a_input_json a). loads env w f"
    and "\<forall>r. mr_input_json r \<in> set (take k (a_input_json a)) \<longrightarrow> \<not> isl (augment r)"
    and "\<forall>r. mr_input_json r = a_input_json a ! k \<longrightarrow> isl (augment r)"
    and "\<forall>j. \<not> isl (json_load env (dump j))"
    and "\<forall>n c. child_ok (child (sys env) n c)"
  shows "\<exists>m. fst (af3_main (spec_env env augment dump) a w) = Inl (MsaError m) \<and>
             spawned (snd (af3_main (spec_env env augment dump) a w)) =
               spawned w @ map (\<lambda>(i, f). batch_cmd env a (run_json_of f (out_slots a ! i))) (List.enumerate 0 (take k (a_input_json a)))"
proof -
  let ?E = "spec_env env augment dump" and ?xs = "a_input_json a"
  let ?B = "batch_item ?E a (out_slots a)" and ?ps = "List.enumerate 0 ?xs"
  have len: "length (out_slots a) = length ?xs" using length_out_slots [OF assms(1)] .
  have k: "k < length ?ps" "?ps ! k = (k, ?xs ! k)" using assms(3) by (simp_all add: nth_enumerate_eq)
  have pre: "fst (io_for (take k ?ps) ?B w) = Inr () \<and>
             spawned (snd (io_for (take k ?ps) ?B w)) =
               spawned w @ map (\<lambda>(i, f). batch_cmd ?E a (run_json_of f (out_slots a ! i))) (take k ?ps) \<and>
             (\<forall>g \<in> set ?xs. loads ?E (snd (io_for (take k ?ps) ?B w)) g)"
    unfolding take_enumerate
    using mmseqs_loop_ok [OF assms(2) _ _ _ refl assms(5) assms(7,8), where n = 0 and slots = "out_slots a" and S = "set ?xs" and w = w] assms(3,4) len
    by (simp add: set_take_subset)
  obtain w1 where w1: "io_for (take k ?ps) ?B w = (Inr (), w1)" using pre by (cases "io_for (take k ?ps) ?B w") simp
  have ld: "loads ?E w1 (?xs ! k)" using pre w1 assms(3) by simp
  have "\<exists>m. ?B (k, ?xs ! k) w1 = (Inl (MsaError m), w1)"
    by (rule mmseqs_item_search_fails [OF assms(2) _ ld refl assms(6)]) (simp add: len assms(3))
  then obtain m where f: "?B (k, ?xs ! k) w1 = (Inl (MsaError m), w1)" ..
  show ?thesis using io_for_split [OF k(1), of ?B] k(2) w1 f pre
    by (simp add: af3_main_def assms(1) io_bind_def take_enumerate)
qed

text \<open>
  C16. The default run path replaces every \<open>.json\<close> of the input path, not only its
  suffix: a \<open>.json\<close> in a directory name becomes \<open>_mmseqs.json\<close> too, so the
  collaborator writes, and the container is given, a path in a directory that need not
  exist.
\<close>

theorem replace_rewrites_directories:
  assumes "\<not> contains ''.json'' d"
  shows "run_json_of (d @ ''.json'' @ r) None = d @ ''_mmseqs.json'' @ run_json_of r None"
  using py_replace_append_old_rest [OF _ no_border_json, of "''_mmseqs.json''" d r]
    py_replace_no_occurrence [OF _ assms]
  by (simp add: run_json_of_def)

end
