(* ===== verification/Script.thy ===== *)
theory Script
  imports Argparse Batch
begin

text \<open>
  The entry point of \<open>src/alphafold3.py\<close> (lines 76--83 and the interpreter around them):
  build the parser (\<open>argparse.ArgumentParser\<close> and \<open>af3_argparse_main\<close>), parse the
  command line, run the main block on the namespace.  The process exit status is what the
  interpreter makes of the outcome: 2 when \<open>parse_args\<close> reports an error (it prints the
  usage and raises \<open>SystemExit(2)\<close>), 1 when the main block ends with an uncaught
  exception (the traceback is printed), 0 otherwise.  The collaborators' arguments
  (\<open>mm\<close>, \<open>ct\<close>) and how the collaborator reads its options from the namespace
  (\<open>msa\<close>) are parameters; what argparse and the traceback print on standard error is not
  modelled.
\<close>

definition exit_status :: "py_error + unit \<Rightarrow> int" where
  "exit_status r = (case r of Inr _ \<Rightarrow> 0 | Inl _ \<Rightarrow> 1)"

definition script_main ::
  "batch_env \<Rightarrow> arg_spec list \<Rightarrow> arg_spec list \<Rightarrow> (namespace \<Rightarrow> msa_opts) \<Rightarrow> string list \<Rightarrow> world \<Rightarrow>
   (int \<times> world) option" where
  "script_main env mm ct msa argv w =
     (let parser = af3_argparse_main argument_parser mm ct in
      case parse_args parser argv of
        None \<Rightarrow> None
      | Some (Inl ae) \<Rightarrow> Some (2, w)
      | Some (Inr ns) \<Rightarrow> (case af3_main env (args_of msa ns) w of (r, w') \<Rightarrow> Some (exit_status r, w')))"

subsection \<open>Properties\<close>

text \<open>
  C20. A command line within the fragment that lacks \<open>--database\<close> or
  \<open>--model_params\<close> makes the script exit with status 2 before anything else happens:
  no file is opened, nothing is printed, no container is started.
\<close>

theorem script_missing_option:
  assumes ok: "cli_ok mm ct"
    and args: "list_all (\<lambda>t. plain_arg t \<or> t \<in> set (map as_flag [arg_output_json, arg_database, arg_mmseqs2, arg_model_params])) argv"
    and s: "s \<in> set [arg_database, arg_model_params]" and nf: "as_flag s \<notin> set argv"
  shows "script_main env mm ct msa argv w = Some (2, w)"
proof -
  let ?P = "af3_argparse_main argument_parser mm ct"
  obtain toks where t: "those (map (classify ?P) argv) = Some toks"
    and g: "\<forall>tk\<in>set toks. (\<exists>v. tk = TA v) \<or>
              (\<exists>s'. s' \<in> set [arg_output_json, arg_database, arg_mmseqs2, arg_model_params] \<and>
                    as_flag s' \<in> set argv \<and> tk = TO (Some s') (as_flag s') None)"
    using classify_af3_argv [OF ok args] by blast
  have "no_help tk" if tk: "tk \<in> set toks" for tk
    using g tk af3_options_not_help by (fastforce simp: no_help_def)
  then obtain r where c: "consume toks (init_state ?P) = Some r"
    using consume_defined [of toks] by (auto simp: list_all_iff)
  have "missing ?P st' \<noteq> []" if r: "r = Inr st'" for st'
  proof -
    have "TO (Some s) t e \<notin> set toks" for t e
      using g nf by fastforce
    moreover have "s \<notin> set (p_pos (init_state ?P))"
      using af3_parser_filters(1) [OF ok] s af3_required_not_positional by (simp add: init_state_def)
    ultimately have "s \<notin> set (p_seen st')"
      using consume_seen [of toks "init_state ?P" st'] c r by (auto simp: init_state_def)
    moreover have "s \<in> set ?P" "as_required s" using s af3_required_options by auto
    ultimately show ?thesis by (auto simp: missing_def filter_empty_conv)
  qed
  then show ?thesis using t c
    by (cases r) (auto simp: script_main_def parse_args_def)
qed

end
