(* ===== verification/Spec2Isabelle.thy ===== *)
theory Spec2Isabelle
  imports Prelude PyStr Pathlib Shell Command Utf8 Driver Cli Argparse Batch Script
begin

text \<open>
  \<^bold>\<open>A verification development of \<open>src/alphafold3.py\<close>.\<close>

  \<^bold>\<open>The program.\<close>  One Python script wraps the AlphaFold 3 container.  Its parts:
  \<^item> the command line (\<open>af3_argparse_main\<close>, lines 46--73), which registers the script's
    arguments and lets two collaborators (\<open>add_mmseqs_msa\<close>, \<open>add_custom_template\<close>, not in
    \<open>src/\<close>) register theirs;
  \<^item> the batch validator and defaults of the main block (lines 85--96);
  \<^item> the batch loop (lines 98--128): open and parse each input, optionally hand it to the
    MSA collaborator \<open>add_msa_to_json\<close>, choose the path to run on, call the driver;
  \<^item> the container driver \<open>run_alphafold3\<close> (lines 8--43): build a shell command that mounts
    four host directories into the container, run it through \<open>/bin/sh\<close>, wait, print the
    captured streams, and raise \<open>CalledProcessError\<close> on a non-zero exit;
  \<^item> the entry point (lines 76--83): build the parser, \<open>parse_args()\<close>, run the main block;
    the interpreter turns the outcome into the exit status.
  Control flows top-down; each iteration is prepare-then-invoke; the first exception ends
  the run.

  \<^bold>\<open>Theories.\<close>
  \<^item> \<open>Prelude\<close>: the world (\<open>world\<close>: printed lines, started commands, files), the
    exception-state monad \<open>'a pyio\<close> in which every statement of the script is a function
    of the world, Python's errors (\<open>py_error\<close>), \<open>print\<close>, \<open>xs[i]\<close>, the \<open>for\<close> loop
    (\<open>io_for\<close>), frame rules (\<open>preserves\<close>, collection \<open>frame_rules\<close>), \<open>str.split\<close> and
    \<open>str.join\<close>.
  \<^item> \<open>PyStr\<close>: Python's \<open>str.replace\<close> (\<open>py_replace\<close>), with the lemma that it only
    rewrites a final occurrence when there is no other and the pattern has no border.
  \<^item> \<open>Pathlib\<close>: \<open>Path(s)\<close> (\<open>path_of\<close>), \<open>str\<close> (\<open>path_str\<close>), \<open>.name\<close>, \<open>.parent\<close>,
    \<open>.resolve()\<close>; the parse/print round trip, idempotence of \<open>resolve\<close>, and that the
    resolved parent followed by the name is the resolved path.
  \<^item> \<open>Shell\<close>: the fragment of the POSIX shell lexer the command needs (blanks, newlines,
    backslash escapes and continuations); everything else makes it answer \<open>None\<close>.
  \<^item> \<open>Command\<close>: the exact command string (\<open>af3_command\<close>), the abstract invocation it
    denotes (\<open>af3_invocation\<close>, rendered by \<open>docker_argv\<close>), Docker's reading of
    \<open>--volume\<close> (\<open>is_bind\<close>, \<open>container_to_host\<close>); refinement of the string by the
    invocation, and that the JSON path given to the container is the input file on the host.
  \<^item> \<open>Utf8\<close>: \<open>bytes.decode()\<close> (strict UTF-8, \<open>utf8_dec\<close> from an offset) and the
    reference encoder \<open>utf8_encode\<close> (\<open>str.encode\<close>); decoding succeeds exactly on the
    encodings of lists of scalar values (\<open>utf8_decode_iff\<close>, by length induction over
    a one-step lemma per sequence length), an error names the offset of the first
    ill-formed sequence, and one to four bytes make one character.
  \<^item> \<open>Driver\<close>: \<open>run_alphafold3\<close> with its pieces \<open>io_spawn\<close>, \<open>check_child\<close>,
    \<open>report_success\<close>; its behaviour on success, failure and undecodable output, and what
    \<open>io_decode\<close> and \<open>print_decoded\<close> do on every input (round trip, error offset,
    length bounds).
  \<^item> \<open>Cli\<close>: the argument table (one \<open>arg_spec\<close> per \<open>add_argument\<close> call:
    \<open>arg_input_json\<close> \<dots> \<open>arg_model_params\<close>), the namespace \<open>args\<close>, \<open>validate\<close>
    and \<open>out_slots\<close>.
  \<^item> \<open>Argparse\<close>: \<open>ArgumentParser.parse_args\<close> for the fragment the script uses:
    \<open>classify\<close> (\<open>_parse_optional\<close>), greedy allocation of positionals
    (\<open>alloc\<close>, \<open>match_partial\<close>), \<open>consume_run\<close>, \<open>consume_opt\<close> and the loop
    \<open>consume\<close> of \<open>_parse_known_args\<close> over a state record \<open>pstate\<close>, the
    \<open>required\<close> check \<open>missing\<close>; errors are \<open>arg_error\<close> values.  The invariant
    \<open>parse_inv\<close> (every stored value has its action's shape) is kept by every step, so
    the namespaces of the script's parser are well typed; the command line
    \<open>render_argv\<close> parses back to its arguments.
  \<^item> \<open>Script\<close>: \<open>script_main\<close> composes the parser and the main block and returns the
    exit status (\<open>exit_status\<close>: 2 for a parse error, 1 for an uncaught exception).
  \<^item> \<open>Batch\<close>: JSON loading, \<open>prepare\<close>, \<open>batch_item\<close>, \<open>af3_main\<close>; the collaborator's
    contract \<open>msa_contract\<close> and the spec's model of it \<open>add_msa_to_json_spec\<close>
    (\<open>spec_env\<close> plugs it into the environment); the whole batch with and without
    augmentation, where the files the collaborator writes can alias later inputs, and its
    error paths: a failing child, a missing input and a failed search each end the run
    after exactly the containers of the inputs before it (\<open>io_for_split\<close> cuts the loop
    at the failing input).
  \<^item> this theory: fixtures for the witnesses, the properties that span components and the
    witnesses of every property with a hypothesis.

  \<^bold>\<open>What is outside the model.\<close>  The child process is a parameter
  (\<open>sysenv.child\<close>: what the \<open>n\<close>-th child started with a command hands back), so every
  behaviour of the container is covered, but a child that never exits is not (the script
  would hang; the model returns).  JSON parsing (\<open>json_load\<close>) and the MSA collaborator
  (\<open>add_msa\<close>) are parameters; what the script needs from the collaborator is stated as
  \<open>msa_contract\<close>.  Symbolic links are not modelled in \<open>resolve\<close>, and files are
  found by the lexically resolved path (\<open>file_key\<close>), so \<open>x/../a.json\<close> is found
  even when \<open>x\<close> does not exist; every failure of \<open>json.load\<close>, including a text
  decoding error of \<open>open\<close>, is one \<open>JSONDecodeError\<close>; errors of \<open>open\<close>
  other than a missing file, of \<open>Popen\<close> itself, and of writing to standard output are
  not modelled.  Of \<open>argparse\<close> the model leaves out abbreviated options, single-dash
  and negative-number strings, \<open>--\<close> and \<open>-h\<close>/\<open>--help\<close> (\<open>parse_args\<close> answers
  \<open>None\<close> there), type conversion (every argument is a string) and the usage text printed
  on standard error; the collaborators' arguments are a parameter.  No loop of the script
  can run forever, so the model needs no fuel: \<open>io_for\<close> recurses on the list of
  inputs, \<open>py_replace\<close>, the lexer and \<open>utf8_dec\<close> on their input, and argparse's
  loop \<open>consume\<close> is a \<open>function\<close> whose measure is the number of strings left.

  \<^bold>\<open>Not modelled.\<close>  Line 1 imports \<open>custom_template_argpase_util\<close>, whose
  arguments are the parameter \<open>ct\<close>; the collaborators \<open>add_mmseqs_msa\<close> and
  \<open>add_custom_template\<close>, the MMseqs2 search and the AlphaFold 3 container are not in
  \<open>src/\<close> and are parameters (\<open>add_msa\<close>, \<open>sysenv.child\<close>), stated through the spec's
  contract where the script relies on them.  Every statement of \<open>src/alphafold3.py\<close> is
  modelled; the lines the map leaves out are imports of those collaborators and blank lines.
\<close>

subsection \<open>Fixtures\<close>

definition ex_sys :: sysenv where
  "ex_sys = \<lparr>cwd = ''/home/u'', child = (\<lambda>n c. \<lparr>returncode = 0, out = [0x6F, 0x6B], err = []\<rparr>)\<rparr>"

definition ex_fail_sys :: sysenv where
  "ex_fail_sys = \<lparr>cwd = ''/home/u'', child = (\<lambda>n c. \<lparr>returncode = 137, out = [0x6F], err = [0x6B]\<rparr>)\<rparr>"

definition ex_world :: world where
  "ex_world = \<lparr>console = [], spawned = [], files = [([''home'', ''u'', ''a.json''], [0x7B, 0x7D])]\<rparr>"

definition ex_env :: batch_env where
  "ex_env = \<lparr>sys = ex_sys, json_load = (\<lambda>bs. Inr JNull),
             add_msa = add_msa_to_json_spec (\<lambda>r. Inr JNull) (\<lambda>j. [0x7B, 0x7D]) ''/home/u''\<rparr>"

definition ex_opts :: msa_opts where
  "ex_opts = \<lparr>templates = False, num_templates = 0, custom_template = None,
              custom_template_chain = None, target_id = None\<rparr>"

definition ex_args :: args where
  "ex_args = \<lparr>a_input_json = [''a.json''], a_output_dir = ''out'', a_output_json = None,
              a_database_dir = ''/db'', a_mmseqs2 = False, a_model_params = ''/models'',
              a_msa = ex_opts\<rparr>"

definition ex_margs :: args where
  "ex_margs = ex_args\<lparr>a_mmseqs2 := True\<rparr>"

definition ex_fail_env :: batch_env where
  "ex_fail_env = ex_env\<lparr>sys := ex_fail_sys\<rparr>"

definition ex_bad_sys :: sysenv where
  "ex_bad_sys = \<lparr>cwd = ''/home/u'', child = (\<lambda>n c. \<lparr>returncode = 0, out = [0xFF], err = []\<rparr>)\<rparr>"

definition ex_argv :: "string list" where
  "ex_argv = [''a.json'', ''out'', ''--database'', ''/db'', ''--model_params'', ''/models'']"

definition ex_two_world :: world where
  "ex_two_world = \<lparr>console = [], spawned = [],
     files = [([''home'', ''u'', ''a.json''], [0x7B]), ([''home'', ''u'', ''b.json''], [0x7B, 0x20, 0x20, 0x20, 0x7D])]\<rparr>"

definition ex_search :: "msa_request \<Rightarrow> string + json" where
  "ex_search r = (if mr_input_json r = ''b.json'' then Inl ''no hits'' else Inr JNull)"

subsection \<open>Properties that span components\<close>

text \<open>
  C8. With augmentation, when the collaborator keeps its contract, the JSON path the
  container is given (\<open>/root/af_input/\<close> and the run path's name) leads, through the
  volume mounts of the invocation, to a host file that exists when the container starts:
  the document the collaborator wrote.
\<close>

theorem mmseqs_container_reads_written_file:
  assumes "msa_contract env" and "a_mmseqs2 a" and "validate a = Inr ()"
    and "i < length (a_input_json a)"
    and "prepare env a (out_slots a) i f j w = (Inr r, w')"
    and "p_parts (path_of r) \<noteq> []" and "input_name r \<noteq> ''..''"
  shows "\<exists>p. container_to_host
               (dr_mounts (af3_invocation (cwd (sys env)) r (a_output_dir a) (a_model_params a) (a_database_dir a)))
               (''/root/af_input/'' @ input_name r) = Some p
           \<and> map_of (files w') (p_parts p) \<noteq> None"
proof -
  obtain j' where msa: "add_msa env \<lparr>mr_input_json = f, mr_opts = a_msa a, mr_af3_json = j,
                          mr_output_json = out_slots a ! i, mr_to_file = True\<rparr> w = (Inr j', w')"
    and r: "r = run_json_of f (out_slots a ! i)"
    using prepare_mmseqs_Inr [OF assms(2-5)] by blast
  have "map_of (files w') (file_key env r) \<noteq> None"
    using assms(1) msa r unfolding msa_contract_def by fastforce
  then show ?thesis
    using json_path_in_container [OF assms(6,7)] by (simp add: file_key_def)
qed


subsection \<open>Witnesses\<close>

theorem af3_main_rejects_count_witness:
  "a_output_json (ex_args\<lparr>a_output_json := Some [''x.json'', ''y.json'']\<rparr>) = Some [''x.json'', ''y.json''] \<and>
   [''x.json'', ''y.json''] \<noteq> [] \<and>
   length [''x.json'', ''y.json''] \<noteq> length (a_input_json (ex_args\<lparr>a_output_json := Some [''x.json'', ''y.json'']\<rparr>)) \<and>
   af3_main ex_env (ex_args\<lparr>a_output_json := Some [''x.json'', ''y.json'']\<rparr>) ex_world =
     (Inl (ValueError msg_count), ex_world)"
  using af3_main_rejects_count [of "ex_args\<lparr>a_output_json := Some [''x.json'', ''y.json'']\<rparr>"
      "[''x.json'', ''y.json'']" ex_env ex_world]
  by (simp add: ex_args_def)

theorem af3_main_rejects_custom_template_witness:
  "1 < length (a_input_json (ex_args\<lparr>a_input_json := [''a.json'', ''b.json''],
                                     a_msa := ex_opts\<lparr>custom_template := Some ''t.cif''\<rparr>\<rparr>)) \<and>
   truthy_str (custom_template (a_msa (ex_args\<lparr>a_input_json := [''a.json'', ''b.json''],
                                     a_msa := ex_opts\<lparr>custom_template := Some ''t.cif''\<rparr>\<rparr>))) \<and>
   fst (af3_main ex_env (ex_args\<lparr>a_input_json := [''a.json'', ''b.json''],
                                 a_msa := ex_opts\<lparr>custom_template := Some ''t.cif''\<rparr>\<rparr>) ex_world)
     \<in> {Inl (ValueError msg_count), Inl (ValueError msg_template)} \<and>
   snd (af3_main ex_env (ex_args\<lparr>a_input_json := [''a.json'', ''b.json''],
                                 a_msa := ex_opts\<lparr>custom_template := Some ''t.cif''\<rparr>\<rparr>) ex_world) = ex_world"
  using af3_main_rejects_custom_template [of "ex_args\<lparr>a_input_json := [''a.json'', ''b.json''],
                                 a_msa := ex_opts\<lparr>custom_template := Some ''t.cif''\<rparr>\<rparr>" ex_env ex_world]
  by (simp add: truthy_str_def)

theorem af3_main_runs_inputs_in_order_witness:
  "validate ex_args = Inr () \<and> \<not> a_mmseqs2 ex_args \<and>
   loads ex_env ex_world ''a.json'' \<and> child_ok (child (sys ex_env) 0 (batch_cmd ex_env ex_args ''a.json'')) \<and>
   fst (af3_main ex_env ex_args ex_world) = Inr () \<and>
   spawned (snd (af3_main ex_env ex_args ex_world)) = spawned ex_world @ map (batch_cmd ex_env ex_args) (a_input_json ex_args)"
proof -
  have h1: "validate ex_args = Inr ()" by code_simp
  have h2: "\<not> a_mmseqs2 ex_args" by (simp add: ex_args_def)
  have h3: "\<forall>f \<in> set (a_input_json ex_args). loads ex_env ex_world f" by code_simp
  have h4: "\<forall>n c. child_ok (child (sys ex_env) n c)"
    by (simp add: ex_env_def ex_sys_def child_ok_def utf8_decode_def)
  have e3: "loads ex_env ex_world ''a.json''" using h3 by (simp add: ex_args_def)
  have e4: "child_ok (child (sys ex_env) 0 (batch_cmd ex_env ex_args ''a.json''))" using h4 by blast
  show ?thesis using af3_main_runs_inputs_in_order [OF h1 h2 h3 h4] h1 h2 e3 e4 by blast
qed

theorem af3_main_stops_at_first_failure_witness:
  "validate ex_args = Inr () \<and> \<not> a_mmseqs2 ex_args \<and>
   loads ex_fail_env ex_world ''a.json'' \<and> 0 < length (a_input_json ex_args) \<and> spawned ex_world = [] \<and>
   returncode (child (sys ex_fail_env) (length (spawned ex_world) + 0) (batch_cmd ex_fail_env ex_args (a_input_json ex_args ! 0))) \<noteq> 0 \<and>
   \<not> isl (utf8_decode (out (child (sys ex_fail_env) (length (spawned ex_world) + 0) (batch_cmd ex_fail_env ex_args (a_input_json ex_args ! 0))))) \<and>
   \<not> isl (utf8_decode (err (child (sys ex_fail_env) (length (spawned ex_world) + 0) (batch_cmd ex_fail_env ex_args (a_input_json ex_args ! 0))))) \<and>
   fst (af3_main ex_fail_env ex_args ex_world) =
     Inl (af3_failure (child (sys ex_fail_env) (length (spawned ex_world) + 0) (batch_cmd ex_fail_env ex_args (a_input_json ex_args ! 0)))
            (batch_cmd ex_fail_env ex_args (a_input_json ex_args ! 0))) \<and>
   spawned (snd (af3_main ex_fail_env ex_args ex_world)) =
     spawned ex_world @ map (batch_cmd ex_fail_env ex_args) (take (Suc 0) (a_input_json ex_args))"
proof -
  have h1: "validate ex_args = Inr ()" by code_simp
  have h2: "\<not> a_mmseqs2 ex_args" by (simp add: ex_args_def)
  have h3: "\<forall>f \<in> set (a_input_json ex_args). loads ex_fail_env ex_world f" by code_simp
  have h4: "0 < length (a_input_json ex_args)" by (simp add: ex_args_def)
  have h5: "\<forall>n < length (spawned ex_world) + 0. \<forall>c. child_ok (child (sys ex_fail_env) n c)"
    by (simp add: ex_world_def)
  have h6: "returncode (child (sys ex_fail_env) (length (spawned ex_world) + 0) (batch_cmd ex_fail_env ex_args (a_input_json ex_args ! 0))) \<noteq> 0"
    by (simp add: ex_fail_env_def ex_fail_sys_def)
  have h7: "\<not> isl (utf8_decode (out (child (sys ex_fail_env) (length (spawned ex_world) + 0) (batch_cmd ex_fail_env ex_args (a_input_json ex_args ! 0)))))"
    by (simp add: ex_fail_env_def ex_fail_sys_def utf8_decode_def)
  have h8: "\<not> isl (utf8_decode (err (child (sys ex_fail_env) (length (spawned ex_world) + 0) (batch_cmd ex_fail_env ex_args (a_input_json ex_args ! 0)))))"
    by (simp add: ex_fail_env_def ex_fail_sys_def utf8_decode_def)
  have e3: "loads ex_fail_env ex_world ''a.json''" using h3 by (simp add: ex_args_def)
  have e5: "spawned ex_world = []" by (simp add: ex_world_def)
  show ?thesis using af3_main_stops_at_first_failure [OF h1 h2 h3 h4 h5 h6 h7 h8] h1 h2 e3 h4 e5 h6 h7 h8
    by blast
qed

theorem run_alphafold3_success_witness:
  "returncode (next_child ex_sys ex_world (af3_command (cwd ex_sys) ''a.json'' ''out'' ''/models'' ''/db'')) = 0 \<and>
   utf8_decode (out (next_child ex_sys ex_world (af3_command (cwd ex_sys) ''a.json'' ''out'' ''/models'' ''/db''))) = Inr [0x6F, 0x6B] \<and>
   utf8_decode (err (next_child ex_sys ex_world (af3_command (cwd ex_sys) ''a.json'' ''out'' ''/models'' ''/db''))) = Inr [] \<and>
   run_alphafold3 ex_sys ''a.json'' ''out'' ''/models'' ''/db'' ex_world =
     (Inr (), ex_world\<lparr>spawned := spawned ex_world @ [af3_command (cwd ex_sys) ''a.json'' ''out'' ''/models'' ''/db''],
                      console := console ex_world @ [[0x6F, 0x6B], [], ustr ''Alphafold3 run complete'',
                                              ustr (''Output files are in '' @ path_str (path_of ''out''))]\<rparr>)"
proof -
  have h1: "returncode (next_child ex_sys ex_world (af3_command (cwd ex_sys) ''a.json'' ''out'' ''/models'' ''/db'')) = 0"
    by (simp add: next_child_def ex_sys_def)
  have h2: "utf8_decode (out (next_child ex_sys ex_world (af3_command (cwd ex_sys) ''a.json'' ''out'' ''/models'' ''/db''))) = Inr [0x6F, 0x6B]"
    by (simp add: next_child_def ex_sys_def utf8_decode_def)
  have h3: "utf8_decode (err (next_child ex_sys ex_world (af3_command (cwd ex_sys) ''a.json'' ''out'' ''/models'' ''/db''))) = Inr []"
    by (simp add: next_child_def ex_sys_def utf8_decode_def)
  show ?thesis using run_alphafold3_success [OF h1 h2 h3] h1 h2 h3 by blast
qed

theorem run_alphafold3_failure_witness:
  "returncode (next_child ex_fail_sys ex_world (af3_command (cwd ex_fail_sys) ''a.json'' ''out'' ''/models'' ''/db'')) \<noteq> 0 \<and>
   utf8_decode (out (next_child ex_fail_sys ex_world (af3_command (cwd ex_fail_sys) ''a.json'' ''out'' ''/models'' ''/db''))) = Inr [0x6F] \<and>
   utf8_decode (err (next_child ex_fail_sys ex_world (af3_command (cwd ex_fail_sys) ''a.json'' ''out'' ''/models'' ''/db''))) = Inr [0x6B] \<and>
   run_alphafold3 ex_fail_sys ''a.json'' ''out'' ''/models'' ''/db'' ex_world =
     (Inl (CalledProcessError
             \<lparr>cpe_returncode = returncode (next_child ex_fail_sys ex_world (af3_command (cwd ex_fail_sys) ''a.json'' ''out'' ''/models'' ''/db'')),
              cpe_cmd = af3_command (cwd ex_fail_sys) ''a.json'' ''out'' ''/models'' ''/db'',
              cpe_output = Some (err (next_child ex_fail_sys ex_world (af3_command (cwd ex_fail_sys) ''a.json'' ''out'' ''/models'' ''/db''))),
              cpe_stderr = None\<rparr>),
      ex_world\<lparr>spawned := spawned ex_world @ [af3_command (cwd ex_fail_sys) ''a.json'' ''out'' ''/models'' ''/db''],
               console := console ex_world @ [[0x6B], [0x6F]]\<rparr>)"
proof -
  have h1: "returncode (next_child ex_fail_sys ex_world (af3_command (cwd ex_fail_sys) ''a.json'' ''out'' ''/models'' ''/db'')) \<noteq> 0"
    by (simp add: next_child_def ex_fail_sys_def)
  have h2: "utf8_decode (out (next_child ex_fail_sys ex_world (af3_command (cwd ex_fail_sys) ''a.json'' ''out'' ''/models'' ''/db''))) = Inr [0x6F]"
    by (simp add: next_child_def ex_fail_sys_def utf8_decode_def)
  have h3: "utf8_decode (err (next_child ex_fail_sys ex_world (af3_command (cwd ex_fail_sys) ''a.json'' ''out'' ''/models'' ''/db''))) = Inr [0x6B]"
    by (simp add: next_child_def ex_fail_sys_def utf8_decode_def)
  show ?thesis using run_alphafold3_failure [OF h1 h2 h3] h1 h2 h3 by blast
qed

theorem run_alphafold3_undecodable_output_witness:
  "returncode (next_child ex_bad_sys ex_world (af3_command (cwd ex_bad_sys) ''a.json'' ''out'' ''/models'' ''/db'')) = 0 \<and>
   utf8_decode (out (next_child ex_bad_sys ex_world (af3_command (cwd ex_bad_sys) ''a.json'' ''out'' ''/models'' ''/db''))) = Inl 0 \<and>
   fst (run_alphafold3 ex_bad_sys ''a.json'' ''out'' ''/models'' ''/db'' ex_world) = Inl (UnicodeDecodeError 0) \<and>
   console (snd (run_alphafold3 ex_bad_sys ''a.json'' ''out'' ''/models'' ''/db'' ex_world)) = console ex_world"
proof -
  have h1: "returncode (next_child ex_bad_sys ex_world (af3_command (cwd ex_bad_sys) ''a.json'' ''out'' ''/models'' ''/db'')) = 0"
    by (simp add: next_child_def ex_bad_sys_def)
  have h2: "utf8_decode (out (next_child ex_bad_sys ex_world (af3_command (cwd ex_bad_sys) ''a.json'' ''out'' ''/models'' ''/db''))) = Inl 0"
    by (simp add: next_child_def ex_bad_sys_def utf8_decode_def)
  show ?thesis using run_alphafold3_undecodable_output [OF h1 h2] h1 h2 by blast
qed

theorem af3_command_lex_witness:
  "shell_safe (input_dir ''/home/u'' ''a.json'') \<and> shell_safe (output_mount ''/home/u'' ''out'') \<and>
   shell_safe ''/models'' \<and> shell_safe ''/db'' \<and> shell_safe (input_name ''a.json'') \<and>
   shell_lex (af3_command ''/home/u'' ''a.json'' ''out'' ''/models'' ''/db'') =
     Some [docker_argv (af3_invocation ''/home/u'' ''a.json'' ''out'' ''/models'' ''/db'')]"
proof -
  have h1: "shell_safe (input_dir ''/home/u'' ''a.json'')" by code_simp
  have h2: "shell_safe (output_mount ''/home/u'' ''out'')" by code_simp
  have h3: "shell_safe ''/models''" by code_simp
  have h4: "shell_safe ''/db''" by code_simp
  have h5: "shell_safe (input_name ''a.json'')" by code_simp
  show ?thesis using af3_command_lex [OF h1 h2 h3 h4 h5] h1 h2 h3 h4 h5 by blast
qed

lemma ex_margs_prepare:
  "prepare ex_env ex_margs (out_slots ex_margs) 0 ''a.json'' JNull ex_world =
     (Inr ''a_mmseqs.json'',
      ex_world\<lparr>files := AList.update [''home'', ''u'', ''a_mmseqs.json''] [0x7B, 0x7D] (files ex_world)\<rparr>)"
  by code_simp

theorem mmseqs_container_reads_written_file_witness:
  "a_mmseqs2 ex_margs \<and> validate ex_margs = Inr () \<and>
   0 < length (a_input_json ex_margs) \<and>
   prepare ex_env ex_margs (out_slots ex_margs) 0 ''a.json'' JNull ex_world =
     (Inr ''a_mmseqs.json'',
      ex_world\<lparr>files := AList.update [''home'', ''u'', ''a_mmseqs.json''] [0x7B, 0x7D] (files ex_world)\<rparr>) \<and>
   p_parts (path_of ''a_mmseqs.json'') \<noteq> [] \<and> input_name ''a_mmseqs.json'' \<noteq> ''..'' \<and>
   (\<exists>p. container_to_host
          (dr_mounts (af3_invocation (cwd (sys ex_env)) ''a_mmseqs.json'' (a_output_dir ex_margs)
                        (a_model_params ex_margs) (a_database_dir ex_margs)))
          (''/root/af_input/'' @ input_name ''a_mmseqs.json'') = Some p \<and>
        map_of (files (ex_world\<lparr>files := AList.update [''home'', ''u'', ''a_mmseqs.json''] [0x7B, 0x7D] (files ex_world)\<rparr>))
          (p_parts p) \<noteq> None)"
proof -
  have h1: "msa_contract ex_env"
    using add_msa_to_json_spec_contract [where env = ex_env and augment = "\<lambda>r. Inr JNull"
        and dump = "\<lambda>j. [0x7B, 0x7D]"]
    by (simp add: ex_env_def ex_sys_def)
  have h2: "a_mmseqs2 ex_margs" by (simp add: ex_margs_def)
  have h3: "validate ex_margs = Inr ()" by code_simp
  have h4: "0 < length (a_input_json ex_margs)" by (simp add: ex_margs_def ex_args_def)
  have h5: "p_parts (path_of ''a_mmseqs.json'') \<noteq> []" by code_simp
  have h6: "input_name ''a_mmseqs.json'' \<noteq> ''..''" by code_simp
  show ?thesis
    using mmseqs_container_reads_written_file [OF h1 h2 h3 h4 ex_margs_prepare h5 h6]
      h2 h3 h4 ex_margs_prepare h5 h6 by blast
qed

theorem run_json_default_suffix_witness:
  "\<not> contains ''.json'' ''case1'' \<and> run_json_of (''case1'' @ ''.json'') None = ''case1'' @ ''_mmseqs.json''"
proof -
  have h: "\<not> contains ''.json'' ''case1''" by code_simp
  show ?thesis using run_json_default_suffix [OF h] h by blast
qed

theorem prepare_mmseqs_witness:
  "a_mmseqs2 ex_margs \<and> validate ex_margs = Inr () \<and> 0 < length (a_input_json ex_margs) \<and>
   add_msa ex_env \<lparr>mr_input_json = ''a.json'', mr_opts = a_msa ex_margs, mr_af3_json = JNull,
                   mr_output_json = out_slots ex_margs ! 0, mr_to_file = True\<rparr> ex_world =
     (Inr JNull, ex_world\<lparr>files := AList.update [''home'', ''u'', ''a_mmseqs.json''] [0x7B, 0x7D] (files ex_world)\<rparr>) \<and>
   prepare ex_env ex_margs (out_slots ex_margs) 0 ''a.json'' JNull ex_world =
     (Inr (run_json_of ''a.json'' (out_slots ex_margs ! 0)),
      ex_world\<lparr>files := AList.update [''home'', ''u'', ''a_mmseqs.json''] [0x7B, 0x7D] (files ex_world)\<rparr>)"
proof -
  have h1: "a_mmseqs2 ex_margs" by (simp add: ex_margs_def)
  have h2: "validate ex_margs = Inr ()" by code_simp
  have h3: "0 < length (a_input_json ex_margs)" by (simp add: ex_margs_def ex_args_def)
  have h4: "add_msa ex_env \<lparr>mr_input_json = ''a.json'', mr_opts = a_msa ex_margs, mr_af3_json = JNull,
                   mr_output_json = out_slots ex_margs ! 0, mr_to_file = True\<rparr> ex_world =
     (Inr JNull, ex_world\<lparr>files := AList.update [''home'', ''u'', ''a_mmseqs.json''] [0x7B, 0x7D] (files ex_world)\<rparr>)"
    by code_simp
  show ?thesis using prepare_mmseqs [OF h1 h2 h3 h4] h1 h2 h3 h4 by blast
qed

theorem validate_Inr_iff_witness:
  "a_output_json ex_args = None \<and> length (a_input_json ex_args) = 1 \<and> validate ex_args = Inr () \<and>
   validate (ex_args\<lparr>a_output_json := Some [''x.json'', ''y.json'']\<rparr>) \<noteq> Inr ()"
proof -
  have h1: "a_output_json ex_args = None" by (simp add: ex_args_def)
  have h2: "length (a_input_json ex_args) = 1" by (simp add: ex_args_def)
  have h3: "length (a_input_json (ex_args\<lparr>a_output_json := Some [''x.json'', ''y.json'']\<rparr>)) = 1"
    by (simp add: ex_args_def)
  show ?thesis
    using validate_Inr_iff [of ex_args] validate_Inr_iff [of "ex_args\<lparr>a_output_json := Some [''x.json'', ''y.json'']\<rparr>"]
      h1 h2 h3 by simp
qed

theorem af3_namespace_types_witness:
  "parse_args (af3_argparse_main argument_parser [] []) ex_argv =
     Some (Inr [(''input_json'', AList [''a.json'']), (''output_dir'', AStr ''out''), (''output_json'', ANone),
                (''database_dir'', AStr ''/db''), (''mmseqs2'', ABool False), (''model_params'', AStr ''/models'')]) \<and>
   a_input_json (args_of (\<lambda>_. ex_opts) [(''input_json'', AList [''a.json'']), (''output_dir'', AStr ''out''), (''output_json'', ANone),
                (''database_dir'', AStr ''/db''), (''mmseqs2'', ABool False), (''model_params'', AStr ''/models'')]) \<noteq> []"
proof -
  have h1: "wf_specs (af3_argparse_main argument_parser [] [])" by code_simp
  have h2: "parse_args (af3_argparse_main argument_parser [] []) ex_argv =
     Some (Inr [(''input_json'', AList [''a.json'']), (''output_dir'', AStr ''out''), (''output_json'', ANone),
                (''database_dir'', AStr ''/db''), (''mmseqs2'', ABool False), (''model_params'', AStr ''/models'')])"
    by code_simp
  show ?thesis using af3_namespace_types [OF h1 h2, of "\<lambda>_. ex_opts"] h2 by blast
qed

theorem parse_render_witness:
  "\<exists>ns. parse_args (af3_argparse_main argument_parser [] []) (render_argv ex_args) = Some (Inr ns) \<and>
        args_of (\<lambda>_. ex_opts) ns = ex_args"
proof -
  have h1: "cli_ok [] []" by code_simp
  have h2: "list_all plain_arg (a_input_json ex_args @ [a_output_dir ex_args, a_database_dir ex_args, a_model_params ex_args] @
               (case a_output_json ex_args of None \<Rightarrow> [] | Some xs \<Rightarrow> xs))"
    by (simp add: ex_args_def plain_arg_def)
  have h3: "a_input_json ex_args \<noteq> []" "a_output_json ex_args \<noteq> Some []" by (simp_all add: ex_args_def)
  have e: "ex_args\<lparr>a_msa := ex_opts\<rparr> = ex_args" by (simp add: ex_args_def)
  show ?thesis using parse_render [OF h1 h2 h3, of "\<lambda>_. ex_opts"] e by simp
qed

theorem script_missing_option_witness:
  "script_main ex_env [] [] (\<lambda>_. ex_opts) [''a.json'', ''out'', ''--model_params'', ''/models''] ex_world = Some (2, ex_world)"
proof -
  have h1: "cli_ok [] []" by code_simp
  have h2: "list_all (\<lambda>t. plain_arg t \<or> t \<in> set (map as_flag [arg_output_json, arg_database, arg_mmseqs2, arg_model_params]))
              [''a.json'', ''out'', ''--model_params'', ''/models'']"
    by code_simp
  have h3: "arg_database \<in> set [arg_database, arg_model_params]" by simp
  have h4: "as_flag arg_database \<notin> set [''a.json'', ''out'', ''--model_params'', ''/models'']"
    by (simp add: arg_database_def)
  show ?thesis using script_missing_option [OF h1 h2 h3 h4] .
qed

theorem af3_main_mmseqs_runs_in_order_witness:
  "fst (af3_main (spec_env ex_env (\<lambda>r. Inr JNull) (\<lambda>j. [0x7B, 0x7D])) (ex_margs\<lparr>a_input_json := [''a.json'', ''a.json'']\<rparr>) ex_world) = Inr () \<and>
   spawned (snd (af3_main (spec_env ex_env (\<lambda>r. Inr JNull) (\<lambda>j. [0x7B, 0x7D])) (ex_margs\<lparr>a_input_json := [''a.json'', ''a.json'']\<rparr>) ex_world)) =
     [batch_cmd ex_env ex_margs ''a_mmseqs.json'', batch_cmd ex_env ex_margs ''a_mmseqs.json'']"
proof -
  let ?a = "ex_margs\<lparr>a_input_json := [''a.json'', ''a.json'']\<rparr>"
  have v: "validate ?a = Inr ()" "a_mmseqs2 ?a" by code_simp+
  have l: "\<forall>f \<in> set (a_input_json ?a). loads ex_env ex_world f" by code_simp
  have g: "\<forall>r. \<not> isl ((\<lambda>r. Inr JNull :: string + json) r)" "\<forall>j. \<not> isl (json_load ex_env ((\<lambda>j. [0x7B, 0x7D]) j))"
    by (simp_all add: ex_env_def)
  have c: "\<forall>n c. child_ok (child (sys ex_env) n c)" by (simp add: ex_env_def ex_sys_def child_ok_def utf8_decode_def)
  have r: "run_json_of ''a.json'' None = ''a_mmseqs.json''" by code_simp
  have b: "batch_cmd ex_env ?a = batch_cmd ex_env ex_margs" by (simp add: batch_cmd_def fun_eq_iff)
  have o: "out_slots ?a = [None, None]" "spawned ex_world = []" by code_simp+
  show ?thesis using af3_main_mmseqs_runs_in_order [OF v l g c] r b o by simp
qed

lemma ex_children_ok: "\<forall>n c. child_ok (child (sys ex_env) n c)"
  by (simp add: ex_env_def ex_sys_def child_ok_def utf8_decode_def)

theorem af3_main_stops_at_missing_input_witness:
  "fst (af3_main ex_env (ex_args\<lparr>a_input_json := [''a.json'', ''b.json'']\<rparr>) ex_world) = Inl (FileNotFoundError ''b.json'') \<and>
   spawned (snd (af3_main ex_env (ex_args\<lparr>a_input_json := [''a.json'', ''b.json'']\<rparr>) ex_world)) =
     [batch_cmd ex_env ex_args ''a.json'']"
proof -
  let ?a = "ex_args\<lparr>a_input_json := [''a.json'', ''b.json'']\<rparr>"
  have h: "validate ?a = Inr ()" "\<not> a_mmseqs2 ?a" "1 < length (a_input_json ?a)"
    "\<forall>f \<in> set (take 1 (a_input_json ?a)). loads ex_env ex_world f"
    "map_of (files ex_world) (file_key ex_env (a_input_json ?a ! 1)) = None" by code_simp+
  have b: "batch_cmd ex_env ?a = batch_cmd ex_env ex_args" by (simp add: batch_cmd_def fun_eq_iff)
  show ?thesis using af3_main_stops_at_missing_input [OF h ex_children_ok] b by (simp add: ex_world_def)
qed

theorem af3_main_mmseqs_search_fails_witness:
  "fst (af3_main (spec_env ex_env ex_search (\<lambda>j. [0x7B, 0x7D])) (ex_margs\<lparr>a_input_json := [''a.json'', ''b.json'']\<rparr>) ex_two_world) =
     Inl (MsaError ''no hits'') \<and>
   spawned (snd (af3_main (spec_env ex_env ex_search (\<lambda>j. [0x7B, 0x7D])) (ex_margs\<lparr>a_input_json := [''a.json'', ''b.json'']\<rparr>) ex_two_world)) =
     [batch_cmd ex_env ex_margs ''a_mmseqs.json'']"
proof -
  let ?a = "ex_margs\<lparr>a_input_json := [''a.json'', ''b.json'']\<rparr>"
  have h: "validate ?a = Inr ()" "a_mmseqs2 ?a" "1 < length (a_input_json ?a)"
    "\<forall>f \<in> set (a_input_json ?a). loads ex_env ex_two_world f" by code_simp+
  have s: "\<forall>r. mr_input_json r \<in> set (take 1 (a_input_json ?a)) \<longrightarrow> \<not> isl (ex_search r)"
    "\<forall>r. mr_input_json r = a_input_json ?a ! 1 \<longrightarrow> isl (ex_search r)"
    by (simp_all add: ex_search_def ex_margs_def)
  have d: "\<forall>j. \<not> isl (json_load ex_env ((\<lambda>j. [0x7B, 0x7D]) j))" by (simp add: ex_env_def)
  have e: "fst (af3_main (spec_env ex_env ex_search (\<lambda>j. [0x7B, 0x7D])) ?a ex_two_world) = Inl (MsaError ''no hits'')"
    by code_simp
  have o: "out_slots ?a = [None, None]" "spawned ex_two_world = []" "run_json_of ''a.json'' None = ''a_mmseqs.json''" by code_simp+
  have b: "batch_cmd ex_env ?a = batch_cmd ex_env ex_margs" by (simp add: batch_cmd_def fun_eq_iff)
  show ?thesis using af3_main_mmseqs_search_fails [OF h s d ex_children_ok] e o b by simp
qed

theorem blank_in_path_splits_volume_witness:
  "shell_lex (af3_command ''/'' ''/my data/a.json'' ''/out'' ''/m'' ''/d'') =
     Some [[''docker'', ''run'', ''-it'', ''--volume'', ''/my'', ''data:/root/af_input'',
            ''--volume'', ''/out:/root/af_output'', ''--volume'', ''/m:/root/models'',
            ''--volume'', ''/d:/root/public_databases'', ''--gpus'', ''all'', ''alphafold3'',
            ''python'', ''run_alphafold.py'', ''--json_path=/root/af_input/a.json'',
            ''--model_dir=/root/models'', ''--output_dir=/root/af_output'']] \<and>
   shell_lex (af3_command ''/'' ''/my data/a.json'' ''/out'' ''/m'' ''/d'') \<noteq>
     Some [docker_argv (af3_invocation ''/'' ''/my data/a.json'' ''/out'' ''/m'' ''/d'')]"
proof -
  have h: "input_dir ''/'' ''/my data/a.json'' = ''/my'' @ [SP] @ ''data''" "''/my'' \<noteq> []"
    "shell_safe ''/my''" "shell_safe ''data''" "shell_safe (output_mount ''/'' ''/out'')"
    "shell_safe ''/m''" "shell_safe ''/d''" "shell_safe (input_name ''/my data/a.json'')"
    by code_simp+
  have o: "output_mount ''/'' ''/out'' = ''/out''" "input_name ''/my data/a.json'' = ''a.json''" by code_simp+
  note t = blank_in_path_splits_volume [OF h]
  have "shell_lex (af3_command ''/'' ''/my data/a.json'' ''/out'' ''/m'' ''/d'') =
     Some [[''docker'', ''run'', ''-it'', ''--volume'', ''/my'', ''data:/root/af_input'',
            ''--volume'', ''/out:/root/af_output'', ''--volume'', ''/m:/root/models'',
            ''--volume'', ''/d:/root/public_databases'', ''--gpus'', ''all'', ''alphafold3'',
            ''python'', ''run_alphafold.py'', ''--json_path=/root/af_input/a.json'',
            ''--model_dir=/root/models'', ''--output_dir=/root/af_output'']]"
    using conjunct1 [OF t] o by simp
  then show ?thesis using conjunct2 [OF t] by blast
qed

theorem replace_rewrites_directories_witness:
  "\<not> contains ''.json'' ''runs'' \<and>
   run_json_of ''runs.json.d/case1.json'' None = ''runs_mmseqs.json.d/case1_mmseqs.json''"
proof -
  have h: "\<not> contains ''.json'' ''runs''" by code_simp
  have r: "run_json_of ''.d/case1.json'' None = ''.d/case1_mmseqs.json''" by code_simp
  show ?thesis using replace_rewrites_directories [OF h, of "''.d/case1.json''"] h r by simp
qed

theorem output_json_first_swallows_positionals_witness:
  "parse_args (af3_argparse_main argument_parser [] [])
     [''--output_json'', ''a.json'', ''out'', ''--database'', ''/db'', ''--model_params'', ''/m''] =
   Some (Inl (ErrRequired [''input_json'', ''output_dir'']))"
proof -
  have h: "cli_ok [] []" "list_all plain_arg ([''a.json'', ''out''] @ [''/db'', ''/m''])" "[''a.json'', ''out''] \<noteq> []"
    by code_simp+
  show ?thesis using output_json_first_swallows_positionals [OF h] by simp
qed

end
